(* ===== verification/Prelude.thy ===== *)
theory Prelude
  imports Main
begin

text \<open>
  What every component of the model shares: the outcome of a Go call (a value or a run-time
  panic), state-passing programs over such outcomes, the HTTP status codes the proxy uses,
  and generic lemmas on lists and maps.

  A Go panic (nil dereference, index out of range) unwinds the handler; the state changes
  made before it stay. So a program is a function from the state to an outcome and a new
  state, and a panic keeps the state it happened in.
\<close>

section \<open>Lemma collections\<close>

named_theorems go_simps \<open>evaluation rules of the state-passing programs\<close>
named_theorems kv_inv \<open>preservation of the key-value store's invariant\<close>
named_theorems pm_simps \<open>field rules of the principal map\<close>

section \<open>Outcomes and programs\<close>

datatype 'a outcome = Ret 'a | Panic

type_synonym ('s, 'a) go = "'s \<Rightarrow> 'a outcome \<times> 's"

definition go_return :: "'a \<Rightarrow> ('s, 'a) go" where
  "go_return a = (\<lambda>s. (Ret a, s))"

definition go_panic :: "('s, 'a) go" where
  "go_panic = (\<lambda>s. (Panic, s))"

definition go_bind :: "('s, 'a) go \<Rightarrow> ('a \<Rightarrow> ('s, 'b) go) \<Rightarrow> ('s, 'b) go" where
  "go_bind m f = (\<lambda>s. case m s of (Ret a, s') \<Rightarrow> f a s' | (Panic, s') \<Rightarrow> (Panic, s'))"

lemma go_return_apply [simp, go_simps]: "go_return a s = (Ret a, s)"
  by (simp add: go_return_def)

lemma go_panic_apply [simp, go_simps]: "go_panic s = (Panic, s)"
  by (simp add: go_panic_def)

lemma go_bind_apply [go_simps]:
  "go_bind m f s = (case m s of (Ret a, s') \<Rightarrow> f a s' | (Panic, s') \<Rightarrow> (Panic, s'))"
  by (simp add: go_bind_def)

lemma go_bind_Ret [simp]: "m s = (Ret a, s') \<Longrightarrow> go_bind m f s = f a s'"
  by (simp add: go_bind_def)

lemma go_bind_Panic [simp]: "m s = (Panic, s') \<Longrightarrow> go_bind m f s = (Panic, s')"
  by (simp add: go_bind_def)

lemma go_bind_assoc: "go_bind (go_bind m f) g = go_bind m (\<lambda>a. go_bind (f a) g)"
  by (rule ext) (simp add: go_bind_def split: prod.splits outcome.splits)

lemma go_bind_RetE:
  assumes "go_bind m f s = (Ret b, s'')"
  obtains a s' where "m s = (Ret a, s')" and "f a s' = (Ret b, s'')"
  using assms by (auto simp: go_bind_def split: prod.splits outcome.splits)

section \<open>Triples\<close>

text \<open>
  \<open>triple P f Q X\<close>: from a state in P the program returns a value and a state in Q, or panics
  in a state in X. \<open>keeps I f\<close>: the program keeps I on both ways.
\<close>

definition triple :: "('s \<Rightarrow> bool) \<Rightarrow> ('s, 'a) go \<Rightarrow> ('a \<Rightarrow> 's \<Rightarrow> bool) \<Rightarrow> ('s \<Rightarrow> bool) \<Rightarrow> bool" where
  "triple P f Q X \<longleftrightarrow> (\<forall>s. P s \<longrightarrow> (case f s of (Ret a, s') \<Rightarrow> Q a s' | (Panic, s') \<Rightarrow> X s'))"

definition keeps :: "('s \<Rightarrow> bool) \<Rightarrow> ('s, 'a) go \<Rightarrow> bool" where
  "keeps I f \<longleftrightarrow> triple I f (\<lambda>_. I) I"

named_theorems go_intro \<open>introduction rules for triples\<close>

lemma tripleI:
  assumes "\<And>s a s'. P s \<Longrightarrow> f s = (Ret a, s') \<Longrightarrow> Q a s'" and "\<And>s s'. P s \<Longrightarrow> f s = (Panic, s') \<Longrightarrow> X s'"
  shows "triple P f Q X"
  unfolding triple_def using assms by (auto split: prod.splits outcome.splits)

lemma triple_Ret: "triple P f Q X \<Longrightarrow> P s \<Longrightarrow> f s = (Ret a, s') \<Longrightarrow> Q a s'"
  by (auto simp: triple_def split: prod.splits outcome.splits)

lemma keepsI: "(\<And>s x s'. I s \<Longrightarrow> f s = (x, s') \<Longrightarrow> I s') \<Longrightarrow> keeps I f"
  unfolding keeps_def by (rule tripleI) blast+

lemma keepsD: "keeps I f \<Longrightarrow> I s \<Longrightarrow> f s = (x, s') \<Longrightarrow> I s'"
  by (cases x) (auto simp: keeps_def triple_def split: prod.splits outcome.splits)

lemma triple_return [go_intro]: "(\<And>s. P s \<Longrightarrow> Q a s) \<Longrightarrow> triple P (go_return a) Q X"
  by (simp add: triple_def)

lemma triple_panic [go_intro]: "(\<And>s. P s \<Longrightarrow> X s) \<Longrightarrow> triple P go_panic Q X"
  by (simp add: triple_def)

lemma triple_bind:
  assumes "triple P m R X" and "\<And>a. triple (R a) (f a) Q X"
  shows "triple P (go_bind m f) Q X"
  using assms by (fastforce simp: triple_def go_bind_def split: prod.splits outcome.splits)

lemma triple_keeps_bind:
  assumes "keeps I m" and "\<And>a. triple I (f a) Q I"
  shows "triple I (go_bind m f) Q I"
  using assms(1) triple_bind [OF _ assms(2)] by (simp add: keeps_def)

lemma keeps_return [go_intro]: "keeps I (go_return a)"
  by (simp add: keeps_def triple_return)

lemma keeps_panic [go_intro]: "keeps I go_panic"
  by (simp add: keeps_def triple_panic)

lemma keeps_bind [go_intro]: "keeps I m \<Longrightarrow> (\<And>a. keeps I (f a)) \<Longrightarrow> keeps I (go_bind m f)"
  unfolding keeps_def by (rule triple_bind)

lemma keeps_if [go_intro]: "(b \<Longrightarrow> keeps I f) \<Longrightarrow> (\<not> b \<Longrightarrow> keeps I g) \<Longrightarrow> keeps I (if b then f else g)"
  by simp

lemma keeps_option [go_intro]:
  "keeps I f \<Longrightarrow> (\<And>a. keeps I (g a)) \<Longrightarrow> keeps I (case x of None \<Rightarrow> f | Some a \<Rightarrow> g a)"
  by (cases x) auto

lemma keeps_prod [go_intro]: "(\<And>a b. keeps I (f a b)) \<Longrightarrow> keeps I (case x of (a, b) \<Rightarrow> f a b)"
  by (cases x) auto

lemma keeps_sum [go_intro]:
  "(\<And>a. keeps I (f a)) \<Longrightarrow> (\<And>b. keeps I (g b)) \<Longrightarrow> keeps I (case x of Inl a \<Rightarrow> f a | Inr b \<Rightarrow> g b)"
  by (cases x) auto

section \<open>Slices\<close>

text \<open>
  \<open>xs[i]\<close> of a Go slice panics out of range; \<open>m[k]\<close> of a map from keys to slices is the
  nil slice where the key is absent, and a nil slice behaves as an empty one.
\<close>

definition slice_get :: "'a list \<Rightarrow> nat \<Rightarrow> 'a option" where
  "slice_get xs i = (if i < length xs then Some (xs ! i) else None)"

definition map_slice :: "('k \<rightharpoonup> 'v list) \<Rightarrow> 'k \<Rightarrow> 'v list" where
  "map_slice m k = (case m k of None \<Rightarrow> [] | Some vs \<Rightarrow> vs)"

lemma slice_get_Some [simp]: "slice_get xs i = Some x \<longleftrightarrow> i < length xs \<and> xs ! i = x"
  by (simp add: slice_get_def)

lemma slice_get_None [simp]: "slice_get xs i = None \<longleftrightarrow> length xs \<le> i"
  by (auto simp: slice_get_def)

lemma slice_get_in [simp]: "i < length xs \<Longrightarrow> slice_get xs i = Some (xs ! i)"
  by simp

lemma slice_get_out [simp]: "length xs \<le> i \<Longrightarrow> slice_get xs i = None"
  by simp

lemma map_slice_upd [simp]: "map_slice (m(k \<mapsto> vs)) = (map_slice m)(k := vs)"
  by (rule ext) (simp add: map_slice_def)

lemma map_slice_del [simp]: "map_slice (m(k := None)) = (map_slice m)(k := [])"
  by (rule ext) (simp add: map_slice_def)

lemma map_slice_empty [simp]: "map_slice Map.empty = (\<lambda>_. [])"
  by (rule ext) (simp add: map_slice_def)

text \<open>The orders in which Go may range over a map.\<close>

definition map_order :: "('k \<rightharpoonup> 'v) \<Rightarrow> 'k list \<Rightarrow> bool" where
  "map_order m ks \<longleftrightarrow> distinct ks \<and> set ks = dom m"

section \<open>Counting in lists\<close>

lemma count_list_pos_iff: "0 < count_list xs x \<longleftrightarrow> x \<in> set xs"
  by (metis count_list_0_iff gr0I less_irrefl)

section \<open>HTTP status codes (net/http)\<close>

abbreviation StatusOK :: int where "StatusOK \<equiv> 200"
abbreviation StatusBadRequest :: int where "StatusBadRequest \<equiv> 400"
abbreviation StatusUnauthorized :: int where "StatusUnauthorized \<equiv> 401"
abbreviation StatusNotFound :: int where "StatusNotFound \<equiv> 404"
abbreviation StatusInternalServerError :: int where "StatusInternalServerError \<equiv> 500"

end
