(* ===== verification/GoStrings.thy ===== *)
theory GoStrings
  imports Prelude
begin

text \<open>
  The parts of Go's string library the proxy uses, over byte strings (an Isabelle
  \<open>char\<close> is a byte): package strings (HasPrefix, HasSuffix, Join, Split and Trim with a
  one-byte separator, Replace of the first occurrence), strconv.ParseInt in base ten, the
  \<open>%d\<close> verb of fmt.Sprintf and fmt.Sscanf, and bytes.Buffer.ReadString. The lemmas are
  the round trips (printing then parsing a number, joining then splitting a line) the
  components rest on.
\<close>

section \<open>Package strings\<close>

definition HasPrefix :: "string \<Rightarrow> string \<Rightarrow> bool" where
  "HasPrefix s p \<longleftrightarrow> length p \<le> length s \<and> take (length p) s = p"

definition HasSuffix :: "string \<Rightarrow> string \<Rightarrow> bool" where
  "HasSuffix s p \<longleftrightarrow> length p \<le> length s \<and> drop (length s - length p) s = p"

fun Join :: "string list \<Rightarrow> string \<Rightarrow> string" where
  "Join [] sep = []"
| "Join [x] sep = x"
| "Join (x # y # ys) sep = x @ sep @ Join (y # ys) sep"

text \<open>strings.Split with a separator of one byte: n separators give n + 1 parts.\<close>

fun Split :: "string \<Rightarrow> char \<Rightarrow> string list" where
  "Split [] c = [[]]"
| "Split (x # xs) c =
     (if x = c then [] # Split xs c
      else (case Split xs c of [] \<Rightarrow> [[x]] | p # ps \<Rightarrow> (x # p) # ps))"

text \<open>strings.Trim with a cutset of one byte.\<close>

definition Trim :: "string \<Rightarrow> char \<Rightarrow> string" where
  "Trim s c = rev (dropWhile (\<lambda>x. x = c) (rev (dropWhile (\<lambda>x. x = c) s)))"

text \<open>strings.Replace with n = 1: the first occurrence of a non-empty old string.\<close>

fun Replace1 :: "string \<Rightarrow> string \<Rightarrow> string \<Rightarrow> string" where
  "Replace1 [] old new = (if old = [] then new else [])"
| "Replace1 (x # xs) old new =
     (if HasPrefix (x # xs) old then new @ drop (length old) (x # xs)
      else x # Replace1 xs old new)"

text \<open>bytes.Buffer.ReadString('\\n') until the buffer is empty: each line with its newline.\<close>

fun read_lines :: "string \<Rightarrow> string list" where
  "read_lines [] = []"
| "read_lines (x # xs) =
     (if x = CHR 10 then [x] # read_lines xs
      else (case read_lines xs of [] \<Rightarrow> [[x]] | l # ls \<Rightarrow> (x # l) # ls))"

section \<open>Decimal numbers\<close>

definition digit_char :: "nat \<Rightarrow> char" where
  "digit_char d = char_of (48 + d)"

definition is_digit :: "char \<Rightarrow> bool" where
  "is_digit c \<longleftrightarrow> 48 \<le> (of_char c :: nat) \<and> (of_char c :: nat) \<le> 57"

definition digit_val :: "char \<Rightarrow> nat" where
  "digit_val c = of_char c - 48"

fun nat_dec :: "nat \<Rightarrow> string" where
  "nat_dec n = (if n < 10 then [digit_char n] else nat_dec (n div 10) @ [digit_char (n mod 10)])"

declare nat_dec.simps [simp del]

text \<open>The \<open>%d\<close> verb on an int.\<close>

definition int_dec :: "int \<Rightarrow> string" where
  "int_dec i = (if i < 0 then CHR ''-'' # nat_dec (nat (- i)) else nat_dec (nat i))"

text \<open>The value of a run of digits, most significant first.\<close>

definition dec_val :: "string \<Rightarrow> nat" where
  "dec_val s = foldl (\<lambda>n c. 10 * n + digit_val c) 0 s"

text \<open>
  strconv.ParseInt(s, 10, bits): an optional sign, then digits only; a syntax error and a
  value out of the range of \<open>bits\<close> bits are both errors (None).
\<close>

definition ParseInt :: "string \<Rightarrow> nat \<Rightarrow> int option" where
  "ParseInt s bits =
     (let (neg, ds) = (case s of [] \<Rightarrow> (False, [])
                       | c # cs \<Rightarrow> if c = CHR ''-'' then (True, cs)
                                   else if c = CHR ''+'' then (False, cs) else (False, s));
          v = int (dec_val ds)
      in if ds = [] \<or> \<not> list_all is_digit ds then None
         else if neg then (if v \<le> 2 ^ (bits - 1) then Some (- v) else None)
         else (if v < 2 ^ (bits - 1) then Some v else None))"

text \<open>The longest run of digits at the front, and what follows it.\<close>

definition span_digits :: "string \<Rightarrow> string \<times> string" where
  "span_digits s = (takeWhile is_digit s, dropWhile is_digit s)"

text \<open>
  The verb \<open>%d\<close> of fmt.Sscanf into an int: blanks are skipped (a newline is an error), then
  an optional sign and the longest run of digits, read as a 64-bit integer. The result is
  the value and the rest of the input. (White space outside ASCII is not skipped.)
\<close>

definition is_blank :: "char \<Rightarrow> bool" where
  "is_blank c \<longleftrightarrow> c \<in> {CHR 9, CHR 11, CHR 12, CHR 13, CHR 32}"

definition Sscanf_d :: "string \<Rightarrow> (int \<times> string) option" where
  "Sscanf_d s0 =
     (let s = dropWhile is_blank s0;
          sign = (case s of [] \<Rightarrow> [] | c # cs \<Rightarrow> if c = CHR ''-'' \<or> c = CHR ''+'' then [c] else []);
          (ds, rest) = span_digits (drop (length sign) s)
      in (case ParseInt (sign @ ds) 64 of None \<Rightarrow> None | Some v \<Rightarrow> Some (v, rest)))"

text \<open>fmt.Sscanf(s, "%d:%d", ...): both values read, or an error.\<close>

definition Sscanf_pair :: "string \<Rightarrow> (int \<times> int) option" where
  "Sscanf_pair s =
     (case Sscanf_d s of
        None \<Rightarrow> None
      | Some (a, r) \<Rightarrow>
          (case r of
             [] \<Rightarrow> None
           | c # r' \<Rightarrow>
               if c = CHR '':'' then
                 (case Sscanf_d r' of None \<Rightarrow> None | Some (b, _) \<Rightarrow> Some (a, b))
               else None))"

section \<open>Lemmas: decimal numbers\<close>

lemma of_char_digit [simp]: "d < 10 \<Longrightarrow> (of_char (digit_char d) :: nat) = 48 + d"
  by (simp add: digit_char_def)

lemma is_digit_digit [simp]: "d < 10 \<Longrightarrow> is_digit (digit_char d)"
  by (simp add: is_digit_def)

lemma digit_val_digit [simp]: "d < 10 \<Longrightarrow> digit_val (digit_char d) = d"
  by (simp add: digit_val_def)

lemma nat_dec_nonempty [simp]: "nat_dec n \<noteq> []"
  by (subst nat_dec.simps) simp

lemma nat_dec_digits: "list_all is_digit (nat_dec n)"
proof (induction n rule: nat_dec.induct)
  case (1 n)
  then show ?case by (subst nat_dec.simps) auto
qed

lemma dec_val_snoc: "dec_val (s @ [c]) = 10 * dec_val s + digit_val c"
  by (simp add: dec_val_def)

lemma dec_val_nat_dec [simp]: "dec_val (nat_dec n) = n"
proof (induction n rule: nat_dec.induct)
  case (1 n)
  show ?case
  proof (cases "n < 10")
    case True
    then show ?thesis by (subst nat_dec.simps) (simp add: dec_val_def)
  next
    case False
    with 1 show ?thesis by (subst nat_dec.simps) (simp add: dec_val_snoc)
  qed
qed

lemma nat_dec_inj [simp]: "nat_dec m = nat_dec n \<longleftrightarrow> m = n"
  by (metis dec_val_nat_dec)

lemma set_nat_dec: "c \<in> set (nat_dec n) \<Longrightarrow> is_digit c"
  using nat_dec_digits[of n] by (simp add: list_all_iff)

lemma not_digits [simp]:
  "\<not> is_digit (CHR ''-'')" "\<not> is_digit (CHR ''+'')" "\<not> is_digit (CHR '':'')"
  "\<not> is_digit (CHR ''.'')" "\<not> is_digit (CHR ''/'')" "\<not> is_digit (CHR '';'')"
  by (simp_all add: is_digit_def)

lemma not_digit_blank [simp]: "is_digit c \<Longrightarrow> \<not> is_blank c"
  by (auto simp: is_digit_def is_blank_def)

lemma span_digits_append:
  assumes "list_all is_digit ds" and "case r of [] \<Rightarrow> True | c # _ \<Rightarrow> \<not> is_digit c"
  shows "span_digits (ds @ r) = (ds, r)"
  using assms by (cases r) (auto simp: span_digits_def list_all_iff dropWhile_append takeWhile_append)

lemma nat_dec_Cons:
  obtains c cs where "nat_dec n = c # cs" and "is_digit c"
  by (metis list.set_intros(1) nat_dec_nonempty neq_Nil_conv set_nat_dec)

lemma ParseInt_nat_dec [simp]: "ParseInt (nat_dec n) bits =
    (if int n < 2 ^ (bits - 1) then Some (int n) else None)"
proof -
  obtain c cs where c: "nat_dec n = c # cs" "is_digit c" by (rule nat_dec_Cons)
  moreover have "list_all is_digit (c # cs)" "dec_val (c # cs) = n"
    using nat_dec_digits[of n] dec_val_nat_dec[of n] c by simp_all
  moreover have "c \<noteq> CHR ''-''" "c \<noteq> CHR ''+''" using c(2) by auto
  ultimately show ?thesis by (simp add: ParseInt_def)
qed

lemma ParseInt_neg_nat_dec [simp]: "ParseInt (CHR ''-'' # nat_dec n) bits =
    (if int n \<le> 2 ^ (bits - 1) then Some (- int n) else None)"
  using nat_dec_digits[of n] by (simp add: ParseInt_def)

lemma ParseInt_range:
  assumes "ParseInt s bits = Some v"
  shows "- (2 ^ (bits - 1)) \<le> v \<and> v < 2 ^ (bits - 1)"
proof -
  have p: "(0::int) < 2 ^ (bits - 1)" by simp
  have neg: "- int n < 2 ^ (bits - 1)" "- (2 ^ (bits - 1)) \<le> int n" for n
    using p by linarith+
  from assms neg show ?thesis
    by (auto simp: ParseInt_def Let_def simp del: One_nat_def split: if_splits list.splits prod.splits)
qed

lemma ParseInt_digits_nonneg:
  assumes "ParseInt s bits = Some v" and "list_all is_digit s"
  shows "0 \<le> v"
  using assms by (auto simp: ParseInt_def Let_def split: if_splits list.splits prod.splits)

section \<open>Lemmas: scanning a printed pair of ints\<close>

lemma Sscanf_d_int_dec:
  assumes r: "- (2 ^ 63) \<le> i" "i < 2 ^ 63" and rest: "case rest of [] \<Rightarrow> True | c # _ \<Rightarrow> \<not> is_digit c"
  shows "Sscanf_d (int_dec i @ rest) = Some (i, rest)"
proof (cases "i < 0")
  case True
  have sp: "span_digits (nat_dec (nat (- i)) @ rest) = (nat_dec (nat (- i)), rest)"
    using nat_dec_digits rest by (rule span_digits_append)
  have nb: "\<not> is_blank (CHR ''-'')" by (simp add: is_blank_def)
  from True r have "ParseInt (CHR ''-'' # nat_dec (nat (- i))) 64 = Some i" by simp
  with True sp nb show ?thesis by (simp add: Sscanf_d_def int_dec_def)
next
  case False
  obtain c cs where c: "nat_dec (nat i) = c # cs" "is_digit c" by (rule nat_dec_Cons)
  have sp: "span_digits (nat_dec (nat i) @ rest) = (nat_dec (nat i), rest)"
    using nat_dec_digits rest by (rule span_digits_append)
  from c have "c \<noteq> CHR ''-''" "c \<noteq> CHR ''+''" "\<not> is_blank c" by auto
  moreover from False r have "ParseInt (nat_dec (nat i)) 64 = Some i" by simp
  ultimately show ?thesis using False sp c by (simp add: Sscanf_d_def int_dec_def)
qed

lemma Sscanf_pair_int_dec:
  assumes "- (2 ^ 63) \<le> a" "a < 2 ^ 63" "- (2 ^ 63) \<le> b" "b < 2 ^ 63"
  shows "Sscanf_pair (int_dec a @ '':'' @ int_dec b) = Some (a, b)"
proof -
  have "Sscanf_d (int_dec a @ '':'' @ int_dec b) = Some (a, '':'' @ int_dec b)"
    using assms by (intro Sscanf_d_int_dec) simp_all
  moreover have "Sscanf_d (int_dec b) = Some (b, [])"
    using Sscanf_d_int_dec [of b "[]"] assms by simp
  ultimately show ?thesis by (simp add: Sscanf_pair_def)
qed

section \<open>Lemmas: lines and parts\<close>

lemma Split_nonempty [simp]: "Split s c \<noteq> []"
  by (induction s) (auto split: list.splits)

lemma Split_no_sep: "c \<notin> set s \<Longrightarrow> Split s c = [s]"
  by (induction s) auto

lemma Split_append: "c \<notin> set p \<Longrightarrow> Split (p @ c # r) c = p # Split r c"
  by (induction p) auto

lemma Split_Join:
  assumes "xs \<noteq> []" and "\<forall>x \<in> set xs. c \<notin> set x"
  shows "Split (Join xs [c]) c = xs"
  using assms by (induction xs "[c]" rule: Join.induct) (auto simp: Split_no_sep Split_append)

lemma Join_snoc_append:
  "xs \<noteq> [] \<Longrightarrow> Join xs sep @ t = Join (butlast xs @ [last xs @ t]) sep"
proof (induction xs sep rule: Join.induct)
  case (3 x y ys sep)
  then show ?case by (cases ys) auto
qed auto

lemma set_Join: "set (Join xs sep) \<subseteq> \<Union> (set ` set xs) \<union> set sep"
  by (induction xs sep rule: Join.induct) auto

lemma dropWhile_noop: "c \<notin> set s \<Longrightarrow> dropWhile (\<lambda>x. x = c) s = s"
  by (cases s) auto

lemma Trim_clean: "c \<notin> set s \<Longrightarrow> Trim s c = s"
  by (simp add: Trim_def dropWhile_noop)

lemma Trim_suffix:
  assumes "c \<notin> set s"
  shows "Trim (s @ [c]) c = s"
proof (cases s)
  case (Cons x xs)
  with assms have "dropWhile (\<lambda>x. x = c) (s @ [c]) = s @ [c]" by auto
  with assms show ?thesis by (simp add: Trim_def dropWhile_noop)
qed (simp add: Trim_def)

lemma read_lines_line:
  "CHR 10 \<notin> set l \<Longrightarrow> read_lines (l @ CHR 10 # r) = (l @ [CHR 10]) # read_lines r"
  by (induction l) auto

lemma read_lines_concat:
  "\<forall>l \<in> set ls. CHR 10 \<notin> set l \<Longrightarrow>
   read_lines (concat (map (\<lambda>l. l @ [CHR 10]) ls)) = map (\<lambda>l. l @ [CHR 10]) ls"
  by (induction ls) (simp_all add: read_lines_line)

lemma HasSuffix_append [simp]: "HasSuffix (s @ p) p"
  by (simp add: HasSuffix_def)

lemma HasPrefix_append [simp]: "HasPrefix (p @ s) p"
  by (simp add: HasPrefix_def)

lemma HasPrefix_iff: "HasPrefix s p \<longleftrightarrow> (\<exists>r. s = p @ r)"
  by (metis HasPrefix_append HasPrefix_def append_take_drop_id)

lemma HasSuffix_iff: "HasSuffix s p \<longleftrightarrow> (\<exists>r. s = r @ p)"
  by (metis HasSuffix_append HasSuffix_def append_take_drop_id)

end
