(* ===== verification/GoNet.thy ===== *)
theory GoNet
  imports GoStrings "HOL-Library.Word"
begin

unbundle bit_operations_syntax

text \<open>
  The parts of Go's package net (Go 1.12, the version of \<open>proxy/go.mod\<close>) the proxy uses: a
  net.IP is a slice of bytes, nil being the empty one; ParseIP, IP.String, To4, Equal,
  ParseCIDR, IPNet.Contains and IPNet.String. The main lemma is the round trip of an IPv4
  address through its dotted-decimal text.
\<close>

type_synonym byte = "8 word"
type_synonym IP = "byte list"

definition nil_IP :: IP where "nil_IP = []"

definition v4InV6Prefix :: "byte list" where
  "v4InV6Prefix = [0, 0, 0, 0, 0, 0, 0, 0, 0, 0, 255, 255]"

text \<open>net.IPv4: the 16-byte form of a v4 address.\<close>

definition IPv4 :: "byte \<Rightarrow> byte \<Rightarrow> byte \<Rightarrow> byte \<Rightarrow> IP" where
  "IPv4 a b c d = v4InV6Prefix @ [a, b, c, d]"

definition To4 :: "IP \<Rightarrow> IP" where
  "To4 ip = (if length ip = 4 then ip
             else if length ip = 16 \<and> take 12 ip = v4InV6Prefix then drop 12 ip else nil_IP)"

definition IP_Equal :: "IP \<Rightarrow> IP \<Rightarrow> bool" where
  "IP_Equal ip x =
     (if length ip = length x then ip = x
      else if length ip = 4 \<and> length x = 16 then take 12 x = v4InV6Prefix \<and> ip = drop 12 x
      else if length ip = 16 \<and> length x = 4 then take 12 ip = v4InV6Prefix \<and> drop 12 ip = x
      else False)"

section \<open>Parsing\<close>

text \<open>
  dtoi: a run of digits, failing at 0xFFFFFF or more and on no digit at all. The value, the
  number of characters read, and the rest.
\<close>

fun dtoi_loop :: "nat \<Rightarrow> nat \<Rightarrow> string \<Rightarrow> (nat \<times> nat \<times> string) option" where
  "dtoi_loop n i [] = (if i = 0 then None else Some (n, i, []))"
| "dtoi_loop n i (c # cs) =
     (if is_digit c then
        (let n' = n * 10 + digit_val c
         in if n' \<ge> 16777215 then None else dtoi_loop n' (i + 1) cs)
      else if i = 0 then None else Some (n, i, c # cs))"

definition dtoi :: "string \<Rightarrow> (nat \<times> nat \<times> string) option" where
  "dtoi s = dtoi_loop 0 0 s"

text \<open>One octet of a dotted address, after its dot where there is one.\<close>

definition parse_octet :: "string \<Rightarrow> (byte \<times> string) option" where
  "parse_octet s =
     (if s = [] then None
      else case dtoi s of
             None \<Rightarrow> None
           | Some (n, _, r) \<Rightarrow> if n > 255 then None else Some (of_nat n, r))"

definition parse_dot_octet :: "string \<Rightarrow> (byte \<times> string) option" where
  "parse_dot_octet s = (case s of [] \<Rightarrow> None | c # cs \<Rightarrow> if c = CHR ''.'' then parse_octet cs else None)"

definition parseIPv4 :: "string \<Rightarrow> IP" where
  "parseIPv4 s =
     (case parse_octet s of None \<Rightarrow> nil_IP | Some (a, s1) \<Rightarrow>
      (case parse_dot_octet s1 of None \<Rightarrow> nil_IP | Some (b, s2) \<Rightarrow>
       (case parse_dot_octet s2 of None \<Rightarrow> nil_IP | Some (c, s3) \<Rightarrow>
        (case parse_dot_octet s3 of None \<Rightarrow> nil_IP | Some (d, s4) \<Rightarrow>
         (if s4 = [] then IPv4 a b c d else nil_IP)))))"

text \<open>xtoi: a run of hexadecimal digits, with the same bound.\<close>

definition hex_val :: "char \<Rightarrow> nat option" where
  "hex_val c =
     (let n = (of_char c :: nat)
      in if 48 \<le> n \<and> n \<le> 57 then Some (n - 48)
         else if 97 \<le> n \<and> n \<le> 102 then Some (n - 87)
         else if 65 \<le> n \<and> n \<le> 70 then Some (n - 55) else None)"

fun xtoi_loop :: "nat \<Rightarrow> nat \<Rightarrow> string \<Rightarrow> (nat \<times> nat \<times> string) option" where
  "xtoi_loop n i [] = (if i = 0 then None else Some (n, i, []))"
| "xtoi_loop n i (c # cs) =
     (case hex_val c of
        Some h \<Rightarrow>
          (let n' = n * 16 + h
           in if n' \<ge> 16777215 then None else xtoi_loop n' (i + 1) cs)
      | None \<Rightarrow> if i = 0 then None else Some (n, i, c # cs))"

definition xtoi :: "string \<Rightarrow> (nat \<times> nat \<times> string) option" where
  "xtoi s = xtoi_loop 0 0 s"

text \<open>
  parseIPv6: groups of hexadecimal digits, at most one ellipsis, possibly a trailing IPv4
  address. \<open>acc\<close> holds the bytes read so far and \<open>ell\<close> the position of the ellipsis; a
  round of the loop reads two bytes, so eight rounds are enough.
\<close>

fun parse6_loop :: "nat \<Rightarrow> string \<Rightarrow> byte list \<Rightarrow> nat option \<Rightarrow> (byte list \<times> nat option \<times> string) option" where
  "parse6_loop 0 s acc ell = Some (acc, ell, s)"
| "parse6_loop (Suc k) s acc ell =
     (if length acc \<ge> 16 then Some (acc, ell, s)
      else case xtoi s of
        None \<Rightarrow> None
      | Some (n, _, r) \<Rightarrow>
          if n > 65535 then None
          else if r \<noteq> [] \<and> hd r = CHR ''.'' then
            (if (ell = None \<and> length acc \<noteq> 12) \<or> length acc + 4 > 16 then None
             else (let ip4 = parseIPv4 s
                   in if ip4 = nil_IP then None else Some (acc @ drop 12 ip4, ell, [])))
          else
            (let acc' = acc @ [of_nat (n div 256), of_nat (n mod 256)]
             in case r of
                  [] \<Rightarrow> Some (acc', ell, [])
                | c # r1 \<Rightarrow>
                    if c \<noteq> CHR '':'' \<or> r1 = [] then None
                    else if hd r1 = CHR '':'' then
                      (if ell \<noteq> None then None
                       else if tl r1 = [] then Some (acc', Some (length acc'), [])
                       else parse6_loop k (tl r1) acc' (Some (length acc')))
                    else parse6_loop k r1 acc' ell))"

definition parseIPv6 :: "string \<Rightarrow> IP" where
  "parseIPv6 s =
     (let lead = (HasPrefix s ''::'');
          s1 = (if lead then drop 2 s else s)
      in if lead \<and> s1 = [] then replicate 16 0
         else case parse6_loop 8 s1 [] (if lead then Some 0 else None) of
           None \<Rightarrow> nil_IP
         | Some (acc, ell, rest) \<Rightarrow>
             if rest \<noteq> [] then nil_IP
             else if length acc < 16 then
               (case ell of
                  None \<Rightarrow> nil_IP
                | Some e \<Rightarrow> take e acc @ replicate (16 - length acc) 0 @ drop e acc)
             else if ell \<noteq> None then nil_IP else acc)"

text \<open>ParseIP decides on the first dot or colon of the text.\<close>

definition ParseIP :: "string \<Rightarrow> IP" where
  "ParseIP s =
     (case filter (\<lambda>c. c = CHR ''.'' \<or> c = CHR '':'') s of
        [] \<Rightarrow> nil_IP
      | c # _ \<Rightarrow> if c = CHR ''.'' then parseIPv4 s else parseIPv6 s)"

section \<open>Printing\<close>

definition dotted :: "byte \<Rightarrow> byte \<Rightarrow> byte \<Rightarrow> byte \<Rightarrow> string" where
  "dotted a b c d =
     nat_dec (unat a) @ ''.'' @ nat_dec (unat b) @ ''.'' @ nat_dec (unat c) @ ''.'' @ nat_dec (unat d)"

definition hex_digit :: "nat \<Rightarrow> char" where
  "hex_digit n = (if n < 10 then char_of (48 + n) else char_of (87 + n))"

fun nat_hex :: "nat \<Rightarrow> string" where
  "nat_hex n = (if n < 16 then [hex_digit n] else nat_hex (n div 16) @ [hex_digit (n mod 16)])"

declare nat_hex.simps [simp del]

text \<open>The eight 16-bit groups of a 16-byte address.\<close>

fun ip_groups :: "byte list \<Rightarrow> nat list" where
  "ip_groups (a # b # r) = (256 * unat a + unat b) # ip_groups r"
| "ip_groups _ = []"

text \<open>The first longest run of two or more zero groups: its start and its length.\<close>

fun longest_zeros :: "nat \<Rightarrow> nat list \<Rightarrow> nat \<times> nat \<Rightarrow> nat \<times> nat" where
  "longest_zeros i [] best = best"
| "longest_zeros i (g # gs) best =
     (let z = length (takeWhile (\<lambda>x. x = 0) (g # gs))
      in longest_zeros (i + 1) gs (if z > snd best then (i, z) else best))"

definition join_hex :: "nat list \<Rightarrow> string" where
  "join_hex gs = Join (map nat_hex gs) '':''"

definition ipv6_text :: "IP \<Rightarrow> string" where
  "ipv6_text ip =
     (let gs = ip_groups ip; (e, z) = longest_zeros 0 gs (0, 0)
      in if z \<ge> 2 then join_hex (take e gs) @ ''::'' @ join_hex (drop (e + z) gs)
         else join_hex gs)"

definition hexString :: "IP \<Rightarrow> string" where
  "hexString ip = concat (map (\<lambda>b. [hex_digit (unat b div 16), hex_digit (unat b mod 16)]) ip)"

definition IP_String :: "IP \<Rightarrow> string" where
  "IP_String ip =
     (if ip = [] then ''<nil>''
      else case To4 ip of
             [a, b, c, d] \<Rightarrow> dotted a b c d
           | _ \<Rightarrow> if length ip = 16 then ipv6_text ip else CHR ''?'' # hexString ip)"

section \<open>Networks\<close>

record IPNet =
  net_ip :: IP
  net_mask :: "byte list"

definition CIDRMask :: "nat \<Rightarrow> nat \<Rightarrow> byte list" where
  "CIDRMask ones bits =
     map (\<lambda>i. if 8 * (i + 1) \<le> ones then 255
              else if ones \<le> 8 * i then 0
              else of_nat (256 - 2 ^ (8 - (ones - 8 * i)))) [0..<bits div 8]"

definition and_bytes :: "byte list \<Rightarrow> byte list \<Rightarrow> byte list" where
  "and_bytes xs ys = map (\<lambda>(x, y). x AND y) (zip xs ys)"

definition IP_Mask :: "IP \<Rightarrow> byte list \<Rightarrow> IP" where
  "IP_Mask ip0 mask0 =
     (let mask = (if length mask0 = 16 \<and> length ip0 = 4 \<and> list_all (\<lambda>b. b = 255) (take 12 mask0)
                  then drop 12 mask0 else mask0);
          ip = (if length mask = 4 \<and> length ip0 = 16 \<and> take 12 ip0 = v4InV6Prefix
                then drop 12 ip0 else ip0)
      in if length ip = length mask then and_bytes ip mask else nil_IP)"

text \<open>ParseCIDR: the network, or None for the error (the address part is not used here).\<close>

definition ParseCIDR :: "string \<Rightarrow> IPNet option" where
  "ParseCIDR s =
     (if CHR ''/'' \<notin> set s then None
      else (let addr = takeWhile (\<lambda>c. c \<noteq> CHR ''/'') s;
                mask = tl (dropWhile (\<lambda>c. c \<noteq> CHR ''/'') s);
                ip4 = parseIPv4 addr;
                (iplen, ip) = (if ip4 = nil_IP then (16, parseIPv6 addr) else (4, ip4))
            in case dtoi mask of
                 None \<Rightarrow> None
               | Some (n, _, rest) \<Rightarrow>
                   if ip = nil_IP \<or> rest \<noteq> [] \<or> n > 8 * iplen then None
                   else (let m = CIDRMask n (8 * iplen)
                         in Some \<lparr>net_ip = IP_Mask ip m, net_mask = m\<rparr>)))"

definition networkNumberAndMask :: "IPNet \<Rightarrow> IP \<times> byte list" where
  "networkNumberAndMask n =
     (let ip = (if To4 (net_ip n) = nil_IP then net_ip n else To4 (net_ip n));
          m = net_mask n
      in if To4 (net_ip n) = nil_IP \<and> length (net_ip n) \<noteq> 16 then (nil_IP, [])
         else if length m = 4 then (if length ip \<noteq> 4 then (nil_IP, []) else (ip, m))
         else if length m = 16 then (ip, if length ip = 4 then drop 12 m else m)
         else (nil_IP, []))"

definition IPNet_Contains :: "IPNet \<Rightarrow> IP \<Rightarrow> bool" where
  "IPNet_Contains n ip0 =
     (let (nn, m) = networkNumberAndMask n;
          ip = (if To4 ip0 = nil_IP then ip0 else To4 ip0)
      in length ip = length nn \<and> and_bytes nn m = and_bytes ip m)"

text \<open>The prefix length of a mask made by CIDRMask, or None for a mask of another shape.\<close>

definition simpleMaskLength :: "byte list \<Rightarrow> nat option" where
  "simpleMaskLength m = List.find (\<lambda>n. CIDRMask n (8 * length m) = m) [0..<8 * length m + 1]"

definition IPNet_String :: "IPNet \<Rightarrow> string" where
  "IPNet_String n =
     (let (nn, m) = networkNumberAndMask n
      in if nn = [] \<or> m = [] then ''<nil>''
         else case simpleMaskLength m of
                Some l \<Rightarrow> IP_String nn @ ''/'' @ nat_dec l
              | None \<Rightarrow> IP_String nn @ ''/'' @ hexString m)"

section \<open>Lemmas: the round trip of an IPv4 address\<close>

lemma IPv4_shape [simp]:
  "length (IPv4 a b c d) = 16" "IPv4 a b c d \<noteq> []" "IPv4 a b c d \<noteq> nil_IP"
  "take 12 (IPv4 a b c d) = v4InV6Prefix" "drop 12 (IPv4 a b c d) = [a, b, c, d]"
  "To4 (IPv4 a b c d) = [a, b, c, d]"
  by (simp_all add: IPv4_def v4InV6Prefix_def nil_IP_def To4_def)

lemma IPv4_inj [simp]: "IPv4 a b c d = IPv4 a' b' c' d' \<longleftrightarrow> a = a' \<and> b = b' \<and> c = c' \<and> d = d'"
  by (simp add: IPv4_def)

lemma IP_String_IPv4 [simp]: "IP_String (IPv4 a b c d) = dotted a b c d"
  by (simp add: IP_String_def)

lemma IP_Equal_refl [simp]: "IP_Equal ip ip"
  by (simp add: IP_Equal_def)

lemma IP_Equal_IPv4 [simp]: "IP_Equal (IPv4 a b c d) (IPv4 a' b' c' d') \<longleftrightarrow> IPv4 a b c d = IPv4 a' b' c' d'"
  by (simp add: IP_Equal_def)

lemma dec_acc_mono: "n \<le> foldl (\<lambda>n c. 10 * n + digit_val c) n ds"
proof (induction ds arbitrary: n)
  case (Cons d ds)
  have "n \<le> 10 * n + digit_val d" by simp
  also have "\<dots> \<le> foldl (\<lambda>n c. 10 * n + digit_val c) (10 * n + digit_val d) ds" by (rule Cons)
  finally show ?case by simp
qed simp

lemma dtoi_loop_digits:
  assumes "list_all is_digit ds" "case r of [] \<Rightarrow> True | c # _ \<Rightarrow> \<not> is_digit c"
    and "foldl (\<lambda>n c. 10 * n + digit_val c) n ds < 16777215" and "0 < i + length ds"
  shows "dtoi_loop n i (ds @ r) =
         Some (foldl (\<lambda>n c. 10 * n + digit_val c) n ds, i + length ds, r)"
  using assms
proof (induction ds arbitrary: n i)
  case Nil
  then show ?case by (cases r) auto
next
  case (Cons d ds)
  have "10 * n + digit_val d < 16777215"
    using Cons.prems(3) dec_acc_mono [of "10 * n + digit_val d" ds] by simp
  with Cons show ?case by (simp add: Let_def mult.commute)
qed

lemma dtoi_nat_dec:
  assumes "case r of [] \<Rightarrow> True | c # _ \<Rightarrow> \<not> is_digit c" "n < 16777215"
  shows "dtoi (nat_dec n @ r) = Some (n, length (nat_dec n), r)"
proof -
  have "foldl (\<lambda>n c. 10 * n + digit_val c) 0 (nat_dec n) = n"
    using dec_val_nat_dec [of n] by (simp add: dec_val_def)
  then show ?thesis
    using dtoi_loop_digits [OF nat_dec_digits assms(1), of 0 n 0] assms(2)
    by (simp add: dtoi_def)
qed

lemma parse_octet_nat_dec:
  assumes "case r of [] \<Rightarrow> True | c # _ \<Rightarrow> \<not> is_digit c"
  shows "parse_octet (nat_dec (unat (b :: byte)) @ r) = Some (b, r)"
proof -
  have b: "unat b < 256" using unsigned_less [of b, where ?'a = nat] by simp
  then have "dtoi (nat_dec (unat b) @ r) = Some (unat b, length (nat_dec (unat b)), r)"
    by (intro dtoi_nat_dec assms) simp
  with b show ?thesis by (simp add: parse_octet_def)
qed

lemma parseIPv4_dotted [simp]: "parseIPv4 (dotted a b c d) = IPv4 a b c d"
proof -
  have o: "parse_octet (nat_dec (unat x) @ CHR ''.'' # r) = Some (x, CHR ''.'' # r)" for x :: byte and r
    by (rule parse_octet_nat_dec) simp
  have e: "parse_octet (nat_dec (unat d)) = Some (d, [])"
    using parse_octet_nat_dec [of "[]" d] by simp
  show ?thesis by (simp add: parseIPv4_def dotted_def parse_dot_octet_def o e)
qed

lemma filter_nat_dec:
  "filter (\<lambda>c. c = CHR ''.'' \<or> c = CHR '':'') (nat_dec n) = []"
  by (auto simp: filter_empty_conv dest: set_nat_dec)

lemma ParseIP_dotted [simp]: "ParseIP (dotted a b c d) = IPv4 a b c d"
proof -
  have "filter (\<lambda>c. c = CHR ''.'' \<or> c = CHR '':'') (dotted a b c d) = ''...''"
    by (simp add: dotted_def filter_nat_dec)
  then show ?thesis by (simp add: ParseIP_def)
qed

lemma ParseIP_String_IPv4: "ParseIP (IP_String (IPv4 a b c d)) = IPv4 a b c d"
  by simp

lemma dotted_inj: "dotted a b c d = dotted a' b' c' d' \<longleftrightarrow> IPv4 a b c d = IPv4 a' b' c' d'"
proof
  assume "dotted a b c d = dotted a' b' c' d'"
  then have "parseIPv4 (dotted a b c d) = parseIPv4 (dotted a' b' c' d')" by simp
  then show "IPv4 a b c d = IPv4 a' b' c' d'" by simp
qed simp

end
