(* ===== verification/Types.thy ===== *)
theory Types
  imports GoNet
begin

text \<open>
  The data of the proxy (\<open>proxy/types.go\<close>, \<open>proxy/constants.go\<close>): instance credentials,
  cached instances and metadata requests. Go ints have 64 bits; they are \<open>int\<close> here, and
  \<open>goint\<close> wraps the few sums the code computes. A nil slice of strings is \<open>None\<close>, since it
  is encoded differently from an empty one; a nil \<open>*net.IPNet\<close> is \<open>None\<close>.
\<close>

section \<open>Constants (constants.go)\<close>

definition RIAK_BUCKET_TYPE :: string where "RIAK_BUCKET_TYPE = ''trustnet''"
definition RIAK_INDEX_NAME :: string where "RIAK_INDEX_NAME = ''netmap''"
definition CIDR_BUCKET :: string where "CIDR_BUCKET = ''cidr''"
definition QUERY_BUCKET :: string where "QUERY_BUCKET = ''_yz_rb''"
definition QUERY_KEY :: string where "QUERY_KEY = ''_yz_rk''"
definition QUERY_BUCKET_TYPE :: string where "QUERY_BUCKET_TYPE = ''_yz_rt''"
definition DEFAULT_VM_TRUST_HUB :: string where "DEFAULT_VM_TRUST_HUB = ''noauth_vm''"
definition DEFAULT_CTN_TRUST_HUB :: string where "DEFAULT_CTN_TRUST_HUB = ''noauth_ctn''"
definition VM_INSTANCE_TYPE :: string where "VM_INSTANCE_TYPE = ''vm''"
definition NORMAL_INSTANCE_TYPE :: string where "NORMAL_INSTANCE_TYPE = ''normal''"
definition NOAUTH_PREFIX :: string where "NOAUTH_PREFIX = ''noauth_''"

section \<open>Machine ints\<close>

definition goint :: "int \<Rightarrow> int" where
  "goint i = signed_take_bit 63 i"

definition is_goint :: "int \<Rightarrow> bool" where
  "is_goint i \<longleftrightarrow> - (2 ^ 63) \<le> i \<and> i < 2 ^ 63"

lemma goint_id [simp]: "is_goint i \<Longrightarrow> goint i = i"
  by (simp add: goint_def is_goint_def signed_take_bit_int_eq_self)

lemma is_goint_goint [simp]: "is_goint (goint i)"
  using signed_take_bit_int_less_exp [of 63 i] signed_take_bit_int_greater_eq_minus_exp [of 63 i]
  by (simp add: is_goint_def goint_def)

text \<open>A port number as the address parsers produce it: 31 bits, or -1 for a missing one.\<close>

definition is_port :: "int \<Rightarrow> bool" where
  "is_port p \<longleftrightarrow> - 1 \<le> p \<and> p < 2 ^ 31"

lemma is_port_goint [simp]: "is_port p \<Longrightarrow> is_goint p" "is_port p \<Longrightarrow> is_goint (p + 1)"
  by (simp_all add: is_port_def is_goint_def)

section \<open>Records (types.go)\<close>

record InstanceCred =
  ic_Pid :: string
  ic_PPid :: string
  ic_Cidr :: "IPNet option"
  ic_Type :: string

record CachedInstance =
  ci_Ip :: IP
  ci_Lport :: int
  ci_Rport :: int
  ci_ID :: InstanceCred

text \<open>The parsed and derived fields of a request; \<open>mr_cache\<close> is the number of the cache.\<close>

record MetadataRequest =
  mr_Principal :: string
  mr_ParentBear :: string
  mr_OtherValues :: "string list option"
  mr_Auth :: string
  mr_ip :: IP
  mr_lport :: int
  mr_rport :: int
  mr_targetCidr :: "IPNet option"
  mr_targetIp :: IP
  mr_targetLport :: int
  mr_targetRport :: int
  mr_targetType :: string
  mr_targetAddrIndex :: int
  mr_url :: string
  mr_method :: string
  mr_instance :: "CachedInstance option"
  mr_cache :: "nat option"

text \<open>Two types of earlier versions of the proxy, which no operation uses any more.\<close>

record Principal =
  prn_Name :: string
  prn_ImageID :: string
  prn_IP :: string
  prn_Config :: string
  prn_PortMin :: int
  prn_PortMax :: int

record BearerMetadataRequest =
  bm_Principal :: string
  bm_BearerRef :: string
  bm_OtherValues :: "string list option"

text \<open>The zero value of the struct.\<close>

definition zero_MetadataRequest :: MetadataRequest where
  "zero_MetadataRequest =
     \<lparr>mr_Principal = [], mr_ParentBear = [], mr_OtherValues = None, mr_Auth = [],
      mr_ip = nil_IP, mr_lport = 0, mr_rport = 0, mr_targetCidr = None, mr_targetIp = nil_IP,
      mr_targetLport = 0, mr_targetRport = 0, mr_targetType = [], mr_targetAddrIndex = 0,
      mr_url = [], mr_method = [], mr_instance = None, mr_cache = None\<rparr>"

text \<open>The elements of the slice OtherValues, nil or not.\<close>

definition mr_vals :: "MetadataRequest \<Rightarrow> string list" where
  "mr_vals mr = (case mr_OtherValues mr of None \<Rightarrow> [] | Some vs \<Rightarrow> vs)"

lemma mr_vals_Some [simp]: "mr_OtherValues mr = Some vs \<Longrightarrow> mr_vals mr = vs"
  by (simp add: mr_vals_def)

end
