(* ===== verification/Address.thy ===== *)
theory Address
  imports Types
begin

text \<open>
  The address parsers and the URL builder of \<open>proxy/server.go\<close>: ParseIP2 (ip:port), ParseIP3
  (ip:port-port), ParseIPNew and getUrl. The regular expressions are searched from the left;
  each run of digits is followed by a character that is no digit, so a match takes maximal
  runs.
\<close>

section \<open>The regular expressions\<close>

text \<open>A non-empty run of digits.\<close>

definition match_digits :: "string \<Rightarrow> (string \<times> string) option" where
  "match_digits s = (let (ds, r) = span_digits s in if ds = [] then None else Some (ds, r))"

definition match_char :: "char \<Rightarrow> string \<Rightarrow> string option" where
  "match_char c s = (case s of [] \<Rightarrow> None | x # xs \<Rightarrow> if x = c then Some xs else None)"

text \<open>The text of four runs of digits with dots in between, at the front of the input.\<close>

definition match_quad :: "string \<Rightarrow> (string \<times> string) option" where
  "match_quad s =
     Option.bind (match_digits s) (\<lambda>(a, s1).
     Option.bind (match_char (CHR ''.'') s1) (\<lambda>s2.
     Option.bind (match_digits s2) (\<lambda>(b, s3).
     Option.bind (match_char (CHR ''.'') s3) (\<lambda>s4.
     Option.bind (match_digits s4) (\<lambda>(c, s5).
     Option.bind (match_char (CHR ''.'') s5) (\<lambda>s6.
     Option.bind (match_digits s6) (\<lambda>(d, s7).
       Some (a @ ''.'' @ b @ ''.'' @ c @ ''.'' @ d, s7))))))))"

definition match_ip_port :: "string \<Rightarrow> (string \<times> string \<times> string) option" where
  "match_ip_port s =
     Option.bind (match_quad s) (\<lambda>(q, s1).
     Option.bind (match_char (CHR '':'') s1) (\<lambda>s2.
     Option.bind (match_digits s2) (\<lambda>(p, s3). Some (q, p, s3))))"

definition match_ip_range :: "string \<Rightarrow> (string \<times> string \<times> string) option" where
  "match_ip_range s =
     Option.bind (match_ip_port s) (\<lambda>(q, p1, s3).
     Option.bind (match_char (CHR ''-'') s3) (\<lambda>s4.
     Option.bind (match_digits s4) (\<lambda>(p2, _). Some (q, p1, p2))))"

text \<open>FindStringSubmatch: the leftmost position where the pattern matches.\<close>

fun find_match :: "(string \<Rightarrow> 'a option) \<Rightarrow> string \<Rightarrow> 'a option" where
  "find_match f [] = f []"
| "find_match f (c # cs) = (case f (c # cs) of Some x \<Rightarrow> Some x | None \<Rightarrow> find_match f cs)"

section \<open>The parsers\<close>

definition ParseIP2 :: "string \<Rightarrow> string \<times> int \<times> int \<times> int" where
  "ParseIP2 msg =
     (case find_match match_ip_port msg of
        None \<Rightarrow> ([], -1, -1, StatusBadRequest)
      | Some (m1, m2, _) \<Rightarrow>
          (case ParseInt m2 32 of
             None \<Rightarrow> ([], 0, 0, StatusBadRequest)
           | Some p1 \<Rightarrow> (m1, p1, -1, StatusOK)))"

definition ParseIP3 :: "string \<Rightarrow> string \<times> int \<times> int \<times> int" where
  "ParseIP3 msg =
     (case find_match match_ip_range msg of
        None \<Rightarrow> ParseIP2 msg
      | Some (m1, m2, m3) \<Rightarrow>
          (case ParseInt m2 32 of
             None \<Rightarrow> ([], 0, 0, StatusBadRequest)
           | Some p1 \<Rightarrow>
               (case ParseInt m3 32 of
                  None \<Rightarrow> ([], 0, 0, StatusBadRequest)
                | Some p2 \<Rightarrow> (m1, p1, p2, StatusOK))))"

definition ParseIPNew :: "string \<Rightarrow> IP \<times> int \<times> int \<times> int" where
  "ParseIPNew msg =
     (let (ipstr, p1, p2, status) = ParseIP3 msg;
          ip = ParseIP ipstr
      in if ip = nil_IP then (nil_IP, -1, -1, StatusBadRequest) else (ip, p1, p2, status))"

text \<open>getUrl: \<open>addr0\<close> is the address of SAFE in the configuration.\<close>

definition getUrl :: "string \<Rightarrow> string \<Rightarrow> string" where
  "getUrl c_addr api0 =
     (let addr0 = (if \<not> HasSuffix c_addr ''/'' then [] @ c_addr @ ''/'' else []);
          addr = (if \<not> HasPrefix c_addr ''http://'' then ''http://'' @ addr0 else addr0);
          api = (if HasPrefix api0 ''/'' then drop 1 api0 else api0)
      in addr @ api)"

section \<open>Lemmas\<close>

definition stops :: "string \<Rightarrow> bool" where
  "stops r \<longleftrightarrow> (case r of [] \<Rightarrow> True | c # _ \<Rightarrow> \<not> is_digit c)"

lemma stops_simps [simp]: "stops []" "stops (c # r) \<longleftrightarrow> \<not> is_digit c"
  by (simp_all add: stops_def)

lemma match_digits_nat_dec [simp]: "stops r \<Longrightarrow> match_digits (nat_dec n @ r) = Some (nat_dec n, r)"
  by (simp add: match_digits_def span_digits_append [OF nat_dec_digits] stops_def)

lemma match_digits_nat_dec_end [simp]: "match_digits (nat_dec n) = Some (nat_dec n, [])"
  using match_digits_nat_dec [of "[]" n] by simp

lemma match_char_Cons [simp]: "match_char c (x # xs) = (if x = c then Some xs else None)"
  by (simp add: match_char_def)

lemma match_quad_dotted [simp]: "stops r \<Longrightarrow> match_quad (dotted a b c d @ r) = Some (dotted a b c d, r)"
  by (simp add: match_quad_def dotted_def)

lemma match_ip_port_text [simp]:
  "stops r \<Longrightarrow> match_ip_port (dotted a b c d @ CHR '':'' # nat_dec p @ r) = Some (dotted a b c d, nat_dec p, r)"
  by (simp add: match_ip_port_def)

lemma match_ip_range_text [simp]:
  "match_ip_range (dotted a b c d @ CHR '':'' # nat_dec l @ CHR ''-'' # nat_dec r) =
   Some (dotted a b c d, nat_dec l, nat_dec r)"
  by (simp add: match_ip_range_def)

lemma find_match_front: "f s = Some x \<Longrightarrow> find_match f s = Some x"
  by (cases s) auto

lemma find_match_SomeE:
  assumes "find_match f s = Some x"
  obtains s' where "f s' = Some x"
  using assms by (induction f s rule: find_match.induct) (auto split: option.splits)

lemma find_match_None: "(\<And>u v. s = u @ v \<Longrightarrow> f v = None) \<Longrightarrow> find_match f s = None"
proof (induction s)
  case Nil
  then show ?case by simp
next
  case (Cons c s)
  have "f (c # s) = None" using Cons.prems [of "[]"] by simp
  moreover have "find_match f s = None" using Cons.prems [of "c # _"] by (intro Cons.IH) simp
  ultimately show ?case by simp
qed

lemma match_digits_Some: "match_digits s = Some (ds, r) \<Longrightarrow> list_all is_digit ds \<and> ds \<noteq> [] \<and> s = ds @ r"
  by (auto simp: match_digits_def span_digits_def Let_def list_all_iff dest: set_takeWhileD split: if_splits)

lemma match_char_Some: "match_char c s = Some r \<longleftrightarrow> s = c # r"
  by (auto simp: match_char_def split: list.splits)

text \<open>What a match of the dotted part holds: digits and dots, a dot among them.\<close>

definition quad_chars :: "string \<Rightarrow> bool" where
  "quad_chars q \<longleftrightarrow> (\<forall>c \<in> set q. is_digit c \<or> c = CHR ''.'') \<and> CHR ''.'' \<in> set q"

lemma match_quad_Some:
  assumes "match_quad s = Some (q, r)"
  shows "quad_chars q"
proof -
  from assms obtain a b c d where "q = a @ ''.'' @ b @ ''.'' @ c @ ''.'' @ d"
    and "list_all is_digit a" "list_all is_digit b" "list_all is_digit c" "list_all is_digit d"
    by (auto simp: match_quad_def bind_eq_Some_conv dest!: match_digits_Some)
  then show ?thesis by (auto simp: quad_chars_def list_all_iff)
qed

lemma match_ip_port_Some:
  assumes "match_ip_port s = Some (q, p, r)"
  shows "quad_chars q \<and> list_all is_digit p"
  using assms by (auto simp: match_ip_port_def bind_eq_Some_conv dest: match_quad_Some match_digits_Some)

lemma match_ip_range_Some:
  assumes "match_ip_range s = Some (q, p, p')"
  shows "quad_chars q \<and> list_all is_digit p \<and> list_all is_digit p' \<and> CHR ''-'' \<in> set s"
proof -
  from assms obtain s3 s4 where m: "match_ip_port s = Some (q, p, s3)" "s3 = CHR ''-'' # s4"
    and p': "list_all is_digit p'"
    by (auto simp: match_ip_range_def bind_eq_Some_conv match_char_Some dest: match_digits_Some)
  from m(1) obtain s1 s2 where q: "match_quad s = Some (q, s1)" "s1 = CHR '':'' # s2"
    and d: "match_digits s2 = Some (p, s3)"
    by (auto simp: match_ip_port_def bind_eq_Some_conv match_char_Some)
  from d m(2) have "CHR ''-'' \<in> set s2" by (auto dest: match_digits_Some)
  moreover from q(1) have "set s1 \<subseteq> set s"
    by (auto simp: match_quad_def bind_eq_Some_conv match_char_Some dest!: match_digits_Some)
  ultimately show ?thesis using match_ip_port_Some [OF m(1)] p' q(2) by auto
qed

lemma parseIPv4_cases: "parseIPv4 s = nil_IP \<or> (\<exists>a b c d. parseIPv4 s = IPv4 a b c d)"
  by (auto simp: parseIPv4_def split: option.splits prod.splits)

lemma ParseIP_quad:
  assumes "quad_chars q"
  shows "ParseIP q = nil_IP \<or> (\<exists>a b c d. ParseIP q = IPv4 a b c d)"
proof -
  let ?f = "filter (\<lambda>c. c = CHR ''.'' \<or> c = CHR '':'') q"
  from assms have "set ?f \<subseteq> {CHR ''.''}" "?f \<noteq> []"
    by (auto simp: quad_chars_def filter_empty_conv)
  then obtain r where "?f = CHR ''.'' # r" by (cases ?f) auto
  then have "ParseIP q = parseIPv4 q" by (simp add: ParseIP_def)
  then show ?thesis using parseIPv4_cases by simp
qed

lemma ParseIP_Nil [simp]: "ParseIP [] = nil_IP"
  by (simp add: ParseIP_def)

section \<open>What the parsers accept\<close>

definition is_v4 :: "IP \<Rightarrow> bool" where
  "is_v4 ip \<longleftrightarrow> (\<exists>a b c d. ip = IPv4 a b c d)"

lemma is_v4_IPv4 [simp]: "is_v4 (IPv4 a b c d)"
  by (auto simp: is_v4_def)

lemma is_v4_not_nil [simp]: "is_v4 ip \<Longrightarrow> ip \<noteq> nil_IP" "\<not> is_v4 nil_IP"
  by (auto simp: is_v4_def eq_commute [of nil_IP])

lemma ParseInt32_port: "ParseInt s 32 = Some v \<Longrightarrow> list_all is_digit s \<Longrightarrow> 0 \<le> v \<and> v < 2 ^ 31"
  using ParseInt_range [of s 32 v] ParseInt_digits_nonneg [of s 32 v] by simp

lemma ParseIP2_OK:
  assumes "ParseIP2 msg = (s, p1, p2, StatusOK)"
  shows "quad_chars s \<and> 0 \<le> p1 \<and> p1 < 2 ^ 31 \<and> p2 = -1"
  using assms
  by (auto simp: ParseIP2_def split: option.splits prod.splits
        elim!: find_match_SomeE dest!: match_ip_port_Some dest: ParseInt32_port)

lemma ParseIP3_OK:
  assumes "ParseIP3 msg = (s, p1, p2, StatusOK)"
  shows "quad_chars s \<and> 0 \<le> p1 \<and> p1 < 2 ^ 31 \<and> is_port p2"
proof (cases "find_match match_ip_range msg")
  case None
  with assms have "ParseIP2 msg = (s, p1, p2, StatusOK)" by (simp add: ParseIP3_def)
  from ParseIP2_OK [OF this] show ?thesis by (simp add: is_port_def)
next
  case (Some m)
  obtain m1 m2 m3 where m: "m = (m1, m2, m3)" by (cases m)
  with Some obtain s' where "match_ip_range s' = Some (m1, m2, m3)" by (auto elim: find_match_SomeE)
  note q = match_ip_range_Some [OF this]
  from assms Some m have "s = m1" "ParseInt m2 32 = Some p1" "ParseInt m3 32 = Some p2"
    by (auto simp: ParseIP3_def split: option.splits)
  with q ParseInt32_port [of m2 p1] ParseInt32_port [of m3 p2] show ?thesis by (simp add: is_port_def)
qed

lemma ParseIPNew_OK:
  assumes "ParseIPNew msg = (ip, p1, p2, StatusOK)"
  shows "is_v4 ip \<and> 0 \<le> p1 \<and> p1 < 2 ^ 31 \<and> is_port p2"
proof -
  obtain s a b st where p: "ParseIP3 msg = (s, a, b, st)" by (cases "ParseIP3 msg")
  with assms have ip: "ParseIP s \<noteq> nil_IP" "ip = ParseIP s" "a = p1" "b = p2" "st = StatusOK"
    by (auto simp: ParseIPNew_def Let_def split: if_splits)
  from ParseIP3_OK p ip have "quad_chars s \<and> 0 \<le> p1 \<and> p1 < 2 ^ 31 \<and> is_port p2" by simp
  with ip ParseIP_quad [of s] show ?thesis by (auto simp: is_v4_def)
qed

lemma ParseIPNew_error:
  assumes "ParseIPNew msg = (ip, p1, p2, st)" and "st \<noteq> StatusOK"
  shows "st = StatusBadRequest"
  using assms
  by (auto simp: ParseIPNew_def ParseIP3_def ParseIP2_def Let_def split: if_splits option.splits prod.splits)

section \<open>The text of an address\<close>

definition addr_range_text :: "IP \<Rightarrow> int \<Rightarrow> int \<Rightarrow> string" where
  "addr_range_text ip l r = IP_String ip @ '':'' @ int_dec l @ ''-'' @ int_dec r"

definition addr_port_text :: "IP \<Rightarrow> int \<Rightarrow> string" where
  "addr_port_text ip p = IP_String ip @ '':'' @ int_dec p"

lemma ParseIPNew_range_text:
  assumes "is_v4 ip" "0 \<le> l" "l < 2 ^ 31" "0 \<le> r" "r < 2 ^ 31"
  shows "ParseIPNew (addr_range_text ip l r) = (ip, l, r, StatusOK)"
proof -
  from assms obtain a b c d where ip: "ip = IPv4 a b c d" by (auto simp: is_v4_def)
  have "find_match match_ip_range (addr_range_text ip l r) =
        Some (dotted a b c d, nat_dec (nat l), nat_dec (nat r))"
    using assms ip by (intro find_match_front) (simp add: addr_range_text_def int_dec_def)
  with assms ip show ?thesis by (simp add: ParseIPNew_def ParseIP3_def)
qed

lemma no_minus_text: "CHR ''-'' \<notin> set (dotted a b c d @ CHR '':'' # nat_dec n)"
  by (auto simp: dotted_def dest: set_nat_dec)

lemma ParseIPNew_port_text:
  assumes "is_v4 ip" "0 \<le> p" "p < 2 ^ 31"
  shows "ParseIPNew (addr_port_text ip p) = (ip, p, -1, StatusOK)"
proof -
  from assms obtain a b c d where ip: "ip = IPv4 a b c d" by (auto simp: is_v4_def)
  let ?t = "dotted a b c d @ CHR '':'' # nat_dec (nat p)"
  have t: "addr_port_text ip p = ?t" using assms ip by (simp add: addr_port_text_def int_dec_def)
  have "match_ip_range v = None" if "?t = u @ v" for u v
  proof (rule ccontr)
    assume "match_ip_range v \<noteq> None"
    then obtain m where "match_ip_range v = Some m" by auto
    then have "CHR ''-'' \<in> set v" by (cases m) (auto dest: match_ip_range_Some)
    then have "CHR ''-'' \<in> set ?t" unfolding that by simp
    with no_minus_text show False by blast
  qed
  then have "find_match match_ip_range ?t = None" by (rule find_match_None)
  moreover have "find_match match_ip_port ?t = Some (dotted a b c d, nat_dec (nat p), [])"
    using match_ip_port_text [of "[]"] by (intro find_match_front) simp
  ultimately show ?thesis using assms ip t by (simp add: ParseIPNew_def ParseIP3_def ParseIP2_def)
qed

section \<open>Properties\<close>

text \<open>C25: parsing is the inverse of printing: for an IPv4 address and ports below 2^31, the text
  ip:l-r parses to the address and both ports, and the text ip:l to the address, the port and
  -1 for the missing end of the range.\<close>

theorem ParseIPNew_roundtrip:
  assumes "is_v4 ip" and "0 \<le> l" and "l < 2 ^ 31" and "0 \<le> r" and "r < 2 ^ 31"
  shows "ParseIPNew (addr_range_text ip l r) = (ip, l, r, StatusOK) \<and>
         ParseIPNew (addr_port_text ip l) = (ip, l, -1, StatusOK)"
  using assms by (simp add: ParseIPNew_range_text ParseIPNew_port_text)

theorem ParseIPNew_roundtrip_witness:
  "ParseIPNew (addr_range_text (IPv4 10 0 0 1) 100 200) = (IPv4 10 0 0 1, 100, 200, StatusOK) \<and>
   ParseIPNew (addr_port_text (IPv4 10 0 0 1) 100) = (IPv4 10 0 0 1, 100, -1, StatusOK)"
  using ParseIPNew_roundtrip [of "IPv4 10 0 0 1" 100 200] by simp

lemma ParseIP3_error:
  assumes "ParseIP3 msg = (s, p1, p2, st)" and "st \<noteq> StatusOK"
  shows "s = []"
  using assms by (auto simp: ParseIP3_def ParseIP2_def split: option.splits prod.splits)

text \<open>C39: on any text the parser either succeeds, with an IPv4 address, a first port in 0..2^31-1
  and a second port that is -1 or in the same range, or it answers 400 with the nil address and
  both ports -1; there is no other outcome.\<close>

theorem ParseIPNew_outcomes:
  "case ParseIPNew msg of (ip, p1, p2, st) \<Rightarrow>
     if st = StatusOK then is_v4 ip \<and> 0 \<le> p1 \<and> p1 < 2 ^ 31 \<and> - 1 \<le> p2 \<and> p2 < 2 ^ 31
     else st = StatusBadRequest \<and> ip = nil_IP \<and> p1 = - 1 \<and> p2 = - 1"
proof -
  obtain ip p1 p2 st where p: "ParseIPNew msg = (ip, p1, p2, st)" by (cases "ParseIPNew msg")
  show ?thesis
  proof (cases "st = StatusOK")
    case True
    with p ParseIPNew_OK show ?thesis by (force simp: is_port_def)
  next
    case False
    obtain s a b st' where p3: "ParseIP3 msg = (s, a, b, st')" by (cases "ParseIP3 msg")
    have "s = [] \<or> ParseIP s = nil_IP"
      using False p p3 ParseIP3_error [OF p3] by (auto simp: ParseIPNew_def split: if_splits)
    then show ?thesis using p p3 False by (auto simp: ParseIPNew_def)
  qed
qed

text \<open>The URL of a call is the configured address, http:// put in front if it is missing, a
  slash and the path without its leading slash, provided the configured address does not end
  with a slash; when it does end with one, the address is dropped and the URL has no host.\<close>

theorem getUrl_spec:
  "getUrl addr api =
     (if HasSuffix addr ''/'' then (if HasPrefix addr ''http://'' then [] else ''http://'')
      else (if HasPrefix addr ''http://'' then [] else ''http://'') @ addr @ ''/'') @
     (if HasPrefix api ''/'' then tl api else api)"
  by (auto simp: getUrl_def Let_def drop_Suc)

end
