(* ===== verification/Pmap.thy ===== *)
theory Pmap
  imports Address
begin

unbundle bit_operations_syntax

text \<open>
  The principal map of \<open>proxy/pmap.go\<close>: per IP address an interval tree of port ranges, and a
  map from instance ids to instances.

  The interval tree is \<open>github.com/biogo/store/interval\<close>, code the repository only calls: its
  operations are an argument \<open>T\<close> of the definitions, and \<open>itree_ok T\<close> states what its
  documentation promises (Insert replaces the interval with the same start and id and
  rejects an inverted range; Delete removes it; Get returns the stored intervals for which
  the query's Overlap holds). The tree holds \<open>*PrincipalIndex\<close> values: an element is the
  part the tree reads (range and id) with a reference to a cell of the map's heap
  \<open>pm_cells\<close>, which SetPrincipalGroupPort updates in place.
\<close>

section \<open>Index (pmap.go)\<close>

type_synonym IntRange = "int \<times> int"
type_synonym uintptr = "64 word"

record Index =
  ix_Pmin :: int
  ix_Pmax :: int
  ix_Id :: uintptr

record PrincipalIndex =
  pi_Index :: Index
  pi_P :: string
  pi_PP :: string
  pi_GroupPort :: int
  pi_GroupP :: string

definition Overlap :: "Index \<Rightarrow> IntRange \<Rightarrow> bool" where
  "Overlap p b = (ix_Pmax p > fst b \<and> ix_Pmin p < snd b)"

definition ID :: "Index \<Rightarrow> uintptr" where
  "ID p = ix_Id p"

definition IndexRange :: "Index \<Rightarrow> IntRange" where
  "IndexRange p = (ix_Pmin p, ix_Pmax p)"

definition ForceLookup :: uintptr where
  "ForceLookup = 0"

section \<open>The interval tree: operations and contract\<close>

type_synonym elem = "Index \<times> nat"

record 't itree =
  it_empty :: 't
  it_insert :: "elem \<Rightarrow> 't \<Rightarrow> bool \<times> 't"      \<comment> \<open>True: no error\<close>
  it_delete :: "Index \<Rightarrow> 't \<Rightarrow> bool \<times> 't"
  it_get :: "(IntRange \<Rightarrow> bool) \<Rightarrow> 't \<Rightarrow> elem list"
  it_elems :: "'t \<Rightarrow> elem set"                  \<comment> \<open>what is stored\<close>

definition Index_String :: "Index \<Rightarrow> string" where
  "Index_String i =
     CHR ''['' # int_dec (ix_Pmin i) @ CHR '','' # int_dec (ix_Pmax i) @ '')#'' @ nat_dec (unat (ix_Id i))"

definition inverted :: "Index \<Rightarrow> bool" where
  "inverted i \<longleftrightarrow> fst (IndexRange i) > snd (IndexRange i)"

definition same_key :: "Index \<Rightarrow> Index \<Rightarrow> bool" where
  "same_key i j \<longleftrightarrow> fst (IndexRange i) = fst (IndexRange j) \<and> ID i = ID j"

definition itree_ok :: "('t, 'z) itree_scheme \<Rightarrow> bool" where
  "itree_ok T \<longleftrightarrow>
     it_elems T (it_empty T) = {} \<and>
     (\<forall>e t. inverted (fst e) \<longrightarrow> it_insert T e t = (False, t)) \<and>
     (\<forall>e t. \<not> inverted (fst e) \<longrightarrow> fst (it_insert T e t) \<and>
        it_elems T (snd (it_insert T e t)) =
          insert e {x \<in> it_elems T t. \<not> same_key (fst x) (fst e)}) \<and>
     (\<forall>i t. inverted i \<longrightarrow> it_delete T i t = (False, t)) \<and>
     (\<forall>i t. fst (IndexRange i) < snd (IndexRange i) \<longrightarrow> fst (it_delete T i t) \<and>
        it_elems T (snd (it_delete T i t)) = {x \<in> it_elems T t. \<not> same_key (fst x) i}) \<and>
     (\<forall>i t. it_elems T (snd (it_delete T i t)) \<subseteq> it_elems T t) \<and>
     (\<forall>f t. set (it_get T f t) = {x \<in> it_elems T t. f (IndexRange (fst x))})"

section \<open>The map\<close>

record 't Pmap =
  pm_Identities :: "string \<rightharpoonup> 't"
  pm_PidMap :: "string \<rightharpoonup> CachedInstance"
  pm_counter :: int
  pm_cells :: "PrincipalIndex list"   \<comment> \<open>the PrincipalIndex values the trees point to\<close>

definition NewPmap :: "'t Pmap" where
  "NewPmap = \<lparr>pm_Identities = Map.empty, pm_PidMap = Map.empty, pm_counter = 1, pm_cells = []\<rparr>"

text \<open>binary.BigEndian.Uint32; a slice of fewer than four bytes panics.\<close>

definition BigEndian_Uint32 :: "byte list \<Rightarrow> 32 word option" where
  "BigEndian_Uint32 b =
     (if length b < 4 then None
      else Some (ucast (b ! 3) OR push_bit 8 (ucast (b ! 2)) OR push_bit 16 (ucast (b ! 1))
                 OR push_bit 24 (ucast (b ! 0))))"

definition ComputeID :: "string \<Rightarrow> int \<Rightarrow> int \<Rightarrow> uintptr option" where
  "ComputeID ip p1 p2 =
     (case BigEndian_Uint32 (To4 (ParseIP ip)) of
        None \<Rightarrow> None
      | Some v0 \<Rightarrow>
          (let v1 = push_bit 32 (ucast v0 :: uintptr);
               v2 = push_bit 16 (word_of_int p1 :: uintptr);
               v3 = (word_of_int p2 :: uintptr)
           in Some (v1 + v2 + v3)))"

definition Loaded :: "'t Pmap \<Rightarrow> string \<Rightarrow> bool" where
  "Loaded m ip = (pm_Identities m ip \<noteq> None)"

definition Unload :: "'t Pmap \<Rightarrow> string \<Rightarrow> 't Pmap" where
  "Unload m ip = m\<lparr>pm_Identities := (pm_Identities m)(ip := None)\<rparr>"

text \<open>The error of tree.Insert is ignored.\<close>

definition CreatePrincipalPP :: "('t, 'z) itree_scheme \<Rightarrow> IP \<Rightarrow> int \<Rightarrow> int \<Rightarrow> string \<Rightarrow> string \<Rightarrow>
    IPNet option \<Rightarrow> string \<Rightarrow> ('t Pmap, unit) go" where
  "CreatePrincipalPP T ip pmin pmax p pp cidr t m0 =
     (let m1 = m0\<lparr>pm_counter := goint (pm_counter m0 + 1)\<rparr>;
          ipstr = IP_String ip
      in case ComputeID ipstr pmin (goint (pmax + 1)) of
           None \<Rightarrow> (Panic, m1)
         | Some cid \<Rightarrow>
             (let index = \<lparr>ix_Pmin = pmin, ix_Pmax = goint (pmax + 1), ix_Id = cid\<rparr>;
                  ref = length (pm_cells m1);
                  m2 = m1\<lparr>pm_cells := pm_cells m1 @
                            [\<lparr>pi_Index = index, pi_P = p, pi_PP = pp, pi_GroupPort = 0, pi_GroupP = []\<rparr>]\<rparr>;
                  tree = (case pm_Identities m2 ipstr of Some tree \<Rightarrow> tree | None \<Rightarrow> it_empty T);
                  m3 = m2\<lparr>pm_Identities := (pm_Identities m2)(ipstr \<mapsto> snd (it_insert T (index, ref) tree))\<rparr>;
                  m4 = m3\<lparr>pm_PidMap := (pm_PidMap m3)(p \<mapsto>
                            \<lparr>ci_Ip = ip, ci_Lport = pmin, ci_Rport = pmax,
                             ci_ID = \<lparr>ic_Pid = p, ic_PPid = pp, ic_Cidr = cidr, ic_Type = t\<rparr>\<rparr>)\<rparr>
              in (Ret (), m4)))"

definition CreatePrincipal :: "('t, 'z) itree_scheme \<Rightarrow> IP \<Rightarrow> int \<Rightarrow> int \<Rightarrow> string \<Rightarrow> ('t Pmap, unit) go" where
  "CreatePrincipal T ip pmin pmax p = CreatePrincipalPP T ip pmin pmax p [] None []"

text \<open>The result is whether tree.Delete returned no error.\<close>

definition DeletePrincipal :: "('t, 'z) itree_scheme \<Rightarrow> string \<Rightarrow> int \<Rightarrow> int \<Rightarrow> ('t Pmap, bool) go" where
  "DeletePrincipal T ip pmin pmax m =
     (case pm_Identities m ip of
        None \<Rightarrow> (Ret False, m)
      | Some tree \<Rightarrow>
          (case ComputeID ip pmin (goint (pmax + 1)) of
             None \<Rightarrow> (Panic, m)
           | Some cid \<Rightarrow>
               (let (ok, tree') = it_delete T \<lparr>ix_Pmin = pmin, ix_Pmax = goint (pmax + 1), ix_Id = cid\<rparr> tree
                in (Ret ok, m\<lparr>pm_Identities := (pm_Identities m)(ip \<mapsto> tree')\<rparr>))))"

text \<open>The loop of GetIndex that looks for the inner-most interval.\<close>

fun innermost :: "elem \<Rightarrow> elem list \<Rightarrow> elem" where
  "innermost found [] = found"
| "innermost found (x # xs) =
     (if fst (IndexRange (fst found)) \<le> fst (IndexRange (fst x)) \<and> snd (IndexRange (fst found)) \<ge> snd (IndexRange (fst x))
      then innermost x xs else innermost found xs)"

text \<open>
  The result is an error, nil or the reference of a cell; a reference that is no cell of the
  heap stands for a value of another type.
\<close>

definition GetIndex :: "('t, 'z) itree_scheme \<Rightarrow> 't Pmap \<Rightarrow> string \<Rightarrow> int \<Rightarrow> string + nat option" where
  "GetIndex T m ip port =
     (case pm_Identities m ip of
        None \<Rightarrow> Inr None
      | Some tree \<Rightarrow>
          (let q = \<lparr>ix_Pmin = port, ix_Pmax = goint (port + 1), ix_Id = ForceLookup\<rparr>;
               indexes = it_get T (Overlap q) tree
           in case indexes of
                [] \<Rightarrow> Inr None
              | x # xs \<Rightarrow>
                  (let found = innermost x xs
                   in case slice_get (pm_cells m) (snd found) of
                        None \<Rightarrow> Inl ''type conversion error''
                      | Some pindex \<Rightarrow>
                          if ix_Pmin (pi_Index pindex) \<le> port \<and> ix_Pmax (pi_Index pindex) > port
                          then Inr (Some (snd found)) else Inr None)))"

definition SetPrincipalGroupPort :: "('t, 'z) itree_scheme \<Rightarrow> 't Pmap \<Rightarrow> string \<Rightarrow> int \<Rightarrow> string \<Rightarrow> 't Pmap" where
  "SetPrincipalGroupPort T m ip port P =
     (case GetIndex T m ip port of
        Inr (Some r) \<Rightarrow>
          m\<lparr>pm_cells := (pm_cells m)[r := (pm_cells m ! r)\<lparr>pi_GroupPort := port, pi_GroupP := P\<rparr>]\<rparr>
      | _ \<Rightarrow> m)"

definition GetPrincipal :: "('t, 'z) itree_scheme \<Rightarrow> 't Pmap \<Rightarrow> string \<Rightarrow> int \<Rightarrow> string + string" where
  "GetPrincipal T m ip port =
     (case GetIndex T m ip port of
        Inl err \<Rightarrow> Inl err
      | Inr None \<Rightarrow> Inr []
      | Inr (Some r) \<Rightarrow> Inr (pi_P (pm_cells m ! r)))"

definition GetCachedInstance :: "'t Pmap \<Rightarrow> string \<Rightarrow> CachedInstance option" where
  "GetCachedInstance m uuid = pm_PidMap m uuid"

definition PutCachedInstance :: "('t, 'z) itree_scheme \<Rightarrow> CachedInstance \<Rightarrow> ('t Pmap, unit) go" where
  "PutCachedInstance T inst =
     go_bind (CreatePrincipalPP T (ci_Ip inst) (ci_Lport inst) (ci_Rport inst)
                (ic_Pid (ci_ID inst)) (ic_PPid (ci_ID inst)) (ic_Cidr (ci_ID inst)) (ic_Type (ci_ID inst)))
       (\<lambda>_ m. (Ret (), m\<lparr>pm_PidMap := (pm_PidMap m)(ic_Pid (ci_ID inst) \<mapsto> inst)\<rparr>))"

definition DelCachedInstanceAlt :: "('t, 'z) itree_scheme \<Rightarrow> IP \<Rightarrow> int \<Rightarrow> int \<Rightarrow> string \<Rightarrow> ('t Pmap, unit) go" where
  "DelCachedInstanceAlt T ip lport rport pid =
     (let ipstr = IP_String ip
      in go_bind (DeletePrincipal T ipstr lport rport)
           (\<lambda>_ m. (Ret (), m\<lparr>pm_PidMap := (pm_PidMap m)(pid := None)\<rparr>)))"

definition DelCachedInstance :: "('t, 'z) itree_scheme \<Rightarrow> CachedInstance \<Rightarrow> ('t Pmap, unit) go" where
  "DelCachedInstance T inst =
     DelCachedInstanceAlt T (ci_Ip inst) (ci_Lport inst) (ci_Rport inst) (ic_Pid (ci_ID inst))"

section \<open>Rules of the contract\<close>

lemma itree_empty: "itree_ok T \<Longrightarrow> it_elems T (it_empty T) = {}"
  by (simp add: itree_ok_def)

lemma itree_insert_inverted: "itree_ok T \<Longrightarrow> inverted (fst e) \<Longrightarrow> it_insert T e t = (False, t)"
  by (cases e) (simp add: itree_ok_def)

lemma itree_insert:
  "itree_ok T \<Longrightarrow> \<not> inverted (fst e) \<Longrightarrow>
   it_elems T (snd (it_insert T e t)) = insert e {x \<in> it_elems T t. \<not> same_key (fst x) (fst e)}"
  by (cases e) (simp add: itree_ok_def)

lemma itree_insert_cases:
  assumes "itree_ok T" and "x \<in> it_elems T (snd (it_insert T e t))"
  shows "x \<in> it_elems T t \<or> (x = e \<and> \<not> inverted (fst e))"
  using assms by (cases "inverted (fst e)") (auto simp: itree_insert_inverted itree_insert)

lemma itree_delete:
  "itree_ok T \<Longrightarrow> fst (IndexRange i) < snd (IndexRange i) \<Longrightarrow>
   it_elems T (snd (it_delete T i t)) = {x \<in> it_elems T t. \<not> same_key (fst x) i}"
  by (simp add: itree_ok_def)

lemma itree_delete_inverted: "itree_ok T \<Longrightarrow> inverted i \<Longrightarrow> it_delete T i t = (False, t)"
  by (simp add: itree_ok_def)

lemma itree_delete_subset: "itree_ok T \<Longrightarrow> it_elems T (snd (it_delete T i t)) \<subseteq> it_elems T t"
  by (simp add: itree_ok_def)

lemma itree_get: "itree_ok T \<Longrightarrow> set (it_get T f t) = {x \<in> it_elems T t. f (IndexRange (fst x))}"
  by (simp add: itree_ok_def)

section \<open>ComputeID\<close>

lemma word_of_int_goint_inj:
  assumes "is_goint p" "is_goint q" "(word_of_int p :: uintptr) = word_of_int q"
  shows "p = q"
proof -
  have "signed_take_bit 63 p = signed_take_bit 63 q"
    using assms(3) by (simp add: word_of_int_eq_iff signed_take_bit_eq_iff_take_bit_eq)
  with assms(1,2) show ?thesis by (metis goint_def goint_id)
qed

text \<open>Two ranges of one address with the same start and the same id are equal.\<close>

lemma ComputeID_inj:
  assumes "ComputeID ip p q = Some i" "ComputeID ip p q' = Some i" "is_goint q" "is_goint q'"
  shows "q = q'"
  using assms by (auto simp: ComputeID_def Let_def split: option.splits intro: word_of_int_goint_inj)

lemma ComputeID_dotted: "\<exists>i. ComputeID (dotted a b c d) p q = Some i"
  by (simp add: ComputeID_def BigEndian_Uint32_def Let_def)

lemma ComputeID_v4: "is_v4 ip \<Longrightarrow> \<exists>i. ComputeID (IP_String ip) p q = Some i"
  by (auto simp: is_v4_def ComputeID_dotted)

section \<open>The indexes of an address\<close>

definition pm_tree :: "('t, 'z) itree_scheme \<Rightarrow> 't Pmap \<Rightarrow> string \<Rightarrow> elem set" where
  "pm_tree T m ip = (case pm_Identities m ip of None \<Rightarrow> {} | Some t \<Rightarrow> it_elems T t)"

definition contains_port :: "Index \<Rightarrow> int \<Rightarrow> bool" where
  "contains_port i port \<longleftrightarrow> ix_Pmin i \<le> port \<and> port < ix_Pmax i"

definition strictly_inside :: "Index \<Rightarrow> Index \<Rightarrow> bool" where
  "strictly_inside i j \<longleftrightarrow>
     ix_Pmin j \<le> ix_Pmin i \<and> ix_Pmax i \<le> ix_Pmax j \<and> (ix_Pmin j < ix_Pmin i \<or> ix_Pmax i < ix_Pmax j)"

text \<open>
  The well-formed maps: what the trees hold points to a cell with the same index, is not
  inverted, and carries the id of its range.
\<close>

definition pmap_wf :: "('t, 'z) itree_scheme \<Rightarrow> 't Pmap \<Rightarrow> bool" where
  "pmap_wf T m \<longleftrightarrow>
     (\<forall>ip i r. (i, r) \<in> pm_tree T m ip \<longrightarrow>
        r < length (pm_cells m) \<and> pi_Index (pm_cells m ! r) = i \<and> \<not> inverted i \<and>
        is_goint (ix_Pmax i) \<and> ComputeID ip (ix_Pmin i) (ix_Pmax i) = Some (ix_Id i))"

text \<open>Every index has its instance in PidMap.\<close>

definition pmap_covered :: "('t, 'z) itree_scheme \<Rightarrow> 't Pmap \<Rightarrow> bool" where
  "pmap_covered T m \<longleftrightarrow>
     (\<forall>ip i r. (i, r) \<in> pm_tree T m ip \<longrightarrow> pm_PidMap m (pi_P (pm_cells m ! r)) \<noteq> None)"

lemma pmap_wfD:
  assumes "pmap_wf T m" "(i, r) \<in> pm_tree T m ip"
  shows "r < length (pm_cells m)" "pi_Index (pm_cells m ! r) = i" "\<not> inverted i"
    "is_goint (ix_Pmax i)" "ComputeID ip (ix_Pmin i) (ix_Pmax i) = Some (ix_Id i)"
  using assms by (auto simp: pmap_wf_def)

lemma NewPmap_wf [simp]: "pmap_wf T NewPmap" "pmap_covered T NewPmap"
  by (simp_all add: pmap_wf_def pmap_covered_def pm_tree_def NewPmap_def)

section \<open>The inner-most interval\<close>

lemma innermost_in: "innermost x xs \<in> insert x (set xs)"
  by (induction x xs rule: innermost.induct) auto

lemma innermost_inside:
  "ix_Pmin (fst x) \<le> ix_Pmin (fst (innermost x xs)) \<and> ix_Pmax (fst (innermost x xs)) \<le> ix_Pmax (fst x)"
  by (induction x xs rule: innermost.induct) (auto simp: IndexRange_def)

text \<open>No interval of the list lies strictly inside the one the loop ends with.\<close>

lemma innermost_minimal:
  assumes "y \<in> insert x (set xs)"
  shows "\<not> strictly_inside (fst y) (fst (innermost x xs))"
  using assms
proof (induction x xs rule: innermost.induct)
  case (1 found)
  then show ?case by (auto simp: strictly_inside_def)
next
  case (2 found x xs)
  show ?case
  proof (cases "ix_Pmin (fst found) \<le> ix_Pmin (fst x) \<and> ix_Pmax (fst x) \<le> ix_Pmax (fst found)")
    case True
    with 2 innermost_inside [of x xs] show ?thesis
      by (auto simp: IndexRange_def strictly_inside_def)
  next
    case False
    with 2 innermost_inside [of found xs] show ?thesis
      by (auto simp: IndexRange_def strictly_inside_def)
  qed
qed

lemma Overlap_port:
  assumes "is_goint (port + 1)"
  shows "Overlap \<lparr>ix_Pmin = port, ix_Pmax = goint (port + 1), ix_Id = f\<rparr> (IndexRange i) \<longleftrightarrow> contains_port i port"
  using assms by (auto simp: Overlap_def IndexRange_def contains_port_def)

text \<open>What GetIndex returns, in a well-formed map.\<close>

lemma GetIndex_spec:
  assumes T: "itree_ok T" and wf: "pmap_wf T m" and p: "is_goint (port + 1)"
  shows "(GetIndex T m ip port = Inr None \<and> (\<forall>e \<in> pm_tree T m ip. \<not> contains_port (fst e) port)) \<or>
         (\<exists>i r. GetIndex T m ip port = Inr (Some r) \<and> (i, r) \<in> pm_tree T m ip \<and>
            contains_port i port \<and>
            (\<forall>e \<in> pm_tree T m ip. contains_port (fst e) port \<longrightarrow> \<not> strictly_inside (fst e) i))"
proof (cases "pm_Identities m ip")
  case None
  then show ?thesis by (simp add: GetIndex_def pm_tree_def)
next
  case (Some t)
  define q where "q = \<lparr>ix_Pmin = port, ix_Pmax = goint (port + 1), ix_Id = ForceLookup\<rparr>"
  have get: "set (it_get T (Overlap q) t) = {e \<in> pm_tree T m ip. contains_port (fst e) port}"
    using itree_get [OF T, of "Overlap q" t] Some by (simp add: q_def Overlap_port [OF p] pm_tree_def)
  show ?thesis
  proof (cases "it_get T (Overlap q) t")
    case Nil
    with Some get show ?thesis by (auto simp: GetIndex_def q_def)
  next
    case (Cons x xs)
    obtain i r where e: "innermost x xs = (i, r)" by (cases "innermost x xs")
    have "(i, r) \<in> set (it_get T (Overlap q) t)" using innermost_in [of x xs] Cons e by simp
    then have mem: "(i, r) \<in> pm_tree T m ip" "contains_port i port" unfolding get by auto
    have min: "\<forall>y \<in> pm_tree T m ip. contains_port (fst y) port \<longrightarrow> \<not> strictly_inside (fst y) i"
      using innermost_minimal [of _ x xs] get Cons e by (metis (mono_tags, lifting) fst_conv list.simps(15) mem_Collect_eq)
    have c: "slice_get (pm_cells m) r = Some (pm_cells m ! r)" "pi_Index (pm_cells m ! r) = i"
      using pmap_wfD [OF wf mem(1)] by auto
    have "GetIndex T m ip port = Inr (Some r)"
      using Some Cons e mem(2) c by (simp add: GetIndex_def q_def [symmetric] Let_def contains_port_def)
    with mem min show ?thesis by blast
  qed
qed

section \<open>What the operations do to the map\<close>

lemma pm_tree_upd:
  "pm_tree T (m\<lparr>pm_Identities := (pm_Identities m)(ip \<mapsto> t)\<rparr>) ip' =
   (if ip' = ip then it_elems T t else pm_tree T m ip')"
  by (simp add: pm_tree_def)

lemma pm_tree_frame [simp]:
  "pm_tree T (m\<lparr>pm_PidMap := f\<rparr>) = pm_tree T m"
  "pm_tree T (m\<lparr>pm_counter := c\<rparr>) = pm_tree T m"
  "pm_tree T (m\<lparr>pm_cells := cs\<rparr>) = pm_tree T m"
  by (simp_all add: pm_tree_def fun_eq_iff)

text \<open>The index and the cell that a put of an instance makes.\<close>

definition put_index :: "CachedInstance \<Rightarrow> uintptr \<Rightarrow> Index" where
  "put_index inst cid = \<lparr>ix_Pmin = ci_Lport inst, ix_Pmax = goint (ci_Rport inst + 1), ix_Id = cid\<rparr>"

definition inst_cid :: "CachedInstance \<Rightarrow> uintptr option" where
  "inst_cid inst = ComputeID (IP_String (ci_Ip inst)) (ci_Lport inst) (goint (ci_Rport inst + 1))"

abbreviation inst_pid :: "CachedInstance \<Rightarrow> string" where
  "inst_pid inst \<equiv> ic_Pid (ci_ID inst)"

lemma PutCachedInstance_Panic:
  assumes "inst_cid inst = None"
  shows "PutCachedInstance T inst m = (Panic, m\<lparr>pm_counter := goint (pm_counter m + 1)\<rparr>)"
  using assms by (simp add: PutCachedInstance_def CreatePrincipalPP_def inst_cid_def go_bind_def Let_def)

text \<open>The effect of a put that returns, on each part of the map.\<close>

definition put_cell :: "CachedInstance \<Rightarrow> uintptr \<Rightarrow> PrincipalIndex" where
  "put_cell inst cid = \<lparr>pi_Index = put_index inst cid, pi_P = inst_pid inst,
     pi_PP = ic_PPid (ci_ID inst), pi_GroupPort = 0, pi_GroupP = []\<rparr>"

lemma put_cell_simps [simp]:
  "pi_Index (put_cell inst cid) = put_index inst cid" "pi_P (put_cell inst cid) = inst_pid inst"
  by (simp_all add: put_cell_def)

definition put_result :: "('t, 'z) itree_scheme \<Rightarrow> CachedInstance \<Rightarrow> uintptr \<Rightarrow> 't Pmap \<Rightarrow> 't Pmap" where
  "put_result T inst cid m =
     (let ip = IP_String (ci_Ip inst);
          t = (case pm_Identities m ip of Some t \<Rightarrow> t | None \<Rightarrow> it_empty T)
      in m\<lparr>pm_counter := goint (pm_counter m + 1), pm_cells := pm_cells m @ [put_cell inst cid],
           pm_Identities := (pm_Identities m)(ip \<mapsto> snd (it_insert T (put_index inst cid, length (pm_cells m)) t)),
           pm_PidMap := (pm_PidMap m)(inst_pid inst \<mapsto> inst)\<rparr>)"

lemma PutCachedInstance_Ret:
  assumes "inst_cid inst = Some cid"
  shows "PutCachedInstance T inst m = (Ret (), put_result T inst cid m)"
  using assms
  by (simp add: PutCachedInstance_def CreatePrincipalPP_def inst_cid_def put_index_def put_cell_def
      put_result_def go_bind_def Let_def)

lemma put_result_simps [simp]:
  "pm_PidMap (put_result T inst cid m) = (pm_PidMap m)(inst_pid inst \<mapsto> inst)"
  "pm_cells (put_result T inst cid m) = pm_cells m @ [put_cell inst cid]"
  by (simp_all add: put_result_def Let_def)

lemma put_result_tree:
  assumes T: "itree_ok T"
  shows "pm_tree T (put_result T inst cid m) ip =
           (if ip = IP_String (ci_Ip inst) \<and> \<not> inverted (put_index inst cid)
            then insert (put_index inst cid, length (pm_cells m))
                   {x \<in> pm_tree T m ip. \<not> same_key (fst x) (put_index inst cid)}
            else pm_tree T m ip)"
  using itree_empty [OF T] itree_insert [OF T, of "(put_index inst cid, length (pm_cells m))"]
    itree_insert_inverted [OF T, of "(put_index inst cid, length (pm_cells m))"]
  by (auto simp: pm_tree_def put_result_def Let_def split: option.splits)

lemma put_result_tree_cases:
  assumes "itree_ok T" "(i, r) \<in> pm_tree T (put_result T inst cid m) ip"
  obtains "(i, r) \<in> pm_tree T m ip"
  | "i = put_index inst cid" "r = length (pm_cells m)" "ip = IP_String (ci_Ip inst)" "\<not> inverted i"
  using assms by (auto simp: put_result_tree split: if_splits)

lemma pmap_frame_counter [simp]:
  "pmap_wf T (m\<lparr>pm_counter := c\<rparr>) = pmap_wf T m"
  "pmap_covered T (m\<lparr>pm_counter := c\<rparr>) = pmap_covered T m"
  by (simp_all add: pmap_wf_def pmap_covered_def)

lemma put_result_wf:
  assumes T: "itree_ok T" and wf: "pmap_wf T m" and cid: "inst_cid inst = Some cid"
  shows "pmap_wf T (put_result T inst cid m)"
  unfolding pmap_wf_def
proof (intro allI impI)
  fix ip i r assume "(i, r) \<in> pm_tree T (put_result T inst cid m) ip"
  then show "r < length (pm_cells (put_result T inst cid m)) \<and>
      pi_Index (pm_cells (put_result T inst cid m) ! r) = i \<and> \<not> inverted i \<and>
      is_goint (ix_Pmax i) \<and> ComputeID ip (ix_Pmin i) (ix_Pmax i) = Some (ix_Id i)"
  proof (rule put_result_tree_cases [OF T])
    assume "(i, r) \<in> pm_tree T m ip"
    from pmap_wfD [OF wf this] show ?thesis by (simp add: nth_append)
  next
    assume "i = put_index inst cid" "r = length (pm_cells m)" "ip = IP_String (ci_Ip inst)" "\<not> inverted i"
    with cid show ?thesis by (simp add: inst_cid_def put_index_def)
  qed
qed

lemma put_result_covered:
  assumes T: "itree_ok T" and wf: "pmap_wf T m" and cov: "pmap_covered T m"
  shows "pmap_covered T (put_result T inst cid m)"
  unfolding pmap_covered_def
proof (intro allI impI)
  fix ip i r assume "(i, r) \<in> pm_tree T (put_result T inst cid m) ip"
  then show "pm_PidMap (put_result T inst cid m) (pi_P (pm_cells (put_result T inst cid m) ! r)) \<noteq> None"
  proof (rule put_result_tree_cases [OF T])
    assume *: "(i, r) \<in> pm_tree T m ip"
    with cov pmap_wfD [OF wf *] show ?thesis by (auto simp: nth_append pmap_covered_def)
  qed simp
qed

text \<open>
  Put, on either outcome: the invariants are kept, whatever the instance and whatever the
  map holds.
\<close>

lemma PutCachedInstance_inv:
  assumes "itree_ok T" "pmap_wf T m" "pmap_covered T m" "PutCachedInstance T inst m = (x, m')"
  shows "pmap_wf T m'" "pmap_covered T m'"
  using assms
  by (cases "inst_cid inst";
      auto simp: PutCachedInstance_Panic PutCachedInstance_Ret put_result_wf put_result_covered)+

lemma PutCachedInstance_wf:
  assumes "itree_ok T" "pmap_wf T m" "PutCachedInstance T inst m = (x, m')"
  shows "pmap_wf T m'"
  using assms by (cases "inst_cid inst") (auto simp: PutCachedInstance_Panic PutCachedInstance_Ret put_result_wf)

lemma inst_cid_v4:
  assumes "is_v4 (ci_Ip inst)" shows "\<exists>cid. inst_cid inst = Some cid"
  using assms by (simp add: inst_cid_def ComputeID_v4)

section \<open>Deletion\<close>

text \<open>The indexes whose principal is \<open>pid\<close> all have this address and range.\<close>

definition only_at :: "('t, 'z) itree_scheme \<Rightarrow> 't Pmap \<Rightarrow> string \<Rightarrow> string \<Rightarrow> int \<Rightarrow> int \<Rightarrow> bool" where
  "only_at T m pid ip l r \<longleftrightarrow>
     (\<forall>ip' i c. (i, c) \<in> pm_tree T m ip' \<longrightarrow> pi_P (pm_cells m ! c) = pid \<longrightarrow>
        ip' = ip \<and> ix_Pmin i = l \<and> ix_Pmax i = goint (r + 1))"

lemma DelCachedInstanceAlt_result:
  assumes T: "itree_ok T" and del: "DelCachedInstanceAlt T ip l r pid m = (Ret u, m')"
  shows "pm_cells m' = pm_cells m" "pm_PidMap m' = (pm_PidMap m)(pid := None)"
    "pm_tree T m' ip' \<subseteq> pm_tree T m ip'"
    "l < goint (r + 1) \<Longrightarrow> ComputeID (IP_String ip) l (goint (r + 1)) = Some cid \<Longrightarrow>
     pm_tree T m' (IP_String ip) =
       {x \<in> pm_tree T m (IP_String ip). \<not> (ix_Pmin (fst x) = l \<and> ix_Id (fst x) = cid)}"
proof -
  have sk: "same_key i \<lparr>ix_Pmin = l, ix_Pmax = e, ix_Id = c\<rparr> \<longleftrightarrow> ix_Pmin i = l \<and> ix_Id i = c" for i e c
    by (simp add: same_key_def IndexRange_def ID_def)
  have sub: "it_delete T i t = (b, t') \<Longrightarrow> it_elems T t' \<subseteq> it_elems T t" for i t b t'
    using itree_delete_subset [OF T, of i t] by simp
  show "pm_cells m' = pm_cells m" "pm_PidMap m' = (pm_PidMap m)(pid := None)"
    "pm_tree T m' ip' \<subseteq> pm_tree T m ip'"
    using del sub
    by (auto simp: DelCachedInstanceAlt_def DeletePrincipal_def go_bind_def Let_def pm_tree_def
        split: option.splits prod.splits if_splits; blast)+
  show "pm_tree T m' (IP_String ip) =
       {x \<in> pm_tree T m (IP_String ip). \<not> (ix_Pmin (fst x) = l \<and> ix_Id (fst x) = cid)}"
    if "l < goint (r + 1)" "ComputeID (IP_String ip) l (goint (r + 1)) = Some cid"
  proof -
    let ?i = "\<lparr>ix_Pmin = l, ix_Pmax = goint (r + 1), ix_Id = cid\<rparr>"
    have "it_delete T ?i t = (b, t') \<Longrightarrow>
          it_elems T t' = {x \<in> it_elems T t. \<not> (ix_Pmin (fst x) = l \<and> ix_Id (fst x) = cid)}" for t b t'
      using itree_delete [OF T, of ?i t] that(1) by (simp add: IndexRange_def sk)
    with del that(2) show ?thesis
      by (auto simp: DelCachedInstanceAlt_def DeletePrincipal_def go_bind_def Let_def pm_tree_def
          split: option.splits prod.splits)
  qed
qed

lemma DelCachedInstanceAlt_other:
  assumes "DelCachedInstanceAlt T ip l r pid m = (Ret u, m')" and "ip' \<noteq> IP_String ip"
  shows "pm_tree T m' ip' = pm_tree T m ip'"
  using assms
  by (auto simp: DelCachedInstanceAlt_def DeletePrincipal_def go_bind_def Let_def pm_tree_def
      split: option.splits prod.splits)

text \<open>The tree rejects an inverted range, and the error is dropped.\<close>

lemma DelCachedInstanceAlt_inverted:
  assumes T: "itree_ok T" and "goint (r + 1) < l" and "DelCachedInstanceAlt T ip l r pid m = (Ret u, m')"
  shows "pm_tree T m' ip' = pm_tree T m ip'"
proof -
  have "it_delete T \<lparr>ix_Pmin = l, ix_Pmax = goint (r + 1), ix_Id = c\<rparr> t = (False, t)" for c t
    using itree_delete_inverted [OF T] assms(2) by (simp add: inverted_def IndexRange_def)
  with assms(3) show ?thesis
    by (auto simp: DelCachedInstanceAlt_def DeletePrincipal_def go_bind_def Let_def pm_tree_def
        split: option.splits prod.splits if_splits)
qed

lemma DelCachedInstanceAlt_v4:
  assumes "is_v4 ip"
  obtains m' where "DelCachedInstanceAlt T ip l r pid m = (Ret (), m')"
proof -
  obtain cid where "ComputeID (IP_String ip) l (goint (r + 1)) = Some cid"
    using ComputeID_v4 [OF assms] by blast
  then have "\<exists>m'. DelCachedInstanceAlt T ip l r pid m = (Ret (), m')"
    by (auto simp: DelCachedInstanceAlt_def DeletePrincipal_def go_bind_def Let_def
        split: option.split prod.split)
  then show ?thesis using that by blast
qed

lemma DelCachedInstanceAlt_wf:
  assumes T: "itree_ok T" and wf: "pmap_wf T m" and del: "DelCachedInstanceAlt T ip l r pid m = (Ret u, m')"
  shows "pmap_wf T m'"
  unfolding pmap_wf_def
proof (intro allI impI)
  fix ip' i c assume "(i, c) \<in> pm_tree T m' ip'"
  with DelCachedInstanceAlt_result(3) [OF T del] have "(i, c) \<in> pm_tree T m ip'" by blast
  from pmap_wfD [OF wf this] show "c < length (pm_cells m') \<and> pi_Index (pm_cells m' ! c) = i \<and>
      \<not> inverted i \<and> is_goint (ix_Pmax i) \<and> ComputeID ip' (ix_Pmin i) (ix_Pmax i) = Some (ix_Id i)"
    by (simp add: DelCachedInstanceAlt_result(1) [OF T del])
qed

text \<open>A deletion with another address or another range leaves an index where it is.\<close>

lemma DelCachedInstanceAlt_mismatch:
  assumes T: "itree_ok T" and wf: "pmap_wf T m" and v4: "is_v4 ip" and i: "(i, c) \<in> pm_tree T m b"
    and other: "IP_String ip \<noteq> b \<or> l \<noteq> ix_Pmin i \<or> goint (r + 1) \<noteq> ix_Pmax i" and nonempty: "l \<noteq> goint (r + 1)"
    and del: "DelCachedInstanceAlt T ip l r pid m = (Ret u, m')"
  shows "(i, c) \<in> pm_tree T m' b"
proof -
  consider "b \<noteq> IP_String ip" | "goint (r + 1) < l" | "b = IP_String ip" "l < goint (r + 1)" using nonempty by linarith
  then show ?thesis
  proof cases
    case 1
    with DelCachedInstanceAlt_other [OF del] i show ?thesis by simp
  next
    case 2
    with DelCachedInstanceAlt_inverted [OF T _ del] i show ?thesis by simp
  next
    case 3
    obtain cid where cid: "ComputeID b l (goint (r + 1)) = Some cid" using ComputeID_v4 [OF v4] 3(1) by blast
    have "\<not> (ix_Pmin i = l \<and> ix_Id i = cid)"
      using ComputeID_inj [of b l "ix_Pmax i" cid "goint (r + 1)"] pmap_wfD(4,5) [OF wf i] cid other 3(1) by auto
    with DelCachedInstanceAlt_result(4) [OF T del 3(2) cid [unfolded 3(1)]] i 3(1) show ?thesis by auto
  qed
qed

text \<open>
  A deletion keeps the map covered when the id and the address given belong together and the
  range is not empty.
\<close>

lemma DelCachedInstanceAlt_covered:
  assumes T: "itree_ok T" and wf: "pmap_wf T m" and cov: "pmap_covered T m" and v4: "is_v4 ip"
    and own: "only_at T m pid (IP_String ip) l r" and range: "l < goint (r + 1)"
    and del: "DelCachedInstanceAlt T ip l r pid m = (Ret u, m')"
  shows "pmap_covered T m'"
  unfolding pmap_covered_def
proof (intro allI impI)
  fix ip' i c assume ic: "(i, c) \<in> pm_tree T m' ip'"
  note res = DelCachedInstanceAlt_result [OF T del]
  from ic res(3) have old: "(i, c) \<in> pm_tree T m ip'" by blast
  obtain cid where cid: "ComputeID (IP_String ip) l (goint (r + 1)) = Some cid"
    using ComputeID_v4 [OF v4] by blast
  have "pi_P (pm_cells m ! c) \<noteq> pid"
  proof
    assume "pi_P (pm_cells m ! c) = pid"
    with own old have at: "ip' = IP_String ip" "ix_Pmin i = l" "ix_Pmax i = goint (r + 1)"
      by (auto simp: only_at_def)
    with pmap_wfD(5) [OF wf old] cid have "ix_Id i = cid" by simp
    with ic at res(4) [OF range cid] show False by auto
  qed
  with cov old show "pm_PidMap m' (pi_P (pm_cells m' ! c)) \<noteq> None"
    by (auto simp: res(1,2) pmap_covered_def)
qed

section \<open>A concrete tree\<close>

text \<open>
  A list as an interval tree, for concrete inputs: it shows that the contract \<open>itree_ok\<close> can
  be met, and lets examples evaluate. It models no code.
\<close>

definition list_tree :: "elem list itree" where
  "list_tree =
     \<lparr>it_empty = [],
      it_insert = (\<lambda>e t. if inverted (fst e) then (False, t)
                         else (True, e # filter (\<lambda>x. \<not> same_key (fst x) (fst e)) t)),
      it_delete = (\<lambda>i t. if inverted i then (False, t)
                         else (True, filter (\<lambda>x. \<not> same_key (fst x) i) t)),
      it_get = (\<lambda>f t. filter (\<lambda>x. f (IndexRange (fst x))) t),
      it_elems = set\<rparr>"

lemma list_tree_ok [simp]: "itree_ok list_tree"
  by (auto simp: itree_ok_def list_tree_def inverted_def)

lemma list_tree_simps [simp]:
  "it_empty list_tree = []"
  "it_insert list_tree e t = (if inverted (fst e) then (False, t)
     else (True, e # filter (\<lambda>x. \<not> same_key (fst x) (fst e)) t))"
  "it_delete list_tree i t = (if inverted i then (False, t) else (True, filter (\<lambda>x. \<not> same_key (fst x) i) t))"
  "it_get list_tree f t = filter (\<lambda>x. f (IndexRange (fst x))) t"
  "it_elems list_tree = set"
  by (simp_all add: list_tree_def)

text \<open>An instance at 10.0.0.1 with the given range and id, and a map that holds one.\<close>

definition demo_instance :: "int \<Rightarrow> int \<Rightarrow> string \<Rightarrow> CachedInstance" where
  "demo_instance l r pid =
     \<lparr>ci_Ip = IPv4 10 0 0 1, ci_Lport = l, ci_Rport = r,
      ci_ID = \<lparr>ic_Pid = pid, ic_PPid = ''host'', ic_Cidr = None, ic_Type = NORMAL_INSTANCE_TYPE\<rparr>\<rparr>"

lemma demo_instance_simps [simp]:
  "ci_Ip (demo_instance l r pid) = IPv4 10 0 0 1" "inst_pid (demo_instance l r pid) = pid"
  "ci_Lport (demo_instance l r pid) = l" "ci_Rport (demo_instance l r pid) = r"
  by (simp_all add: demo_instance_def)

lemma pm_tree_NewPmap [simp]: "pm_tree T NewPmap ip = {}"
  by (simp add: pm_tree_def NewPmap_def)

lemma pm_cells_NewPmap [simp]: "pm_cells NewPmap = []"
  by (simp add: NewPmap_def)

definition demo_pmap :: "elem list Pmap" where
  "demo_pmap = snd (PutCachedInstance list_tree (demo_instance 100 200 ''web'') NewPmap)"

lemma demo_pmap_wf [simp]: "pmap_wf list_tree demo_pmap" "pmap_covered list_tree demo_pmap"
  using PutCachedInstance_inv [where T = list_tree and m = NewPmap] unfolding demo_pmap_def
  by (simp_all add: prod_eq_iff)

lemma demo_pmap_tree:
  "\<exists>i. pm_tree list_tree demo_pmap (dotted 10 0 0 1) = {(i, 0)} \<and> ix_Pmin i = 100 \<and> ix_Pmax i = 201"
proof -
  obtain cid where cid: "inst_cid (demo_instance 100 200 ''web'') = Some cid"
    using inst_cid_v4 [of "demo_instance 100 200 ''web''"] by auto
  have "put_index (demo_instance 100 200 ''web'') cid = \<lparr>ix_Pmin = 100, ix_Pmax = 201, ix_Id = cid\<rparr>"
    by (simp add: put_index_def is_goint_def)
  then show ?thesis
    by (simp add: demo_pmap_def PutCachedInstance_Ret [OF cid] put_result_tree inverted_def IndexRange_def)
qed

lemma demo_pmap_cell: "pi_P (pm_cells demo_pmap ! 0) = ''web''"
proof -
  obtain cid where "inst_cid (demo_instance 100 200 ''web'') = Some cid"
    using inst_cid_v4 [of "demo_instance 100 200 ''web''"] by auto
  then show ?thesis by (simp add: demo_pmap_def PutCachedInstance_Ret)
qed

lemma demo_pmap_index: "GetIndex list_tree demo_pmap (dotted 10 0 0 1) 150 = Inr (Some 0)"
proof -
  obtain i where i: "pm_tree list_tree demo_pmap (dotted 10 0 0 1) = {(i, 0)}" "ix_Pmin i = 100" "ix_Pmax i = 201"
    using demo_pmap_tree by auto
  have "is_goint (150 + 1)" by (simp add: is_goint_def)
  from GetIndex_spec [OF list_tree_ok demo_pmap_wf(1) this, of "dotted 10 0 0 1"]
  show ?thesis by (auto simp: i contains_port_def)
qed

lemma demo_pmap_only: "only_at list_tree demo_pmap ''web'' (dotted 10 0 0 1) 100 200"
proof -
  obtain cid where cid: "inst_cid (demo_instance 100 200 ''web'') = Some cid"
    using inst_cid_v4 [of "demo_instance 100 200 ''web''"] by auto
  show ?thesis
    by (auto simp: only_at_def demo_pmap_def PutCachedInstance_Ret [OF cid] put_result_tree put_index_def
        is_goint_def split: if_splits)
qed

lemma demo_pmap_owner: "(i, c) \<in> pm_tree list_tree demo_pmap ip \<Longrightarrow> pi_P (pm_cells demo_pmap ! c) = ''web''"
proof -
  obtain cid where cid: "inst_cid (demo_instance 100 200 ''web'') = Some cid"
    using inst_cid_v4 [of "demo_instance 100 200 ''web''"] by auto
  show "(i, c) \<in> pm_tree list_tree demo_pmap ip \<Longrightarrow> pi_P (pm_cells demo_pmap ! c) = ''web''"
    by (auto simp: demo_pmap_def PutCachedInstance_Ret [OF cid] put_result_tree split: if_splits)
qed

section \<open>Properties\<close>

text \<open>Lookup of a port in a well-formed map: nil exactly when no stored range of the address
  contains the port; otherwise a stored range that contains it, and no other stored range with
  the port lies strictly inside it.\<close>

theorem GetIndex_innermost:
  assumes "itree_ok T" and "pmap_wf T m" and "is_goint (port + 1)"
  shows "case GetIndex T m ip port of
      Inl err \<Rightarrow> False
    | Inr None \<Rightarrow> \<forall>e \<in> pm_tree T m ip. \<not> contains_port (fst e) port
    | Inr (Some r) \<Rightarrow> \<exists>i. (i, r) \<in> pm_tree T m ip \<and> pi_Index (pm_cells m ! r) = i \<and> contains_port i port \<and>
        (\<forall>e \<in> pm_tree T m ip. contains_port (fst e) port \<longrightarrow> \<not> strictly_inside (fst e) i)"
  using GetIndex_spec [OF assms, of ip]
proof (elim disjE exE conjE)
  fix i r assume "GetIndex T m ip port = Inr (Some r)" "(i, r) \<in> pm_tree T m ip" "contains_port i port"
    "\<forall>e \<in> pm_tree T m ip. contains_port (fst e) port \<longrightarrow> \<not> strictly_inside (fst e) i"
  with pmap_wfD(2) [OF assms(2)] show ?thesis by auto
qed simp

theorem GetIndex_innermost_witness: "GetIndex list_tree demo_pmap (dotted 10 0 0 1) 150 = Inr (Some 0)"
proof -
  obtain i where i: "pm_tree list_tree demo_pmap (dotted 10 0 0 1) = {(i, 0)}" "ix_Pmin i = 100" "ix_Pmax i = 201"
    using demo_pmap_tree by auto
  have "is_goint (150 + 1)" by (simp add: is_goint_def)
  from GetIndex_innermost [OF list_tree_ok demo_pmap_wf(1) this, of "dotted 10 0 0 1"]
  show ?thesis by (auto simp: i contains_port_def split: sum.splits option.splits)
qed

end
