(* ===== verification/Json.thy ===== *)
theory Json
  imports GoStrings
begin

text \<open>
  The part of encoding/json the proxy uses: encoding a struct of strings and string slices
  (with HTML escaping, as json.Encoder does), and decoding the first JSON value of a body
  into such a struct (case-insensitive member names, null leaves a field alone, a value of
  another type is an error that leaves the field alone and lets the decoding go on).
  Strings are bytes; invalid UTF-8 becomes U+FFFD, as in Go. Decoding null into an element of
  a slice gives the empty string.
\<close>

section \<open>UTF-8\<close>

definition in_byte :: "nat \<Rightarrow> nat \<Rightarrow> char \<Rightarrow> bool" where
  "in_byte lo hi c \<longleftrightarrow> lo \<le> (of_char c :: nat) \<and> (of_char c :: nat) \<le> hi"

text \<open>The size of the well-formed rune at the front, 0 for an ill-formed one (utf8.DecodeRune).\<close>

fun rune_size :: "string \<Rightarrow> nat" where
  "rune_size (a # b # c # d # r) =
     (if in_byte 0 127 a then 1
      else if in_byte 194 223 a \<and> in_byte 128 191 b then 2
      else if ((a = CHR 224 \<and> in_byte 160 191 b) \<or> (in_byte 225 236 a \<and> in_byte 128 191 b)
               \<or> (a = CHR 237 \<and> in_byte 128 159 b) \<or> (in_byte 238 239 a \<and> in_byte 128 191 b))
              \<and> in_byte 128 191 c then 3
      else if ((a = CHR 240 \<and> in_byte 144 191 b) \<or> (in_byte 241 243 a \<and> in_byte 128 191 b)
               \<or> (a = CHR 244 \<and> in_byte 128 143 b)) \<and> in_byte 128 191 c \<and> in_byte 128 191 d then 4
      else 0)"
| "rune_size [a, b, c] =
     (if in_byte 0 127 a then 1
      else if in_byte 194 223 a \<and> in_byte 128 191 b then 2
      else if ((a = CHR 224 \<and> in_byte 160 191 b) \<or> (in_byte 225 236 a \<and> in_byte 128 191 b)
               \<or> (a = CHR 237 \<and> in_byte 128 159 b) \<or> (in_byte 238 239 a \<and> in_byte 128 191 b))
              \<and> in_byte 128 191 c then 3
      else 0)"
| "rune_size [a, b] =
     (if in_byte 0 127 a then 1 else if in_byte 194 223 a \<and> in_byte 128 191 b then 2 else 0)"
| "rune_size [a] = (if in_byte 0 127 a then 1 else 0)"
| "rune_size [] = 0"

definition replacement :: string where
  "replacement = [CHR 239, CHR 191, CHR 189]"

text \<open>utf8.EncodeRune; a surrogate or a value out of range is encoded as U+FFFD.\<close>

definition encode_rune :: "nat \<Rightarrow> string" where
  "encode_rune r =
     (if r < 128 then [char_of r]
      else if r < 2048 then [char_of (192 + r div 64), char_of (128 + r mod 64)]
      else if (55296 \<le> r \<and> r < 57344) \<or> r \<ge> 1114112 then replacement
      else if r < 65536 then
        [char_of (224 + r div 4096), char_of (128 + r div 64 mod 64), char_of (128 + r mod 64)]
      else [char_of (240 + r div 262144), char_of (128 + r div 4096 mod 64),
            char_of (128 + r div 64 mod 64), char_of (128 + r mod 64)])"

section \<open>Encoding\<close>

definition hex_char :: "nat \<Rightarrow> char" where
  "hex_char n = (if n < 10 then char_of (48 + n) else char_of (87 + n))"

definition quote :: char where "quote = CHR 34"
definition backslash :: char where "backslash = CHR 92"

text \<open>One ASCII byte of a string; the angle brackets and the ampersand are escaped too.\<close>

definition escape_ascii :: "char \<Rightarrow> string" where
  "escape_ascii c =
     (if c = backslash \<or> c = quote then [backslash, c]
      else if c = CHR 10 then [backslash, CHR ''n'']
      else if c = CHR 13 then [backslash, CHR ''r'']
      else if c = CHR 9 then [backslash, CHR ''t'']
      else if in_byte 0 31 c \<or> c = CHR ''<'' \<or> c = CHR ''>'' \<or> c = CHR ''&''
        then backslash # ''u00'' @ [hex_char (of_char c div 16), hex_char (of_char c mod 16)]
      else [c])"

function escape :: "string \<Rightarrow> string" where
  "escape [] = []"
| "escape (c # cs) =
     (if in_byte 0 127 c then escape_ascii c @ escape cs
      else (let n = rune_size (c # cs)
            in if n = 0 then backslash # ''ufffd'' @ escape cs
               else if take n (c # cs) = [CHR 226, CHR 128, CHR 168]
                 then backslash # ''u2028'' @ escape (drop (n - 1) cs)
               else if take n (c # cs) = [CHR 226, CHR 128, CHR 169]
                 then backslash # ''u2029'' @ escape (drop (n - 1) cs)
               else take n (c # cs) @ escape (drop (n - 1) cs)))"
  by pat_completeness auto
termination by (relation "measure length") auto

definition enc_string :: "string \<Rightarrow> string" where
  "enc_string s = quote # escape s @ [quote]"

text \<open>A slice of strings; a nil slice is null.\<close>

definition enc_strings :: "string list option \<Rightarrow> string" where
  "enc_strings vs = (case vs of None \<Rightarrow> ''null'' | Some xs \<Rightarrow> ''['' @ Join (map enc_string xs) '','' @ '']'')"

text \<open>A struct: its members in order, each with its name; the encoder ends with a newline.\<close>

definition enc_struct :: "(string \<times> string) list \<Rightarrow> string" where
  "enc_struct ms = ''{'' @ Join (map (\<lambda>(k, v). enc_string k @ '':'' @ v) ms) '','' @ ''}'' @ [CHR 10]"

section \<open>Parsing\<close>

datatype json = JNull | JBool bool | JNum string | JStr string | JArr "json list"
  | JObj "(string \<times> json) list"

definition is_ws :: "char \<Rightarrow> bool" where
  "is_ws c \<longleftrightarrow> c = CHR 32 \<or> c = CHR 9 \<or> c = CHR 10 \<or> c = CHR 13"

definition skip_ws :: "string \<Rightarrow> string" where
  "skip_ws s = dropWhile is_ws s"

definition hex_val4 :: "char \<Rightarrow> nat option" where
  "hex_val4 c =
     (let n = (of_char c :: nat)
      in if 48 \<le> n \<and> n \<le> 57 then Some (n - 48)
         else if 97 \<le> n \<and> n \<le> 102 then Some (n - 87)
         else if 65 \<le> n \<and> n \<le> 70 then Some (n - 55) else None)"

definition get_u4 :: "string \<Rightarrow> (nat \<times> string) option" where
  "get_u4 s =
     (case s of
        a # b # c # d # r \<Rightarrow>
          (case (hex_val4 a, hex_val4 b, hex_val4 c, hex_val4 d) of
             (Some w, Some x, Some y, Some z) \<Rightarrow> Some (4096 * w + 256 * x + 16 * y + z, r)
           | _ \<Rightarrow> None)
      | _ \<Rightarrow> None)"

text \<open>The low half of a surrogate pair, as an escape at the front of the input.\<close>

definition low_surrogate :: "string \<Rightarrow> (nat \<times> string) option" where
  "low_surrogate s =
     (case s of
        a # b # r \<Rightarrow>
          if a = backslash \<and> b = CHR ''u'' then
            (case get_u4 r of
               Some (n, r') \<Rightarrow> if 56320 \<le> n \<and> n < 57344 then Some (n, r') else None
             | None \<Rightarrow> None)
          else None
      | _ \<Rightarrow> None)"

text \<open>The escape after a backslash: the bytes it stands for and the rest.\<close>

definition unescape :: "string \<Rightarrow> (string \<times> string) option" where
  "unescape s =
     (case s of
        [] \<Rightarrow> None
      | c # r \<Rightarrow>
          if c = quote \<or> c = backslash \<or> c = CHR ''/'' then Some ([c], r)
          else if c = CHR ''b'' then Some ([CHR 8], r)
          else if c = CHR ''f'' then Some ([CHR 12], r)
          else if c = CHR ''n'' then Some ([CHR 10], r)
          else if c = CHR ''r'' then Some ([CHR 13], r)
          else if c = CHR ''t'' then Some ([CHR 9], r)
          else if c = CHR ''u'' then
            (case get_u4 r of
               None \<Rightarrow> None
             | Some (n, r1) \<Rightarrow>
                 if 55296 \<le> n \<and> n < 56320 then
                   (case low_surrogate r1 of
                      Some (m, r2) \<Rightarrow> Some (encode_rune (65536 + 1024 * (n - 55296) + (m - 56320)), r2)
                    | None \<Rightarrow> Some (replacement, r1))
                 else Some (encode_rune n, r1))
          else None)"

text \<open>The rest of a string after its opening quote.\<close>

fun parse_str :: "nat \<Rightarrow> string \<Rightarrow> (string \<times> string) option" where
  "parse_str 0 s = None"
| "parse_str (Suc k) s =
     (case s of
        [] \<Rightarrow> None
      | c # cs \<Rightarrow>
          if c = quote then Some ([], cs)
          else if c = backslash then
            (case unescape cs of
               None \<Rightarrow> None
             | Some (u, r) \<Rightarrow> map_option (\<lambda>(t, r'). (u @ t, r')) (parse_str k r))
          else if in_byte 0 31 c then None
          else (let n = rune_size s
                in if n = 0 then map_option (\<lambda>(t, r'). (replacement @ t, r')) (parse_str k cs)
                   else map_option (\<lambda>(t, r'). (take n s @ t, r')) (parse_str k (drop n s))))"

text \<open>A number by the grammar of JSON; its text is kept.\<close>

definition parse_number :: "string \<Rightarrow> (string \<times> string) option" where
  "parse_number s0 =
     (let (sign, s1) = (case s0 of c # r \<Rightarrow> if c = CHR ''-'' then ([c], r) else ([], s0) | [] \<Rightarrow> ([], s0));
          (ip, s2) = span_digits s1;
          (fp, s3) = (case s2 of
                        c # r \<Rightarrow> if c = CHR ''.'' then (let (d, r') = span_digits r in (c # d, r')) else ([], s2)
                      | [] \<Rightarrow> ([], s2));
          (ep, s4) = (case s3 of
                        c # r \<Rightarrow> if c = CHR ''e'' \<or> c = CHR ''E'' then
                                   (let (sg, r1) = (case r of x # y \<Rightarrow> if x = CHR ''+'' \<or> x = CHR ''-'' then ([x], y) else ([], r)
                                                             | [] \<Rightarrow> ([], r));
                                        (d, r2) = span_digits r1
                                    in (c # sg @ (if d = [] then ''?'' else d), r2))
                                 else ([], s3)
                      | [] \<Rightarrow> ([], s3))
      in if ip = [] \<or> (hd ip = CHR ''0'' \<and> length ip > 1) \<or> length fp = 1 \<or> CHR ''?'' \<in> set ep
         then None else Some (sign @ ip @ fp @ ep, s4))"

text \<open>
  A value, the rest of an array and the rest of an object. Every call spends a unit of fuel
  and every nested call has consumed a character, so the length of the input is enough.
\<close>

fun parse_value :: "nat \<Rightarrow> string \<Rightarrow> (json \<times> string) option"
  and parse_elems :: "nat \<Rightarrow> string \<Rightarrow> (json list \<times> string) option"
  and parse_members :: "nat \<Rightarrow> string \<Rightarrow> ((string \<times> json) list \<times> string) option"
where
  "parse_value 0 s = None"
| "parse_value (Suc k) s =
     (case skip_ws s of
        [] \<Rightarrow> None
      | c # r \<Rightarrow>
          if c = CHR ''{'' then
            (case skip_ws r of
               [] \<Rightarrow> None
             | d # r' \<Rightarrow> if d = CHR ''}'' then Some (JObj [], r')
                         else map_option (\<lambda>(ms, t). (JObj ms, t)) (parse_members k r))
          else if c = CHR ''['' then
            (case skip_ws r of
               [] \<Rightarrow> None
             | d # r' \<Rightarrow> if d = CHR '']'' then Some (JArr [], r')
                         else map_option (\<lambda>(vs, t). (JArr vs, t)) (parse_elems k r))
          else if c = quote then map_option (\<lambda>(t, r'). (JStr t, r')) (parse_str (Suc (length r)) r)
          else if HasPrefix (c # r) ''null'' then Some (JNull, drop 4 (c # r))
          else if HasPrefix (c # r) ''true'' then Some (JBool True, drop 4 (c # r))
          else if HasPrefix (c # r) ''false'' then Some (JBool False, drop 5 (c # r))
          else map_option (\<lambda>(t, r'). (JNum t, r')) (parse_number (c # r)))"
| "parse_elems 0 s = None"
| "parse_elems (Suc k) s =
     (case parse_value k s of
        None \<Rightarrow> None
      | Some (v, r) \<Rightarrow>
          (case skip_ws r of
             [] \<Rightarrow> None
           | c # r' \<Rightarrow>
               if c = CHR '']'' then Some ([v], r')
               else if c = CHR '','' then map_option (\<lambda>(vs, t). (v # vs, t)) (parse_elems k r')
               else None))"
| "parse_members 0 s = None"
| "parse_members (Suc k) s =
     (case skip_ws s of
        [] \<Rightarrow> None
      | q # r \<Rightarrow>
          if q \<noteq> quote then None
          else (case parse_str (Suc (length r)) r of
                  None \<Rightarrow> None
                | Some (name, r1) \<Rightarrow>
                    (case skip_ws r1 of
                       [] \<Rightarrow> None
                     | c # r2 \<Rightarrow>
                         if c \<noteq> CHR '':'' then None
                         else (case parse_value k r2 of
                                 None \<Rightarrow> None
                               | Some (v, r3) \<Rightarrow>
                                   (case skip_ws r3 of
                                      [] \<Rightarrow> None
                                    | d # r4 \<Rightarrow>
                                        if d = CHR ''}'' then Some ([(name, v)], r4)
                                        else if d = CHR '','' then
                                          map_option (\<lambda>(ms, t). ((name, v) # ms, t)) (parse_members k r4)
                                        else None)))))"

text \<open>
  The decoder stops after the first value, whatever follows: the byte after a number, a string or
  a literal ends the value, and an error in what follows would only be seen by the next call.
\<close>

definition parse_json :: "string \<Rightarrow> json option" where
  "parse_json s = map_option fst (parse_value (2 * length s + 2) s)"

section \<open>Decoding into a struct\<close>

text \<open>
  Member names are matched exactly first, then up to case (the two runes outside ASCII that
  fold to s and k included).
\<close>

fun fold_name :: "string \<Rightarrow> string" where
  "fold_name [] = []"
| "fold_name (c # cs) =
     (if c = CHR 197 \<and> HasPrefix cs [CHR 191] then CHR ''s'' # fold_name (tl cs)
      else if c = CHR 226 \<and> HasPrefix cs [CHR 132, CHR 170] then CHR ''k'' # fold_name (tl (tl cs))
      else (if in_byte 65 90 c then char_of (of_char c + 32 :: nat) else c) # fold_name cs)"

definition find_field :: "string list \<Rightarrow> string \<Rightarrow> string option" where
  "find_field names key =
     (if key \<in> set names then Some key
      else List.find (\<lambda>n. fold_name n = fold_name key) names)"

text \<open>A string field: the new value, and no error. A null and a value of another type change nothing.\<close>

definition dec_string :: "json \<Rightarrow> string \<Rightarrow> string \<times> bool" where
  "dec_string v old = (case v of JStr s \<Rightarrow> (s, True) | JNull \<Rightarrow> (old, True) | _ \<Rightarrow> (old, False))"

text \<open>
  A field that is a slice of strings, which a key that is repeated decodes into again. The slice
  comes with the elements of its array past its length, which stay there: an element is decoded
  into what is at its place in the array. \<open>dec_elems vs cap arr\<close> decodes from the place where the
  array of length cap still has the elements \<open>arr\<close>; a full array is replaced by one half longer, of
  at least four elements. The result is the elements decoded, what is left of the array, and
  whether there was no error. An empty array makes a new slice, and null a nil one.
\<close>

fun dec_elems :: "json list \<Rightarrow> nat \<Rightarrow> string list \<Rightarrow> string list \<times> string list \<times> bool" where
  "dec_elems [] cap arr = ([], arr, True)"
| "dec_elems (v # vs) cap arr =
     (let newcap = (if arr = [] then max 4 (cap + cap div 2) else cap);
          arr' = (if arr = [] then replicate (newcap - cap) [] else arr);
          (x, ok) = dec_string v (hd arr');
          (xs, rest, oks) = dec_elems vs newcap (tl arr')
      in (x # xs, rest, ok \<and> oks))"

definition dec_strings :: "json \<Rightarrow> string list option \<times> string list \<Rightarrow> (string list option \<times> string list) \<times> bool" where
  "dec_strings v old =
     (case v of
        JArr vs \<Rightarrow>
          (let arr = (case fst old of None \<Rightarrow> [] | Some xs \<Rightarrow> xs) @ snd old;
               (xs, rest, ok) = dec_elems vs (length arr) arr
           in ((Some xs, if vs = [] then [] else rest), ok))
      | JNull \<Rightarrow> ((None, []), True)
      | _ \<Rightarrow> (old, False))"

lemma dec_string_str [simp]: "dec_string (JStr v) old = (v, True)"
  by (simp add: dec_string_def)

lemma dec_elems_strings: "\<exists>rest. dec_elems (map JStr vs) cap arr = (vs, rest, True)"
proof (induction vs arbitrary: cap arr)
  case (Cons v vs)
  let ?n = "if arr = [] then max 4 (cap + cap div 2) else cap"
  from Cons [of ?n "tl (if arr = [] then replicate (?n - cap) [] else arr)"] show ?case by (auto simp: Let_def)
qed simp

lemma dec_strings_array: "\<exists>rest. dec_strings (JArr (map JStr vs)) old = ((Some vs, rest), True)"
proof -
  let ?arr = "(case fst old of None \<Rightarrow> [] | Some xs \<Rightarrow> xs) @ snd old"
  obtain rest where "dec_elems (map JStr vs) (length ?arr) ?arr = (vs, rest, True)" using dec_elems_strings by blast
  then show ?thesis by (simp add: dec_strings_def Let_def del: length_append)
qed

lemma dec_strings_null [simp]: "dec_strings JNull old = ((None, []), True)"
  by (simp add: dec_strings_def)

text \<open>The members one after the other; an unknown member is skipped.\<close>

fun dec_members :: "string list \<Rightarrow> (string \<Rightarrow> json \<Rightarrow> 'a \<Rightarrow> 'a \<times> bool) \<Rightarrow> (string \<times> json) list \<Rightarrow> 'a \<Rightarrow> 'a \<times> bool" where
  "dec_members names upd [] x = (x, True)"
| "dec_members names upd ((k, v) # ms) x =
     (case find_field names k of
        None \<Rightarrow> dec_members names upd ms x
      | Some f \<Rightarrow> (let (x', ok) = upd f v x; (x'', ok') = dec_members names upd ms x' in (x'', ok \<and> ok')))"

text \<open>
  json.NewDecoder(body).Decode(\&x): the new value of x and whether there was no error. A
  syntax error leaves x alone; a member of the wrong type does not stop the decoding.
\<close>

definition dec_struct :: "string list \<Rightarrow> (string \<Rightarrow> json \<Rightarrow> 'a \<Rightarrow> 'a \<times> bool) \<Rightarrow> 'a \<Rightarrow> string \<Rightarrow> 'a \<times> bool" where
  "dec_struct names upd x body =
     (case parse_json body of
        None \<Rightarrow> (x, False)
      | Some (JObj ms) \<Rightarrow> dec_members names upd ms x
      | Some JNull \<Rightarrow> (x, True)
      | Some _ \<Rightarrow> (x, False))"

lemma dec_members_keeps:
  assumes "\<And>f v x. P x \<Longrightarrow> P (fst (upd f v x))" and "P x"
  shows "P (fst (dec_members names upd ms x))"
  using assms(2)
proof (induction ms arbitrary: x)
  case (Cons m ms)
  obtain k v where m: "m = (k, v)" by (cases m)
  have "P (fst (upd f v x))" for f using assms(1) Cons.prems by blast
  then have "find_field names k = Some f \<Longrightarrow> P (fst (dec_members names upd ms (fst (upd f v x))))" for f
    by (intro Cons.IH)
  with Cons show ?case by (auto simp: m Let_def split_def split: option.splits)
qed simp

lemma dec_struct_keeps:
  assumes "\<And>f v x. P x \<Longrightarrow> P (fst (upd f v x))" and "P x"
  shows "P (fst (dec_struct names upd x body))"
  using dec_members_keeps [where P = P, OF assms] assms(2)
  by (auto simp: dec_struct_def split: option.splits json.splits)

section \<open>Lemmas: a string through its encoding\<close>

function valid_utf8 :: "string \<Rightarrow> bool" where
  "valid_utf8 [] = True"
| "valid_utf8 (c # cs) =
     (0 < rune_size (c # cs) \<and> valid_utf8 (drop (rune_size (c # cs) - 1) cs))"
  by pat_completeness auto
termination by (relation "measure length") auto

lemma rune_size_ascii [simp]: "in_byte 0 127 c \<Longrightarrow> rune_size (c # cs) = 1"
  by (cases "c # cs" rule: rune_size.cases) auto

lemma rune_size_le: "rune_size s \<le> length s"
  by (induction s rule: rune_size.induct) auto

text \<open>The size of a rune depends on its own bytes only.\<close>

lemma rune_size_take:
  "rune_size s = n \<Longrightarrow> 0 < n \<Longrightarrow> rune_size (take n s @ t) = n"
  by (cases s rule: rune_size.cases; cases t rule: rune_size.cases)
     (auto simp: numeral_3_eq_3 numeral_2_eq_2 split: if_splits)

lemma quote_backslash [simp]: "quote \<noteq> backslash" "backslash \<noteq> quote"
  by (simp_all add: quote_def backslash_def)

lemma hex_val4_hex_char [simp]: "n < 16 \<Longrightarrow> hex_val4 (hex_char n) = Some n"
  by (simp add: hex_val4_def hex_char_def)

lemma get_u4_00 [simp]:
  "get_u4 (CHR ''0'' # CHR ''0'' # hex_char (n div 16) # hex_char (n mod 16) # r) = Some (n, r)" if "n < 256"
proof -
  have "hex_val4 (CHR ''0'') = Some 0" by (simp add: hex_val4_def)
  moreover have "n div 16 < 16" using that by simp
  ultimately show ?thesis by (simp add: get_u4_def)
qed

declare parse_str.simps(2) [simp del]

lemma encode_rune_ascii: "in_byte 0 127 c \<Longrightarrow> encode_rune (of_char c) = [c]"
  by (simp add: in_byte_def encode_rune_def)

lemma escape_ascii_cases:
  obtains (self) "c = backslash \<or> c = quote" "escape_ascii c = [backslash, c]"
  | (nl) "c = CHR 10" "escape_ascii c = [backslash, CHR ''n'']"
  | (cr) "c = CHR 13" "escape_ascii c = [backslash, CHR ''r'']"
  | (tab) "c = CHR 9" "escape_ascii c = [backslash, CHR ''t'']"
  | (u) "escape_ascii c = backslash # ''u00'' @ [hex_char (of_char c div 16), hex_char (of_char c mod 16)]"
  | (plain) "escape_ascii c = [c]" "c \<noteq> quote" "c \<noteq> backslash" "\<not> in_byte 0 31 c"
  unfolding escape_ascii_def by presburger

lemma parse_str_esc:
  assumes "unescape e = Some (u, r)" "parse_str k r = Some (s, t)"
  shows "parse_str (Suc k) (backslash # e) = Some (u @ s, t)"
  using assms by (simp add: parse_str.simps(2))

lemma unescape_u00:
  assumes "in_byte 0 127 c"
  shows "unescape (''u00'' @ hex_char (of_char c div 16) # hex_char (of_char c mod 16) # r) = Some ([c], r)"
proof -
  have "(of_char c :: nat) < 128" using assms by (simp add: in_byte_def)
  then show ?thesis using encode_rune_ascii [OF assms]
    by (simp add: unescape_def quote_def backslash_def)
qed

lemma unescape_simple:
  "unescape (CHR ''n'' # r) = Some ([CHR 10], r)" "unescape (CHR ''r'' # r) = Some ([CHR 13], r)"
  "unescape (CHR ''t'' # r) = Some ([CHR 9], r)"
  "c = backslash \<or> c = quote \<Longrightarrow> unescape (c # r) = Some ([c], r)"
  by (auto simp: unescape_def quote_def backslash_def)

lemma parse_str_ascii:
  assumes c: "in_byte 0 127 c" and r: "parse_str k r = Some (s, t)"
  shows "parse_str (Suc k) (escape_ascii c @ r) = Some (c # s, t)"
proof (cases c rule: escape_ascii_cases)
  case self
  with parse_str_esc [OF unescape_simple(4) r] show ?thesis by simp
next
  case nl
  with parse_str_esc [OF unescape_simple(1) r] show ?thesis by simp
next
  case cr
  with parse_str_esc [OF unescape_simple(2) r] show ?thesis by simp
next
  case tab
  with parse_str_esc [OF unescape_simple(3) r] show ?thesis by simp
next
  case u
  with parse_str_esc [OF unescape_u00 [OF c] r] show ?thesis by simp
next
  case plain
  with c r show ?thesis by (simp add: parse_str.simps(2))
qed

lemma high_byte:
  "\<not> in_byte 0 127 c \<Longrightarrow> c \<noteq> quote \<and> c \<noteq> backslash \<and> \<not> in_byte 0 31 c"
  by (auto simp: in_byte_def quote_def backslash_def)

lemma parse_str_rune:
  assumes "\<not> in_byte 0 127 c" "rune_size (c # cs) = n" "0 < n" "parse_str k r = Some (s, t)"
  shows "parse_str (Suc k) (take n (c # cs) @ r) = Some (take n (c # cs) @ s, t)"
proof -
  have rs: "rune_size (take n (c # cs) @ r) = n" using rune_size_take assms(2,3) by blast
  have len: "length (take n (c # cs)) = n" using rune_size_le [of "c # cs"] assms(2) by simp
  obtain rest where rest: "take n (c # cs) = c # rest" using assms(3) by (cases n) auto
  have "take n (c # rest @ r) = c # rest" "drop n (c # rest @ r) = r"
    using len unfolding rest by auto
  with rs high_byte [OF assms(1)] assms(3,4) show ?thesis
    unfolding rest by (simp add: parse_str.simps(2))
qed

lemma encode_line_separators:
  "encode_rune 8232 = [CHR 226, CHR 128, CHR 168]" "encode_rune 8233 = [CHR 226, CHR 128, CHR 169]"
  by (simp_all add: encode_rune_def char_of_def bit_iff_odd)

lemma unescape_u:
  "get_u4 t = Some (n, r) \<Longrightarrow> n < 55296 \<Longrightarrow> unescape (CHR ''u'' # t) = Some (encode_rune n, r)"
  by (simp add: unescape_def quote_def backslash_def)

lemma unescape_line_separators:
  "unescape (''u2028'' @ r) = Some ([CHR 226, CHR 128, CHR 168], r)"
  "unescape (''u2029'' @ r) = Some ([CHR 226, CHR 128, CHR 169], r)"
proof -
  have "get_u4 (''2028'' @ r) = Some (8232, r)" "get_u4 (''2029'' @ r) = Some (8233, r)"
    by (simp_all add: get_u4_def hex_val4_def)
  from this [THEN unescape_u] show "unescape (''u2028'' @ r) = Some ([CHR 226, CHR 128, CHR 168], r)"
    "unescape (''u2029'' @ r) = Some ([CHR 226, CHR 128, CHR 169], r)"
    by (simp_all add: encode_line_separators)
qed

text \<open>More fuel never changes what parse_str returns.\<close>

lemma parse_str_step:
  assumes run: "parse_str (Suc k) s = Some x"
    and IH: "\<And>r y. parse_str k r = Some y \<Longrightarrow> parse_str j r = Some y"
  shows "parse_str (Suc j) s = Some x"
proof (cases s)
  case (Cons c cs)
  show ?thesis
  proof (cases "c = quote")
    case True
    then show ?thesis using run Cons by (simp add: parse_str.simps(2))
  next
    case nq: False
    show ?thesis
    proof (cases "c = backslash")
      case True
      then show ?thesis using run Cons IH by (cases "unescape cs") (fastforce simp: parse_str.simps(2))+
    next
      case False
      then show ?thesis using run Cons nq IH
        by (cases "rune_size s = 0") (fastforce simp: parse_str.simps(2) Let_def split: if_splits)+
    qed
  qed
qed (use run in \<open>simp add: parse_str.simps(2)\<close>)

lemma parse_str_mono: "parse_str k s = Some x \<Longrightarrow> k \<le> k' \<Longrightarrow> parse_str k' s = Some x"
proof (induction k arbitrary: s k' x)
  case (Suc k)
  from Suc.prems(2) obtain j where j: "k' = Suc j" "k \<le> j" by (cases k') auto
  from Suc.prems(1) have "parse_str (Suc j) s = Some x"
    by (rule parse_str_step) (rule Suc.IH [OF _ j(2)])
  with j show ?case by simp
qed simp

declare escape.simps(2) [simp del] valid_utf8.simps(2) [simp del]

lemma escape_ascii_Cons: "in_byte 0 127 c \<Longrightarrow> escape (c # cs) = escape_ascii c @ escape cs"
  by (simp add: escape.simps(2))

lemma escape_rune_Cons:
  assumes "\<not> in_byte 0 127 c" "rune_size (c # cs) = n" "0 < n"
  shows "escape (c # cs) =
    (if take n (c # cs) = [CHR 226, CHR 128, CHR 168] then backslash # ''u2028'' @ escape (drop (n - 1) cs)
     else if take n (c # cs) = [CHR 226, CHR 128, CHR 169] then backslash # ''u2029'' @ escape (drop (n - 1) cs)
     else take n (c # cs) @ escape (drop (n - 1) cs))"
  using assms by (simp only: escape.simps(2) Let_def if_False neq0_conv [symmetric] simp_thms)

lemma parse_str_escape_rune:
  assumes c: "\<not> in_byte 0 127 c" and n: "rune_size (c # cs) = n" "0 < n"
    and IH: "parse_str k (escape (drop (n - 1) cs) @ quote # r) = Some (s, t)"
  shows "parse_str (Suc k) (escape (c # cs) @ quote # r) = Some (take n (c # cs) @ s, t)"
proof -
  consider "take n (c # cs) = [CHR 226, CHR 128, CHR 168]" | "take n (c # cs) = [CHR 226, CHR 128, CHR 169]"
    | "escape (c # cs) = take n (c # cs) @ escape (drop (n - 1) cs)"
    unfolding escape_rune_Cons [OF c n] by presburger
  then show ?thesis
  proof cases
    case 1
    then have "escape (c # cs) = backslash # ''u2028'' @ escape (drop (n - 1) cs)"
      unfolding escape_rune_Cons [OF c n] by (simp only: if_True refl)
    with parse_str_esc [OF unescape_line_separators(1) IH] 1 show ?thesis by (simp only: append_Cons append_assoc append_Nil)
  next
    case 2
    then have "escape (c # cs) = backslash # ''u2029'' @ escape (drop (n - 1) cs)"
      unfolding escape_rune_Cons [OF c n] by simp
    with parse_str_esc [OF unescape_line_separators(2) IH] 2 show ?thesis by (simp only: append_Cons append_assoc append_Nil)
  next
    case 3
    with parse_str_rune [OF c n IH] show ?thesis by (simp only: append_assoc)
  qed
qed

lemma parse_str_escape:
  assumes "valid_utf8 s"
  shows "parse_str (Suc (length s)) (escape s @ quote # r) = Some (s, r)"
  using assms
proof (induction "length s" arbitrary: s rule: less_induct)
  case less
  show ?case
  proof (cases s)
    case Nil
    then show ?thesis by (simp add: parse_str.simps(2))
  next
    case (Cons c cs)
    define n where "n = rune_size (c # cs)"
    have n: "0 < n" "n \<le> Suc (length cs)"
      using less.prems rune_size_le [of "c # cs"] by (simp_all add: n_def Cons valid_utf8.simps(2))
    let ?d = "drop (n - 1) cs"
    have "valid_utf8 ?d" using less.prems by (simp add: n_def Cons valid_utf8.simps(2))
    then have "parse_str (Suc (length ?d)) (escape ?d @ quote # r) = Some (?d, r)"
      using less.hyps [of ?d] Cons by simp
    then have IH: "parse_str (Suc (length cs)) (escape ?d @ quote # r) = Some (?d, r)"
      by (rule parse_str_mono) simp
    have "drop n (c # cs) = ?d" using n(1) by (cases n) auto
    then have split: "take n (c # cs) @ ?d = c # cs" by (metis append_take_drop_id)
    show ?thesis
    proof (cases "in_byte 0 127 c")
      case True
      then have "n = 1" by (simp add: n_def)
      with parse_str_ascii [OF True IH] True Cons show ?thesis by (simp add: escape_ascii_Cons)
    next
      case False
      from parse_str_escape_rune [OF False n_def [symmetric] n(1) IH]
      show ?thesis unfolding split Cons by simp
    qed
  qed
qed

section \<open>Lemmas: a struct of strings through its encoding\<close>

lemma length_escape_ascii: "0 < length (escape_ascii c)"
  by (cases c rule: escape_ascii_cases) auto

lemma length_escape: "length s \<le> length (escape s)"
proof (induction "length s" arbitrary: s rule: less_induct)
  case less
  show ?case
  proof (cases s)
    case (Cons c cs)
    define n where "n = rune_size (c # cs)"
    have IH: "length (drop m cs) \<le> length (escape (drop m cs))" for m
      using less [of "drop m cs"] Cons by simp
    have le: "n \<le> Suc (length cs)" using rune_size_le [of "c # cs"] by (simp add: n_def)
    show ?thesis
    proof (cases "in_byte 0 127 c")
      case True
      then show ?thesis using IH [of 0] Cons length_escape_ascii [of c]
        by (cases "escape_ascii c") (simp_all add: escape_ascii_Cons)
    next
      case False
      show ?thesis
      proof (cases "n = 0")
        case True
        then have "escape (c # cs) = backslash # ''ufffd'' @ escape cs"
          using False by (simp add: escape.simps(2) n_def Let_def)
        then show ?thesis using IH [of 0] Cons by simp
      next
        case n: False
        then have n0: "0 < n" by simp
        have t: "length (take n (c # cs)) = n" using le by simp
        then have "take n (c # cs) = [x, y, z] \<Longrightarrow> n = 3" for x y z by auto
        with t have "n + length (escape (drop (n - 1) cs)) \<le> length (escape (c # cs))"
          unfolding escape_rune_Cons [OF False n_def [symmetric] n0] by auto
        then show ?thesis using IH [of "n - 1"] Cons le n0 by simp
      qed
    qed
  qed simp
qed

lemma skip_ws_quote [simp]: "skip_ws (quote # r) = quote # r"
  by (simp add: skip_ws_def is_ws_def quote_def)

lemma parse_str_enc:
  assumes "valid_utf8 s"
  shows "parse_str (Suc (length (escape s @ quote # r))) (escape s @ quote # r) = Some (s, r)"
  using parse_str_mono [OF parse_str_escape [OF assms]] length_escape [of s] by simp

lemma quote_not_special [simp]:
  "quote \<noteq> CHR ''{''" "quote \<noteq> CHR ''[''" "quote \<noteq> CHR ''}''" "quote \<noteq> CHR '']''"
  by (simp_all add: quote_def)

lemma parse_value_string [simp]:
  assumes "valid_utf8 v"
  shows "parse_value (Suc k) (enc_string v @ r) = Some (JStr v, r)"
  using parse_str_enc [OF assms, of r] by (simp add: enc_string_def)

text \<open>\<open>encodes e j\<close>: the text e is read as the value j, whatever follows it.\<close>

definition encodes :: "string \<Rightarrow> json \<Rightarrow> bool" where
  "encodes e j \<longleftrightarrow> e \<noteq> [] \<and> (\<forall>k r. length e \<le> k \<longrightarrow> parse_value k (e @ r) = Some (j, r))"

lemma encodes_string: "valid_utf8 v \<Longrightarrow> encodes (enc_string v) (JStr v)"
  unfolding encodes_def
proof (intro conjI allI impI)
  fix k r assume "valid_utf8 v" "length (enc_string v) \<le> k"
  moreover then obtain j where "k = Suc j" by (cases k) (auto simp: enc_string_def)
  ultimately show "parse_value k (enc_string v @ r) = Some (JStr v, r)" by (simp del: parse_value.simps)
qed (simp add: enc_string_def)

lemma encodes_value: "encodes e j \<Longrightarrow> length e \<le> k \<Longrightarrow> parse_value k (e @ r) = Some (j, r)"
  by (simp add: encodes_def)

lemma skip_ws_other: "\<not> is_ws c \<Longrightarrow> skip_ws (c # r) = c # r"
  by (simp add: skip_ws_def)

lemma not_ws [simp]:
  "\<not> is_ws (CHR ''}'')" "\<not> is_ws (CHR ''{'')" "\<not> is_ws (CHR '']'')" "\<not> is_ws (CHR ''['')"
  "\<not> is_ws (CHR '','')" "\<not> is_ws (CHR '':'')" "\<not> is_ws (CHR ''n'')" "\<not> is_ws quote"
  by (simp_all add: is_ws_def quote_def)

text \<open>Arrays of strings.\<close>

lemma parse_elems_enc:
  assumes "vs \<noteq> []" "\<forall>v \<in> set vs. valid_utf8 v" "length (Join (map enc_string vs) '','') < k"
  shows "parse_elems k (Join (map enc_string vs) '','' @ CHR '']'' # r) = Some (map JStr vs, r)"
  using assms
proof (induction vs arbitrary: k)
  case (Cons v vs)
  obtain j where k: "k = Suc j" using Cons.prems(3) by (cases k) auto
  show ?case
  proof (cases vs)
    case Nil
    then have "parse_value j (enc_string v @ CHR '']'' # r) = Some (JStr v, CHR '']'' # r)"
      using Cons.prems k by (intro encodes_value encodes_string) auto
    then show ?thesis using Nil by (simp add: k skip_ws_other)
  next
    case (Cons v' vs')
    let ?t = "Join (map enc_string vs) '','' @ CHR '']'' # r"
    have l: "Join (map enc_string (v # vs)) '','' = enc_string v @ CHR '','' # Join (map enc_string vs) '',''"
      by (simp add: Cons)
    have "parse_value j (enc_string v @ CHR '','' # ?t) = Some (JStr v, CHR '','' # ?t)"
      using Cons.prems k l by (intro encodes_value encodes_string) auto
    moreover have "parse_elems j ?t = Some (map JStr vs, r)"
      using Cons.prems Cons k l by (intro Cons.IH) auto
    ultimately show ?thesis unfolding l by (simp add: k skip_ws_other)
  qed
qed simp

lemma encodes_array:
  assumes "\<forall>v \<in> set vs. valid_utf8 v"
  shows "encodes (enc_strings (Some vs)) (JArr (map JStr vs))"
  unfolding encodes_def
proof (intro conjI allI impI)
  fix k r assume len: "length (enc_strings (Some vs)) \<le> k"
  then obtain j where k: "k = Suc j" by (cases k) (auto simp: enc_strings_def)
  show "parse_value k (enc_strings (Some vs) @ r) = Some (JArr (map JStr vs), r)"
  proof (cases vs)
    case Nil
    then show ?thesis by (simp add: enc_strings_def k skip_ws_other)
  next
    case (Cons v vs')
    have "parse_elems j (Join (map enc_string vs) '','' @ CHR '']'' # r) = Some (map JStr vs, r)"
      using assms len Cons k by (intro parse_elems_enc) (auto simp: enc_strings_def)
    moreover obtain u where "Join (map enc_string vs) '','' = quote # u"
      using Cons by (cases vs') (auto simp: enc_string_def)
    ultimately show ?thesis by (simp add: enc_strings_def k skip_ws_other)
  qed
qed (simp add: enc_strings_def)

lemma encodes_null: "encodes (enc_strings None) JNull"
  unfolding encodes_def
proof (intro conjI allI impI)
  fix k r assume "length (enc_strings None) \<le> k"
  then obtain j where "k = Suc j" by (cases k) (auto simp: enc_strings_def)
  then show "parse_value k (enc_strings None @ r) = Some (JNull, r)"
    by (simp add: enc_strings_def skip_ws_other quote_def HasPrefix_def)
qed (simp add: enc_strings_def)

text \<open>Members with their texts and values.\<close>

definition enc_members :: "(string \<times> string) list \<Rightarrow> string" where
  "enc_members ms = Join (map (\<lambda>(k, v). enc_string k @ '':'' @ v) ms) '',''"

lemma parse_one_member:
  assumes "valid_utf8 n" "encodes e j" "length e \<le> k" "c = CHR ''}'' \<or> c = CHR '',''"
  shows "parse_members (Suc k) (enc_string n @ '':'' @ e @ c # r) =
         (if c = CHR ''}'' then Some ([(n, j)], r)
          else map_option (\<lambda>(ms, t). ((n, j) # ms, t)) (parse_members k r))"
proof -
  have n: "parse_str (Suc (length (escape n @ quote # '':'' @ e @ c # r)))
             (escape n @ quote # '':'' @ e @ c # r) = Some (n, '':'' @ e @ c # r)"
    by (rule parse_str_enc [OF assms(1)])
  have v: "parse_value k (e @ c # r) = Some (j, c # r)" by (rule encodes_value [OF assms(2,3)])
  show ?thesis using n v assms(4) by (auto simp: enc_string_def [of n] skip_ws_other)
qed

lemma parse_members_enc:
  assumes "ms \<noteq> []" "\<forall>(n, e, j) \<in> set ms. valid_utf8 n \<and> encodes e j"
    "length (enc_members (map (\<lambda>(n, e, j). (n, e)) ms)) < k"
  shows "parse_members k (enc_members (map (\<lambda>(n, e, j). (n, e)) ms) @ CHR ''}'' # r) =
         Some (map (\<lambda>(n, e, j). (n, j)) ms, r)"
  using assms
proof (induction ms arbitrary: k)
  case (Cons m ms)
  obtain n e j where m: "m = (n, e, j)" by (cases m)
  obtain k' where k: "k = Suc k'" using Cons.prems(3) by (cases k) auto
  have ej: "valid_utf8 n" "encodes e j" using Cons.prems(2) m by auto
  show ?case
  proof (cases ms)
    case Nil
    then have "length e \<le> k'" using Cons.prems(3) by (simp add: enc_members_def m k)
    from parse_one_member [OF ej this] show ?thesis
      using Nil by (simp add: m k enc_members_def del: parse_members.simps)
  next
    case (Cons m' ms')
    let ?t = "enc_members (map (\<lambda>(n, e, j). (n, e)) ms)"
    have l: "enc_members (map (\<lambda>(n, e, j). (n, e)) (m # ms)) = enc_string n @ '':'' @ e @ CHR '','' # ?t"
      by (simp add: enc_members_def m Cons split: prod.splits)
    have "length e \<le> k'" "length ?t < k'" using Cons.prems(3) unfolding l by (simp_all add: k)
    moreover from this(2) have "parse_members k' (?t @ CHR ''}'' # r) = Some (map (\<lambda>(n, e, j). (n, j)) ms, r)"
      using Cons.prems Cons by (intro Cons.IH) auto
    ultimately show ?thesis
      using parse_one_member [OF ej, of k' "CHR '',''" "?t @ CHR ''}'' # r"] unfolding l
      by (simp add: m k del: parse_members.simps)
  qed
qed simp

lemma enc_members_shape:
  assumes "ms \<noteq> []" obtains r where "enc_members ms = quote # r"
  using assms by (cases ms; cases "tl ms") (auto simp: enc_members_def enc_string_def)

text \<open>A struct, encoded and parsed.\<close>

lemma parse_json_enc_struct:
  assumes "ms \<noteq> []" "\<forall>(n, e, j) \<in> set ms. valid_utf8 n \<and> encodes e j"
  shows "parse_json (enc_struct (map (\<lambda>(n, e, j). (n, e)) ms)) = Some (JObj (map (\<lambda>(n, e, j). (n, j)) ms))"
proof -
  let ?ms = "map (\<lambda>(n, e, j). (n, e)) ms"
  have e: "enc_struct ?ms = CHR ''{'' # enc_members ?ms @ CHR ''}'' # [CHR 10]"
    by (simp add: enc_struct_def enc_members_def)
  obtain r where r: "enc_members ?ms = quote # r" using assms(1) by (auto intro: enc_members_shape)
  have "parse_members k (enc_members ?ms @ CHR ''}'' # [CHR 10]) = Some (map (\<lambda>(n, e, j). (n, j)) ms, [CHR 10])"
    if "length (enc_members ?ms) < k" for k by (rule parse_members_enc [OF assms that])
  from this [of "2 * Suc (length (enc_members ?ms @ CHR ''}'' # [CHR 10])) + 1"] r
  show ?thesis unfolding e parse_json_def
    by (simp add: numeral_2_eq_2 skip_ws_other del: parse_members.simps)
qed

lemma valid_utf8_ascii: "list_all (in_byte 0 127) s \<Longrightarrow> valid_utf8 s"
  by (induction s) (auto simp: valid_utf8.simps(2))

end
