(* ===== verification/Riak.thy ===== *)
theory Riak
  imports Types Json
begin

text \<open>
  The client of the Riak store (\<open>proxy/riak.go\<close>). The interface \<open>RiakConn\<close> is a record of
  operations over the state \<open>'w\<close> of the outside world; \<open>riakConn\<close> implements it over the
  library \<open>riak-go-client\<close>, which is an argument: \<open>rk_build\<close> says whether a command builds
  without error, \<open>rk_execute\<close> runs it (None is an error). An error result is \<open>None\<close> or
  \<open>False\<close>; log lines are left out.
\<close>

section \<open>Credentials as bytes\<close>

record NetMapObj =
  nm_Pid :: string     \<comment> \<open>Id_s\<close>
  nm_PPid :: string    \<comment> \<open>Pid_s\<close>
  nm_Cidr :: string    \<comment> \<open>Cidr_s\<close>
  nm_Type :: string    \<comment> \<open>Type_s\<close>

definition NETMAP_PID :: string where "NETMAP_PID = ''Pid_s''"
definition NETMAP_ID :: string where "NETMAP_ID = ''Id_s''"
definition NETMAP_CIDR :: string where "NETMAP_CIDR = ''Cidr_s''"
definition NETMAP_TYPE :: string where "NETMAP_TYPE = ''Type_s''"

definition upd_NetMapObj :: "string \<Rightarrow> json \<Rightarrow> NetMapObj \<Rightarrow> NetMapObj \<times> bool" where
  "upd_NetMapObj f v o0 =
     (if f = NETMAP_ID then (let (s, ok) = dec_string v (nm_Pid o0) in (o0\<lparr>nm_Pid := s\<rparr>, ok))
      else if f = NETMAP_PID then (let (s, ok) = dec_string v (nm_PPid o0) in (o0\<lparr>nm_PPid := s\<rparr>, ok))
      else if f = NETMAP_CIDR then (let (s, ok) = dec_string v (nm_Cidr o0) in (o0\<lparr>nm_Cidr := s\<rparr>, ok))
      else (let (s, ok) = dec_string v (nm_Type o0) in (o0\<lparr>nm_Type := s\<rparr>, ok)))"

definition dec_NetMapObj :: "string \<Rightarrow> NetMapObj \<times> bool" where
  "dec_NetMapObj body =
     dec_struct [NETMAP_ID, NETMAP_PID, NETMAP_CIDR, NETMAP_TYPE] upd_NetMapObj
       \<lparr>nm_Pid = [], nm_PPid = [], nm_Cidr = [], nm_Type = []\<rparr> body"

definition InstanceCredFromBytes :: "string \<Rightarrow> InstanceCred option" where
  "InstanceCredFromBytes dat =
     (let (obj, ok) = dec_NetMapObj dat
      in if \<not> ok then None
         else (let inst = \<lparr>ic_Pid = nm_Pid obj, ic_PPid = nm_PPid obj, ic_Cidr = None, ic_Type = nm_Type obj\<rparr>
               in if nm_Cidr obj = [] then Some inst
                  else (case ParseCIDR (nm_Cidr obj) of
                          None \<Rightarrow> None
                        | Some cidr \<Rightarrow> Some (inst\<lparr>ic_Cidr := Some cidr\<rparr>))))"

text \<open>Encoding a struct of strings has no error.\<close>

definition cidr_text :: "IPNet option \<Rightarrow> string" where
  "cidr_text c = (case c of None \<Rightarrow> [] | Some n \<Rightarrow> IPNet_String n)"

definition InstanceCred_Bytes :: "InstanceCred \<Rightarrow> string" where
  "InstanceCred_Bytes i =
     enc_struct [(NETMAP_ID, enc_string (ic_Pid i)), (NETMAP_PID, enc_string (ic_PPid i)),
                 (NETMAP_CIDR, enc_string (cidr_text (ic_Cidr i))), (NETMAP_TYPE, enc_string (ic_Type i))]"

section \<open>The library\<close>

record riak_object =
  ro_ContentType :: string
  ro_Charset :: string
  ro_ContentEncoding :: string
  ro_BucketType :: string
  ro_Bucket :: string
  ro_Key :: string
  ro_Value :: string

datatype riak_cmd =
    StoreValue riak_object
  | FetchValue string string string           \<comment> \<open>bucket type, bucket, key\<close>
  | DeleteValue string string string
  | Search string string "string list"        \<comment> \<open>index, query, fields to return\<close>
  | FetchIndex string
  | StoreIndex string nat                     \<comment> \<open>name, timeout in seconds\<close>
  | StoreBucketTypeProps string string bool   \<comment> \<open>bucket type, index, search\<close>

record SearchDoc =
  sd_Bucket :: string
  sd_Key :: string
  sd_Fields :: "string \<rightharpoonup> string list"

datatype riak_resp =
    RespNone
  | RespValues "string list"
  | RespDocs "SearchDoc list"
  | RespIndexes "string list"

record 'w riak_client =
  rk_build :: "riak_cmd \<Rightarrow> bool"
  rk_execute :: "riak_cmd \<Rightarrow> 'w \<Rightarrow> riak_resp option \<times> 'w"

text \<open>Build, then Execute: an error of either is None.\<close>

definition run_cmd :: "('w, 'z) riak_client_scheme \<Rightarrow> riak_cmd \<Rightarrow> 'w \<Rightarrow> riak_resp option \<times> 'w" where
  "run_cmd R cmd w = (if rk_build R cmd then rk_execute R cmd w else (None, w))"

section \<open>The operations of riakConn\<close>

definition NetMapKey :: "int \<Rightarrow> int \<Rightarrow> string" where
  "NetMapKey lport rport = int_dec lport @ '':'' @ int_dec rport"

definition net_object :: "IP \<Rightarrow> int \<Rightarrow> int \<Rightarrow> InstanceCred \<Rightarrow> riak_object" where
  "net_object ip lport rport uuid =
     \<lparr>ro_ContentType = ''application/json'', ro_Charset = ''utf-8'', ro_ContentEncoding = ''utf-8'',
      ro_BucketType = RIAK_BUCKET_TYPE, ro_Bucket = IP_String ip, ro_Key = NetMapKey lport rport,
      ro_Value = InstanceCred_Bytes uuid\<rparr>"

definition checkIndex :: "('w, 'z) riak_client_scheme \<Rightarrow> string \<Rightarrow> 'w \<Rightarrow> bool \<times> 'w" where
  "checkIndex R indexName w0 =
     (if \<not> rk_build R (FetchIndex indexName) then (False, w0)
      else (case rk_execute R (FetchIndex indexName) w0 of (resp, w1) \<Rightarrow>
        (let exists_already = (case resp of Some (RespIndexes (n # _)) \<Rightarrow> n = indexName | _ \<Rightarrow> False)
         in if exists_already then (True, w1)
            else (case run_cmd R (StoreIndex indexName 10) w1 of
                    (None, w2) \<Rightarrow> (False, w2)
                  | (Some _, w2) \<Rightarrow>
                      (case run_cmd R (StoreBucketTypeProps RIAK_BUCKET_TYPE RIAK_INDEX_NAME True) w2 of
                         (r, w3) \<Rightarrow> (r \<noteq> None, w3))))))"

definition DelNetAllocation :: "('w, 'z) riak_client_scheme \<Rightarrow> IP \<Rightarrow> 'w \<Rightarrow> bool \<times> 'w" where
  "DelNetAllocation R ip w =
     (case run_cmd R (DeleteValue RIAK_BUCKET_TYPE CIDR_BUCKET (IP_String ip)) w of (r, w') \<Rightarrow> (r \<noteq> None, w'))"

definition PutNetIDMap :: "('w, 'z) riak_client_scheme \<Rightarrow> IP \<Rightarrow> int \<Rightarrow> int \<Rightarrow> InstanceCred \<Rightarrow> 'w \<Rightarrow> bool \<times> 'w" where
  "PutNetIDMap R ip lport rport uuid w =
     (case run_cmd R (StoreValue (net_object ip lport rport uuid)) w of (r, w') \<Rightarrow> (r \<noteq> None, w'))"

text \<open>None is an error; \<open>Some None\<close> is a nil credential without error.\<close>

definition GetNetIDMap :: "('w, 'z) riak_client_scheme \<Rightarrow> IP \<Rightarrow> int \<Rightarrow> int \<Rightarrow> 'w \<Rightarrow> InstanceCred option option \<times> 'w" where
  "GetNetIDMap R ip lport rport w =
     (case run_cmd R (FetchValue RIAK_BUCKET_TYPE (IP_String ip) (NetMapKey lport rport)) w of
        (Some (RespValues vs), w') \<Rightarrow>
          (case vs of [] \<Rightarrow> (Some None, w') | v # _ \<Rightarrow> (Some (InstanceCredFromBytes v), w'))
      | (_, w') \<Rightarrow> (None, w'))"

definition DelNetIDMap :: "('w, 'z) riak_client_scheme \<Rightarrow> IP \<Rightarrow> int \<Rightarrow> int \<Rightarrow> 'w \<Rightarrow> bool \<times> 'w" where
  "DelNetIDMap R ip lport rport w =
     (case run_cmd R (DeleteValue RIAK_BUCKET_TYPE (IP_String ip) (NetMapKey lport rport)) w of
        (r, w') \<Rightarrow> (r \<noteq> None, w'))"

text \<open>The first value of a field; a missing, nil or empty field has none.\<close>

definition first_field :: "SearchDoc \<Rightarrow> string \<Rightarrow> string option" where
  "first_field d f = (case sd_Fields d f of Some (x # _) \<Rightarrow> Some x | _ \<Rightarrow> None)"

definition genCachedInstance :: "SearchDoc \<Rightarrow> CachedInstance option" where
  "genCachedInstance d =
     (case Sscanf_pair (sd_Key d) of
        None \<Rightarrow> None
      | Some (lport, rport) \<Rightarrow>
          (case first_field d NETMAP_PID of
             None \<Rightarrow> None
           | Some pid \<Rightarrow>
               (case first_field d NETMAP_ID of
                  None \<Rightarrow> None
                | Some iid \<Rightarrow>
                    (let typ = (case first_field d NETMAP_TYPE of None \<Rightarrow> NORMAL_INSTANCE_TYPE | Some t \<Rightarrow> t);
                         cidr = (case first_field d NETMAP_CIDR of
                                   None \<Rightarrow> None
                                 | Some c \<Rightarrow> if c = [] then None else ParseCIDR c);
                         ip = ParseIP (sd_Bucket d)
                     in if ip = nil_IP then None
                        else Some \<lparr>ci_Ip = ip, ci_Lport = lport, ci_Rport = rport,
                                   ci_ID = \<lparr>ic_Pid = iid, ic_PPid = pid, ic_Cidr = cidr, ic_Type = typ\<rparr>\<rparr>))))"

definition search_fields :: "string list" where
  "search_fields = [QUERY_KEY, NETMAP_PID, NETMAP_ID, NETMAP_CIDR, NETMAP_TYPE, QUERY_BUCKET]"

definition net_query :: "string \<Rightarrow> string \<Rightarrow> string" where
  "net_query field v = field @ '':'' @ v @ '' AND '' @ QUERY_BUCKET_TYPE @ '':'' @ RIAK_BUCKET_TYPE"

text \<open>The loop over the documents of a search keeps those that make an instance.\<close>

fun gen_instances :: "SearchDoc list \<Rightarrow> CachedInstance list" where
  "gen_instances [] = []"
| "gen_instances (d # ds) =
     (case genCachedInstance d of None \<Rightarrow> gen_instances ds | Some inst \<Rightarrow> inst # gen_instances ds)"

definition GetAllNetID :: "('w, 'z) riak_client_scheme \<Rightarrow> IP \<Rightarrow> 'w \<Rightarrow> CachedInstance list option \<times> 'w" where
  "GetAllNetID R ip w =
     (case run_cmd R (Search RIAK_INDEX_NAME (net_query QUERY_BUCKET (IP_String ip)) search_fields) w of
        (Some (RespDocs ds), w') \<Rightarrow> (Some (gen_instances ds), w')
      | (_, w') \<Rightarrow> (None, w'))"

definition SearchIDNet :: "('w, 'z) riak_client_scheme \<Rightarrow> string \<Rightarrow> 'w \<Rightarrow> CachedInstance list option \<times> 'w" where
  "SearchIDNet R uuid w =
     (case run_cmd R (Search RIAK_INDEX_NAME (net_query NETMAP_ID uuid) search_fields) w of
        (Some (RespDocs ds), w') \<Rightarrow> (Some (gen_instances ds), w')
      | (_, w') \<Rightarrow> (None, w'))"

section \<open>The connection\<close>

text \<open>
  The life of the client: \<open>rk_new\<close> makes a client for some addresses and \<open>rk_stop\<close> stops it
  (False is an error). The state of riakConn is its addresses and whether it has a client.
\<close>

record 'w riak_library = "'w riak_client" +
  rk_new :: "string list \<Rightarrow> 'w \<Rightarrow> bool \<times> 'w"
  rk_stop :: "'w \<Rightarrow> bool \<times> 'w"

record conn_state =
  rs_Addrs :: "string list"
  rs_Client :: bool

definition NewRiakConn :: conn_state where
  "NewRiakConn = \<lparr>rs_Addrs = [], rs_Client = False\<rparr>"

definition Connect :: "('w, 'z) riak_library_scheme \<Rightarrow> string list \<Rightarrow> conn_state \<Rightarrow> 'w \<Rightarrow> bool \<times> conn_state \<times> 'w" where
  "Connect R addrs c w0 =
     (case (if rs_Client c then rk_stop R w0 else (True, w0)) of
        (False, w1) \<Rightarrow> (False, c, w1)
      | (True, w1) \<Rightarrow>
          (case rk_new R addrs w1 of
             (False, w2) \<Rightarrow> (False, c, w2)
           | (True, w2) \<Rightarrow>
               (case checkIndex R RIAK_INDEX_NAME w2 of
                  (ok, w3) \<Rightarrow> (ok, \<lparr>rs_Addrs = addrs, rs_Client = True\<rparr>, w3))))"

definition Shutdown :: "('w, 'z) riak_library_scheme \<Rightarrow> conn_state \<Rightarrow> 'w \<Rightarrow> bool \<times> 'w" where
  "Shutdown R c w = (if \<not> rs_Client c then (False, w) else rk_stop R w)"

section \<open>The interface RiakConn\<close>

text \<open>The operations of the interface the cache calls.\<close>

record 'w RiakConn =
  rc_PutNetIDMap :: "IP \<Rightarrow> int \<Rightarrow> int \<Rightarrow> InstanceCred \<Rightarrow> 'w \<Rightarrow> bool \<times> 'w"
  rc_GetNetIDMap :: "IP \<Rightarrow> int \<Rightarrow> int \<Rightarrow> 'w \<Rightarrow> InstanceCred option option \<times> 'w"
  rc_DelNetIDMap :: "IP \<Rightarrow> int \<Rightarrow> int \<Rightarrow> 'w \<Rightarrow> bool \<times> 'w"
  rc_GetAllNetID :: "IP \<Rightarrow> 'w \<Rightarrow> CachedInstance list option \<times> 'w"
  rc_SearchIDNet :: "string \<Rightarrow> 'w \<Rightarrow> CachedInstance list option \<times> 'w"

definition riakConn :: "('w, 'z) riak_client_scheme \<Rightarrow> 'w RiakConn" where
  "riakConn R =
     \<lparr>rc_PutNetIDMap = PutNetIDMap R, rc_GetNetIDMap = GetNetIDMap R, rc_DelNetIDMap = DelNetIDMap R,
      rc_GetAllNetID = GetAllNetID R, rc_SearchIDNet = SearchIDNet R\<rparr>"

end
