(* ===== verification/Cache.thy ===== *)
theory Cache
  imports Pmap Riak
begin

text \<open>
  The instance cache of \<open>proxy/cache.go\<close>: a principal map in front of the Riak store, with
  write-through puts and reloads on a miss. Every operation holds the cache's mutex (also
  when it panics: the unlock is deferred), so an operation is one step on the pair of the
  map and the outside world. The interval tree \<open>T\<close> and the connection \<open>conn\<close> (an
  implementation of the interface RiakConn) are arguments.
\<close>

section \<open>State\<close>

record ('t, 'w) cstate =
  cs_pmap :: "'t Pmap"
  cs_world :: 'w

text \<open>A program on the map, run on the state of the cache.\<close>

definition on_pmap :: "('t Pmap, 'a) go \<Rightarrow> (('t, 'w) cstate, 'a) go" where
  "on_pmap f s = (case f (cs_pmap s) of (r, m) \<Rightarrow> (r, s\<lparr>cs_pmap := m\<rparr>))"

definition NewCache :: "'w \<Rightarrow> ('t, 'w) cstate" where
  "NewCache w = \<lparr>cs_pmap = NewPmap, cs_world = w\<rparr>"

section \<open>Operations\<close>

definition Copy :: "CachedInstance \<Rightarrow> CachedInstance" where
  "Copy inst =
     \<lparr>ci_Ip = ci_Ip inst, ci_Lport = ci_Lport inst, ci_Rport = ci_Rport inst,
      ci_ID = \<lparr>ic_Pid = ic_Pid (ci_ID inst), ic_PPid = ic_PPid (ci_ID inst),
               ic_Cidr = ic_Cidr (ci_ID inst), ic_Type = ic_Type (ci_ID inst)\<rparr>\<rparr>"

text \<open>The loop of reloadCache.\<close>

fun put_all :: "('t, 'z) itree_scheme \<Rightarrow> CachedInstance list \<Rightarrow> ('t Pmap, unit) go" where
  "put_all T [] = go_return ()"
| "put_all T (inst # insts) = go_bind (PutCachedInstance T inst) (\<lambda>_. put_all T insts)"

definition reloadCache :: "('t, 'z) itree_scheme \<Rightarrow> ('w, 'y) RiakConn_scheme \<Rightarrow> IP \<Rightarrow> (('t, 'w) cstate, int) go" where
  "reloadCache T conn ip s0 =
     (case rc_GetAllNetID conn ip (cs_world s0) of
        (None, w) \<Rightarrow> (Ret StatusInternalServerError, s0\<lparr>cs_world := w\<rparr>)
      | (Some pmaps, w) \<Rightarrow>
          go_bind (on_pmap (put_all T pmaps)) (\<lambda>_. go_return StatusOK) (s0\<lparr>cs_world := w\<rparr>))"

definition reloadUUID :: "('t, 'z) itree_scheme \<Rightarrow> ('w, 'y) RiakConn_scheme \<Rightarrow> string
    \<Rightarrow> (('t, 'w) cstate, CachedInstance option \<times> int) go" where
  "reloadUUID T conn uuid s0 =
     (case rc_SearchIDNet conn uuid (cs_world s0) of
        (None, w) \<Rightarrow> (Ret (None, StatusInternalServerError), s0\<lparr>cs_world := w\<rparr>)
      | (Some [], w) \<Rightarrow> (Ret (None, StatusNotFound), s0\<lparr>cs_world := w\<rparr>)
      | (Some (p # _), w) \<Rightarrow>
          go_bind (reloadCache T conn (ci_Ip p)) (\<lambda>status. go_return (Some p, status)) (s0\<lparr>cs_world := w\<rparr>))"

text \<open>
  The end of GetInstanceFromNetMap: the instance of the index found. GetCachedInstance
  returns nil when the id is not in PidMap, and Copy then dereferences it.
\<close>

definition copy_indexed :: "nat \<Rightarrow> (('t, 'w) cstate, CachedInstance option \<times> int) go" where
  "copy_indexed r s =
     (case GetCachedInstance (cs_pmap s) (pi_P (pm_cells (cs_pmap s) ! r)) of
        None \<Rightarrow> (Panic, s)
      | Some result \<Rightarrow> (Ret (Some (Copy result), StatusOK), s))"

definition GetInstanceFromNetMap :: "('t, 'z) itree_scheme \<Rightarrow> ('w, 'y) RiakConn_scheme \<Rightarrow> IP \<Rightarrow> int
    \<Rightarrow> (('t, 'w) cstate, CachedInstance option \<times> int) go" where
  "GetInstanceFromNetMap T conn ip port s =
     (let ipstr = IP_String ip
      in case GetIndex T (cs_pmap s) ipstr port of
           Inl err \<Rightarrow> (Ret (None, StatusInternalServerError), s)
         | Inr (Some r) \<Rightarrow> copy_indexed r s
         | Inr None \<Rightarrow>
             go_bind (reloadCache T conn ip)
               (\<lambda>status s'.
                  if status \<noteq> StatusOK then (Ret (None, status), s')
                  else (case GetIndex T (cs_pmap s') ipstr port of
                          Inl err \<Rightarrow> (Ret (None, StatusInternalServerError), s')
                        | Inr None \<Rightarrow> (Ret (None, StatusNotFound), s')
                        | Inr (Some r) \<Rightarrow> copy_indexed r s')) s)"

definition GetInstanceFromID :: "('t, 'z) itree_scheme \<Rightarrow> ('w, 'y) RiakConn_scheme \<Rightarrow> string
    \<Rightarrow> (('t, 'w) cstate, CachedInstance option \<times> int) go" where
  "GetInstanceFromID T conn pid s =
     (case GetCachedInstance (cs_pmap s) pid of
        Some inst \<Rightarrow> (Ret (Some inst, StatusOK), s)
      | None \<Rightarrow>
          go_bind (reloadUUID T conn pid)
            (\<lambda>(inst, status). if status \<noteq> StatusOK then go_return (None, status)
                              else go_return (inst, StatusOK)) s)"

definition PutInstance :: "('t, 'z) itree_scheme \<Rightarrow> ('w, 'y) RiakConn_scheme \<Rightarrow> CachedInstance
    \<Rightarrow> (('t, 'w) cstate, int) go" where
  "PutInstance T conn inst =
     go_bind (on_pmap (PutCachedInstance T inst))
       (\<lambda>_ s. case rc_PutNetIDMap conn (ci_Ip inst) (ci_Lport inst) (ci_Rport inst) (ci_ID inst) (cs_world s) of
                (ok, w) \<Rightarrow> (Ret (if ok then StatusOK else StatusInternalServerError), s\<lparr>cs_world := w\<rparr>))"

definition DelInstance :: "('t, 'z) itree_scheme \<Rightarrow> ('w, 'y) RiakConn_scheme \<Rightarrow> IP \<Rightarrow> int \<Rightarrow> int \<Rightarrow> string
    \<Rightarrow> (('t, 'w) cstate, int) go" where
  "DelInstance T conn ip lport rport pid =
     go_bind (on_pmap (DelCachedInstanceAlt T ip lport rport pid))
       (\<lambda>_ s. case rc_DelNetIDMap conn ip lport rport (cs_world s) of
                (ok, w) \<Rightarrow> (Ret (if ok then StatusOK else StatusInternalServerError), s\<lparr>cs_world := w\<rparr>))"

section \<open>The invariant\<close>

text \<open>
  A cache is sound when its map is well formed and every index of the trees has its instance.
  Puts and reloads keep it, whatever the Riak store answers.
\<close>

definition cache_inv :: "('t, 'z) itree_scheme \<Rightarrow> ('t, 'w) cstate \<Rightarrow> bool" where
  "cache_inv T s \<longleftrightarrow> pmap_wf T (cs_pmap s) \<and> pmap_covered T (cs_pmap s)"

lemma NewCache_inv [simp]: "cache_inv T (NewCache w)"
  by (simp add: cache_inv_def NewCache_def)

lemma cache_inv_world [simp]: "cache_inv T (s\<lparr>cs_world := w\<rparr>) = cache_inv T s"
  by (simp add: cache_inv_def)

lemma Copy_id [simp]: "Copy inst = inst"
  by (simp add: Copy_def)

text \<open>
  A property of the cache that putting an instance in the map and asking the backend keep is
  kept by every lookup, since a reload only puts what the backend returns; if writing to the
  backend keeps it too, PutInstance does.
\<close>

locale lookup_property =
  fixes T :: "('t, 'z) itree_scheme" and conn :: "('w, 'y) RiakConn_scheme" and J :: "('t, 'w) cstate \<Rightarrow> bool"
  assumes put_map: "keeps J (on_pmap (PutCachedInstance T inst))"
    and ask_ip: "J s \<Longrightarrow> J (s\<lparr>cs_world := snd (rc_GetAllNetID conn ip (cs_world s))\<rparr>)"
    and ask_id: "J s \<Longrightarrow> J (s\<lparr>cs_world := snd (rc_SearchIDNet conn pid (cs_world s))\<rparr>)"
begin

lemma put_all_keeps: "keeps J (on_pmap (put_all T insts))"
proof (induction insts)
  case Nil
  show ?case by (rule keepsI) (simp add: on_pmap_def)
next
  case (Cons inst insts)
  have eq: "on_pmap (put_all T (inst # insts)) =
      go_bind (on_pmap (PutCachedInstance T inst)) (\<lambda>_. on_pmap (put_all T insts))"
    by (rule ext) (auto simp: on_pmap_def go_bind_def split: prod.splits outcome.splits)
  show ?case unfolding eq by (intro keeps_bind put_map Cons)
qed

lemma reloadCache_keeps: "keeps J (reloadCache T conn ip)"
proof (rule keepsI)
  fix s x s' assume "J s" and run: "reloadCache T conn ip s = (x, s')"
  obtain r w where q: "rc_GetAllNetID conn ip (cs_world s) = (r, w)" by fastforce
  with ask_ip [OF \<open>J s\<close>] have "J (s\<lparr>cs_world := w\<rparr>)" by (metis snd_conv)
  moreover have "keeps J (go_bind (on_pmap (put_all T insts)) (\<lambda>_. go_return StatusOK))" for insts
    by (intro go_intro put_all_keeps)
  ultimately show "J s'" using run q by (auto simp: reloadCache_def split: option.splits dest: keepsD)
qed

lemma reloadUUID_keeps: "keeps J (reloadUUID T conn pid)"
proof (rule keepsI)
  fix s x s' assume "J s" and run: "reloadUUID T conn pid s = (x, s')"
  obtain r w where q: "rc_SearchIDNet conn pid (cs_world s) = (r, w)" by fastforce
  with ask_id [OF \<open>J s\<close>] have "J (s\<lparr>cs_world := w\<rparr>)" by (metis snd_conv)
  moreover have "keeps J (go_bind (reloadCache T conn (ci_Ip p)) (\<lambda>status. go_return (Some p, status)))" for p :: CachedInstance
    by (intro go_intro reloadCache_keeps)
  ultimately show "J s'" using run q by (auto simp: reloadUUID_def split: option.splits list.splits dest: keepsD)
qed

lemma copy_indexed_keeps: "keeps J (copy_indexed r)"
  by (rule keepsI) (auto simp: copy_indexed_def split: option.splits)

lemma GetInstanceFromNetMap_keeps: "keeps J (GetInstanceFromNetMap T conn ip port)"
proof (rule keepsI)
  fix s x s'
  assume s: "J s" and run: "GetInstanceFromNetMap T conn ip port s = (x, s')"
  obtain y s1 where re: "reloadCache T conn ip s = (y, s1)" by fastforce
  have "J s1" using keepsD [OF reloadCache_keeps s re] .
  with run s show "J s'"
    by (auto simp: GetInstanceFromNetMap_def go_bind_def re Let_def split: sum.splits option.splits outcome.splits if_splits
        dest: keepsD [OF copy_indexed_keeps])
qed

lemma GetInstanceFromID_keeps: "keeps J (GetInstanceFromID T conn pid)"
proof (rule keepsI)
  fix s x s'
  assume s: "J s" and run: "GetInstanceFromID T conn pid s = (x, s')"
  have "keeps J (go_bind (reloadUUID T conn pid)
      (\<lambda>(inst, status). if status \<noteq> StatusOK then go_return (None, status) else go_return (inst, StatusOK)))"
    by (intro go_intro reloadUUID_keeps)
  with run s show "J s'"
    by (auto simp: GetInstanceFromID_def split: option.splits dest: keepsD)
qed

end

locale write_property = lookup_property +
  assumes tell: "J s \<Longrightarrow> J (s\<lparr>cs_world := snd (rc_PutNetIDMap conn ip l r c (cs_world s))\<rparr>)"
begin

lemma PutInstance_keeps: "keeps J (PutInstance T conn inst)"
proof -
  have "keeps J (\<lambda>s. case rc_PutNetIDMap conn ip l r c (cs_world s) of
      (ok, w) \<Rightarrow> (Ret (if ok then StatusOK else StatusInternalServerError), s\<lparr>cs_world := w\<rparr>))" for ip l r c
  proof (rule keepsI)
    fix s x s' assume "J s"
      and "(case rc_PutNetIDMap conn ip l r c (cs_world s) of
        (ok, w) \<Rightarrow> (Ret (if ok then StatusOK else StatusInternalServerError), s\<lparr>cs_world := w\<rparr>)) = (x, s')"
    with tell [of s ip l r c] show "J s'" by (auto split: prod.splits)
  qed
  then show ?thesis unfolding PutInstance_def by (intro go_intro put_map)
qed

end

lemma on_pmap_keeps: "keeps J f \<Longrightarrow> keeps (\<lambda>s. J (cs_pmap s)) (on_pmap f)"
  by (rule keepsI) (auto simp: on_pmap_def dest: keepsD split: prod.splits)

lemma on_pmap_world: "keeps (\<lambda>s. P (cs_world s)) (on_pmap f)"
  by (rule keepsI) (auto simp: on_pmap_def split: prod.splits)

lemma PutCachedInstance_keeps:
  "keeps (\<lambda>m. itree_ok T \<longrightarrow> pmap_wf T m \<and> pmap_covered T m) (PutCachedInstance T inst)"
  "keeps (\<lambda>m. itree_ok T \<longrightarrow> pmap_wf T m) (PutCachedInstance T inst)"
  by (auto intro!: keepsI dest: PutCachedInstance_inv PutCachedInstance_wf)

interpretation sound: write_property T conn "\<lambda>s. itree_ok T \<longrightarrow> pmap_wf T (cs_pmap s) \<and> pmap_covered T (cs_pmap s)"
  for T conn
  by unfold_locales (simp_all add: on_pmap_keeps [OF PutCachedInstance_keeps(1)])

interpretation wf: write_property T conn "\<lambda>s. itree_ok T \<longrightarrow> pmap_wf T (cs_pmap s)" for T conn
  by unfold_locales (simp_all add: on_pmap_keeps [OF PutCachedInstance_keeps(2)])

lemma reloadCache_inv:
  "itree_ok T \<Longrightarrow> cache_inv T s \<Longrightarrow> reloadCache T conn ip s = (x, s') \<Longrightarrow> cache_inv T s'"
  using keepsD [OF sound.reloadCache_keeps, of T s conn ip x s'] by (simp add: cache_inv_def)

text \<open>Under the invariant an index always has its instance: the nil dereference is not reached.\<close>

lemma copy_indexed_covered:
  assumes inv: "cache_inv T s" and ir: "(i, r) \<in> pm_tree T (cs_pmap s) ip"
  obtains inst where "copy_indexed r s = (Ret (Some inst, StatusOK), s)"
    and "pm_PidMap (cs_pmap s) (pi_P (pm_cells (cs_pmap s) ! r)) = Some inst"
proof -
  from inv ir obtain inst where "pm_PidMap (cs_pmap s) (pi_P (pm_cells (cs_pmap s) ! r)) = Some inst"
    unfolding cache_inv_def pmap_covered_def by blast
  then show ?thesis using that by (simp add: copy_indexed_def GetCachedInstance_def)
qed

section \<open>What a lookup by address returns\<close>

text \<open>
  A backend whose instances are IPv4: PutNetIDMap writes no other, and ComputeID panics on
  an IPv6 address.
\<close>

definition conn_v4 :: "('w, 'y) RiakConn_scheme \<Rightarrow> bool" where
  "conn_v4 conn \<longleftrightarrow> (\<forall>ip w insts. fst (rc_GetAllNetID conn ip w) = Some insts \<longrightarrow>
     (\<forall>inst \<in> set insts. is_v4 (ci_Ip inst)))"

lemma put_all_v4:
  assumes "\<forall>inst \<in> set insts. is_v4 (ci_Ip inst)"
  shows "fst (put_all T insts m) = Ret ()"
  using assms
proof (induction insts arbitrary: m)
  case (Cons inst insts)
  from Cons.prems obtain cid where "inst_cid inst = Some cid" using inst_cid_v4 [of inst] by auto
  with Cons show ?case by (simp add: PutCachedInstance_Ret)
qed simp

lemma reloadCache_v4:
  assumes "conn_v4 conn"
  obtains st s' where "reloadCache T conn ip s = (Ret st, s')" "st = StatusOK \<or> st = StatusInternalServerError"
proof (cases "rc_GetAllNetID conn ip (cs_world s)")
  case (Pair r w)
  show ?thesis
  proof (cases r)
    case None
    with Pair that show ?thesis by (simp add: reloadCache_def)
  next
    case (Some insts)
    with assms Pair have v4: "\<forall>inst \<in> set insts. is_v4 (ci_Ip inst)"
      unfolding conn_v4_def by (metis fst_conv)
    obtain x m where pa: "put_all T insts (cs_pmap s) = (x, m)" by fastforce
    with put_all_v4 [OF v4, of T "cs_pmap s"] have "x = Ret ()" by simp
    with Pair Some pa that show ?thesis by (simp add: reloadCache_def on_pmap_def go_bind_def)
  qed
qed

text \<open>
  The specification of a lookup, hit or miss: it never panics, keeps the invariant, and a
  result is the instance of an index of the address that contains the port and has no
  other such index strictly inside it.
\<close>

definition innermost_instance :: "('t, 'z) itree_scheme \<Rightarrow> 't Pmap \<Rightarrow> string \<Rightarrow> int \<Rightarrow> CachedInstance \<Rightarrow> bool" where
  "innermost_instance T m ip port inst \<longleftrightarrow>
     (\<exists>i r. (i, r) \<in> pm_tree T m ip \<and> contains_port i port \<and>
        (\<forall>e \<in> pm_tree T m ip. contains_port (fst e) port \<longrightarrow> \<not> strictly_inside (fst e) i) \<and>
        pm_PidMap m (pi_P (pm_cells m ! r)) = Some inst)"

lemma lookup_index:
  assumes "itree_ok T" "cache_inv T s" "is_goint (port + 1)"
  obtains (miss) "GetIndex T (cs_pmap s) ip port = Inr None"
      "\<forall>e \<in> pm_tree T (cs_pmap s) ip. \<not> contains_port (fst e) port"
  | (hit) r inst where "GetIndex T (cs_pmap s) ip port = Inr (Some r)"
      "copy_indexed r s = (Ret (Some inst, StatusOK), s)"
      "innermost_instance T (cs_pmap s) ip port inst"
proof -
  from assms have wf: "pmap_wf T (cs_pmap s)" by (simp add: cache_inv_def)
  from GetIndex_spec [OF assms(1) wf assms(3), of ip] show ?thesis
  proof (elim disjE exE conjE)
    assume "GetIndex T (cs_pmap s) ip port = Inr None"
      "\<forall>e \<in> pm_tree T (cs_pmap s) ip. \<not> contains_port (fst e) port"
    then show ?thesis by (rule miss)
  next
    fix i r assume g: "GetIndex T (cs_pmap s) ip port = Inr (Some r)" and mem: "(i, r) \<in> pm_tree T (cs_pmap s) ip"
      and c: "contains_port i port"
      "\<forall>e \<in> pm_tree T (cs_pmap s) ip. contains_port (fst e) port \<longrightarrow> \<not> strictly_inside (fst e) i"
    from copy_indexed_covered [OF assms(2) mem] obtain inst where
      "copy_indexed r s = (Ret (Some inst, StatusOK), s)"
      "pm_PidMap (cs_pmap s) (pi_P (pm_cells (cs_pmap s) ! r)) = Some inst" .
    with g mem c show ?thesis by (intro hit) (auto simp: innermost_instance_def)
  qed
qed

lemma GetInstanceFromNetMap_spec:
  assumes T: "itree_ok T" and inv: "cache_inv T s" and p: "is_goint (port + 1)" and v4: "conn_v4 conn"
  obtains res st s' where "GetInstanceFromNetMap T conn ip port s = (Ret (res, st), s')"
    and "cache_inv T s'"
    and "st = StatusOK \<Longrightarrow> \<exists>inst. res = Some inst \<and> innermost_instance T (cs_pmap s') (IP_String ip) port inst"
    and "st = StatusNotFound \<Longrightarrow> \<forall>e \<in> pm_tree T (cs_pmap s') (IP_String ip). \<not> contains_port (fst e) port"
    and "st = StatusOK \<or> res = None"
proof (cases rule: lookup_index [OF T inv p, of "IP_String ip", case_names miss hit])
  case (hit r inst)
  then show ?thesis using that [of "Some inst" StatusOK s] inv by (simp add: GetInstanceFromNetMap_def)
next
  case miss
  obtain st1 s1 where re: "reloadCache T conn ip s = (Ret st1, s1)" "st1 = StatusOK \<or> st1 = StatusInternalServerError"
    using reloadCache_v4 [OF v4] .
  note inv1 = reloadCache_inv [OF T inv re(1)]
  show ?thesis
  proof (cases "st1 = StatusOK")
    case False
    then show ?thesis using that [of None st1 s1] miss re inv1 by (simp add: GetInstanceFromNetMap_def)
  next
    case True
    show ?thesis
    proof (cases rule: lookup_index [OF T inv1 p, of "IP_String ip", case_names miss1 hit1])
      case miss1
      then show ?thesis using that [of None StatusNotFound s1] miss re True inv1
        by (simp add: GetInstanceFromNetMap_def)
    next
      case (hit1 r inst)
      then show ?thesis using that [of "Some inst" StatusOK s1] miss re True inv1
        by (simp add: GetInstanceFromNetMap_def)
    qed
  qed
qed

section \<open>Puts and deletions\<close>

lemma PutInstance_v4:
  assumes "inst_cid inst = Some cid"
  shows "\<exists>st w. PutInstance T conn inst s =
           (Ret st, s\<lparr>cs_pmap := put_result T inst cid (cs_pmap s), cs_world := w\<rparr>) \<and>
         (st = StatusOK \<or> st = StatusInternalServerError)"
  using assms by (auto simp: PutInstance_def go_bind_def on_pmap_def PutCachedInstance_Ret split: prod.splits)

lemma PutInstance_inv:
  "itree_ok T \<Longrightarrow> cache_inv T s \<Longrightarrow> PutInstance T conn inst s = (x, s') \<Longrightarrow> cache_inv T s'"
  using keepsD [OF sound.PutInstance_keeps, of T s conn inst x s'] by (simp add: cache_inv_def)

lemma DelInstance_v4:
  assumes "is_v4 ip"
  obtains st m w where "DelInstance T conn ip l r pid s = (Ret st, s\<lparr>cs_pmap := m, cs_world := w\<rparr>)"
    and "DelCachedInstanceAlt T ip l r pid (cs_pmap s) = (Ret (), m)"
    and "st = StatusOK \<or> st = StatusInternalServerError"
proof -
  obtain m where m: "DelCachedInstanceAlt T ip l r pid (cs_pmap s) = (Ret (), m)"
    using DelCachedInstanceAlt_v4 [OF assms] .
  have "\<exists>st w. DelInstance T conn ip l r pid s = (Ret st, s\<lparr>cs_pmap := m, cs_world := w\<rparr>) \<and>
      (st = StatusOK \<or> st = StatusInternalServerError)"
    using m by (auto simp: DelInstance_def go_bind_def on_pmap_def split: prod.splits)
  with m that show ?thesis by blast
qed



lemma GetInstanceFromNetMap_status:
  assumes "GetInstanceFromNetMap T conn ip port s = (Ret (res, st), s')"
  shows "st = StatusOK \<or> st = StatusNotFound \<or> st = StatusInternalServerError"
  using assms
  by (auto simp: GetInstanceFromNetMap_def reloadCache_def copy_indexed_def go_bind_def Let_def
      split: sum.splits option.splits outcome.splits if_splits prod.splits)

section \<open>The contract of the instance cache\<close>

text \<open>
  What the handlers rely on: an instance that was registered is known under its id, and a known
  instance is returned without touching the cache or the store. \<open>ok\<close> are the instances that can
  be registered.
\<close>

locale instance_cache =
  fixes put :: "'i \<Rightarrow> 's \<Rightarrow> int outcome \<times> 's"
    and get :: "'k \<Rightarrow> 's \<Rightarrow> ('i option \<times> int) outcome \<times> 's"
    and known :: "'s \<Rightarrow> 'k \<Rightarrow> 'i option"
    and key :: "'i \<Rightarrow> 'k"
    and ok :: "'i \<Rightarrow> bool"
  assumes put_returns: "ok i \<Longrightarrow> fst (put i s) \<noteq> Panic"
    and put_known: "ok i \<Longrightarrow> known (snd (put i s)) k = (if k = key i then Some i else known s k)"
    and get_known: "known s k = Some i \<Longrightarrow> get k s = (Ret (Some i, StatusOK), s)"
begin

text \<open>A sequence of registrations.\<close>

definition put_list :: "'s \<Rightarrow> 'i list \<Rightarrow> 's" where
  "put_list s is = foldl (\<lambda>s i. snd (put i s)) s is"

lemma put_list_known:
  "\<forall>i \<in> set is. ok i \<Longrightarrow>
   known (put_list s is) k = (case List.find (\<lambda>i. key i = k) (rev is) of Some i \<Rightarrow> Some i | None \<Rightarrow> known s k)"
proof (induction "is" arbitrary: s)
  case (Cons i "is")
  have find_app: "List.find P (xs @ [x]) =
      (case List.find P xs of Some y \<Rightarrow> Some y | None \<Rightarrow> if P x then Some x else None)" for P and xs :: "'i list" and x
    by (induction xs) auto
  from Cons show ?case by (auto simp: put_list_def put_known find_app split: option.splits)
qed (simp add: put_list_def)

lemma get_after_puts:
  assumes "\<forall>i \<in> set is. ok i" and "List.find (\<lambda>i. key i = k) (rev is) = Some i"
  shows "get k (put_list s is) = (Ret (Some i, StatusOK), put_list s is)"
  using assms by (intro get_known) (simp add: put_list_known)

lemma find_distinct:
  assumes "distinct (map key is)" and "i \<in> set is"
  shows "List.find (\<lambda>j. key j = key i) (rev is) = Some i"
proof -
  have "distinct (map key xs) \<Longrightarrow> i \<in> set xs \<Longrightarrow> List.find (\<lambda>j. key j = key i) xs = Some i" for xs
    by (induction xs) auto
  from this [of "rev is"] assms show ?thesis by (simp add: rev_map [symmetric])
qed

end

definition known_instance :: "('t, 'w) cstate \<Rightarrow> string \<Rightarrow> CachedInstance option" where
  "known_instance s pid = pm_PidMap (cs_pmap s) pid"

definition v4_instance :: "CachedInstance \<Rightarrow> bool" where
  "v4_instance inst \<longleftrightarrow> is_v4 (ci_Ip inst)"

interpretation ic: instance_cache "PutInstance T conn" "GetInstanceFromID T conn" known_instance inst_pid v4_instance
  for T :: "'t itree" and conn :: "'w RiakConn"
proof
  fix i and s :: "('t, 'w) cstate" assume "v4_instance i"
  then obtain cid where cid: "inst_cid i = Some cid" using inst_cid_v4 by (auto simp: v4_instance_def)
  from PutInstance_v4 [OF this, of T conn s] obtain st w where
    put: "PutInstance T conn i s = (Ret st, s\<lparr>cs_pmap := put_result T i cid (cs_pmap s), cs_world := w\<rparr>)" by blast
  then show "fst (PutInstance T conn i s) \<noteq> Panic" by simp
  fix k
  from put show "known_instance (snd (PutInstance T conn i s)) k = (if k = inst_pid i then Some i else known_instance s k)"
    by (simp add: known_instance_def)
next
  fix s :: "('t, 'w) cstate" and k i assume "known_instance s k = Some i"
  then show "GetInstanceFromID T conn k s = (Ret (Some i, StatusOK), s)"
    by (simp add: known_instance_def GetInstanceFromID_def GetCachedInstance_def)
qed

section \<open>A concrete backend\<close>

text \<open>
  A backend for concrete inputs, which stores nothing and finds nothing, and a cache with one
  instance in front of it.
\<close>

definition null_conn :: "'w RiakConn" where
  "null_conn =
     \<lparr>rc_PutNetIDMap = (\<lambda>ip l r c w. (True, w)), rc_GetNetIDMap = (\<lambda>ip l r w. (Some None, w)),
      rc_DelNetIDMap = (\<lambda>ip l r w. (True, w)), rc_GetAllNetID = (\<lambda>ip w. (Some [], w)),
      rc_SearchIDNet = (\<lambda>u w. (Some [], w))\<rparr>"

lemma null_conn_simps [simp]:
  "rc_PutNetIDMap null_conn ip l r c w = (True, w)" "rc_DelNetIDMap null_conn ip l r w = (True, w)"
  "rc_GetAllNetID null_conn ip w = (Some [], w)" "rc_SearchIDNet null_conn u w = (Some [], w)"
  by (simp_all add: null_conn_def)

lemma null_conn_v4 [simp]: "conn_v4 null_conn"
  by (simp add: conn_v4_def null_conn_def)

definition demo_cache :: "(elem list, unit) cstate" where
  "demo_cache = snd (PutInstance list_tree null_conn (demo_instance 100 200 ''web'') (NewCache ()))"

lemma demo_cache_pmap [simp]: "cs_pmap demo_cache = demo_pmap"
  by (simp add: demo_cache_def demo_pmap_def PutInstance_def go_bind_def on_pmap_def NewCache_def
      split: prod.splits outcome.splits)

lemma demo_cache_inv [simp]: "cache_inv list_tree demo_cache"
  by (simp add: cache_inv_def)

lemma demo_known: "pm_PidMap demo_pmap = [''web'' \<mapsto> demo_instance 100 200 ''web'']"
proof -
  obtain cid where "inst_cid (demo_instance 100 200 ''web'') = Some cid"
    using inst_cid_v4 [of "demo_instance 100 200 ''web''"] by auto
  then show ?thesis by (simp add: demo_pmap_def PutCachedInstance_Ret NewPmap_def)
qed

section \<open>Properties\<close>

text \<open>C2: a lookup by address never panics and keeps the cache sound. On 200 it returns the
  instance of a cached range that contains the port, with no cached range of the address with
  the port strictly inside it; on 404 no cached range contains the port, the backend having been
  asked; otherwise the backend failed and the answer is 500 and no instance.\<close>

theorem lookup_innermost:
  assumes "itree_ok T" and "cache_inv T s" and "is_goint (port + 1)" and "conn_v4 conn"
  shows "case GetInstanceFromNetMap T conn ip port s of
      (Panic, _) \<Rightarrow> False
    | (Ret (res, st), s') \<Rightarrow> cache_inv T s' \<and>
        (if st = StatusOK then \<exists>inst. res = Some inst \<and> innermost_instance T (cs_pmap s') (IP_String ip) port inst
         else res = None \<and> (st = StatusInternalServerError \<or>
           st = StatusNotFound \<and> (\<forall>e \<in> pm_tree T (cs_pmap s') (IP_String ip). \<not> contains_port (fst e) port)))"
proof (rule GetInstanceFromNetMap_spec [OF assms, of ip])
  fix res st s'
  assume run: "GetInstanceFromNetMap T conn ip port s = (Ret (res, st), s')" "cache_inv T s'"
    and "st = StatusOK \<Longrightarrow> \<exists>inst. res = Some inst \<and> innermost_instance T (cs_pmap s') (IP_String ip) port inst"
    and "st = StatusNotFound \<Longrightarrow> \<forall>e \<in> pm_tree T (cs_pmap s') (IP_String ip). \<not> contains_port (fst e) port"
    and "st = StatusOK \<or> res = None"
  moreover have "st = StatusOK \<or> st = StatusNotFound \<or> st = StatusInternalServerError"
    using run(1) by (rule GetInstanceFromNetMap_status)
  ultimately show ?thesis by auto
qed

theorem lookup_innermost_witness:
  "GetInstanceFromNetMap list_tree null_conn (IPv4 10 0 0 1) 150 demo_cache =
     (Ret (Some (demo_instance 100 200 ''web''), StatusOK), demo_cache) \<and>
   innermost_instance list_tree demo_pmap (dotted 10 0 0 1) 150 (demo_instance 100 200 ''web'')"
proof -
  have g: "is_goint (150 + 1)" by (simp add: is_goint_def)
  have ix: "GetIndex list_tree demo_pmap (dotted 10 0 0 1) 150 = Inr (Some 0)"
    by (rule demo_pmap_index)
  have "pi_P (pm_cells demo_pmap ! 0) = ''web''"
    by (rule demo_pmap_cell)
  then have run: "GetInstanceFromNetMap list_tree null_conn (IPv4 10 0 0 1) 150 demo_cache =
      (Ret (Some (demo_instance 100 200 ''web''), StatusOK), demo_cache)"
    by (simp add: GetInstanceFromNetMap_def ix copy_indexed_def GetCachedInstance_def demo_known)
  show ?thesis
    using lookup_innermost [OF list_tree_ok demo_cache_inv g null_conn_v4, of "IPv4 10 0 0 1"]
    by (simp add: run)
qed

text \<open>C11: after any sequence of registrations of IPv4 instances with different ids, every one of
  them is returned by its id, with status 200, from the cache alone: neither the cache nor the
  backend changes, whatever the interval tree and the backend do.\<close>

theorem registrations_found:
  fixes T :: "'t itree" and conn :: "'w RiakConn" and s :: "('t, 'w) cstate"
  assumes "\<forall>i \<in> set insts. v4_instance i" and "distinct (map inst_pid insts)" and "inst \<in> set insts"
    and "s' = foldl (\<lambda>s i. snd (PutInstance T conn i s)) s insts"
  shows "GetInstanceFromID T conn (inst_pid inst) s' = (Ret (Some inst, StatusOK), s')"
  using ic.get_after_puts [OF assms(1) ic.find_distinct [OF assms(2,3)]] assms(4)
  by (simp add: ic.put_list_def)

theorem registrations_found_witness:
  "GetInstanceFromID list_tree null_conn ''web'' demo_cache = (Ret (Some (demo_instance 100 200 ''web''), StatusOK), demo_cache)"
  using registrations_found [of "[demo_instance 100 200 ''web'']" "demo_instance 100 200 ''web''"
      demo_cache list_tree null_conn "NewCache ()"]
  by (simp add: demo_cache_def v4_instance_def)

text \<open>The range a put of an instance makes, and a hit of GetIndex as a lookup by address.\<close>

definition nested_over :: "('t, 'z) itree_scheme \<Rightarrow> 't Pmap \<Rightarrow> CachedInstance \<Rightarrow> int \<Rightarrow> bool" where
  "nested_over T m inst port \<longleftrightarrow>
     (\<forall>e \<in> pm_tree T m (IP_String (ci_Ip inst)). contains_port (fst e) port \<longrightarrow>
        ix_Pmin (fst e) \<le> ci_Lport inst \<and> ci_Rport inst + 1 \<le> ix_Pmax (fst e))"

lemma put_index_port:
  assumes "is_port (ci_Rport inst)"
  shows "put_index inst cid = \<lparr>ix_Pmin = ci_Lport inst, ix_Pmax = ci_Rport inst + 1, ix_Id = cid\<rparr>"
  using assms by (simp add: put_index_def)

lemma put_then_index:
  assumes T: "itree_ok T" and wf: "pmap_wf T m" and cid: "inst_cid inst = Some cid"
    and port: "is_port (ci_Rport inst)" "0 \<le> ci_Lport inst" "ci_Lport inst \<le> port" "port \<le> ci_Rport inst"
    and nested: "nested_over T m inst port"
  shows "GetIndex T (put_result T inst cid m) (IP_String (ci_Ip inst)) port = Inr (Some (length (pm_cells m)))"
proof -
  let ?m = "put_result T inst cid m" and ?ip = "IP_String (ci_Ip inst)" and ?i = "put_index inst cid"
  have i: "?i = \<lparr>ix_Pmin = ci_Lport inst, ix_Pmax = ci_Rport inst + 1, ix_Id = cid\<rparr>"
    using put_index_port [OF port(1)] .
  have tree: "pm_tree T ?m ?ip = insert (?i, length (pm_cells m)) {x \<in> pm_tree T m ?ip. \<not> same_key (fst x) ?i}"
    using port by (simp add: put_result_tree [OF T] i inverted_def IndexRange_def)
  have new: "contains_port ?i port" using port by (simp add: i contains_port_def)
  have p: "is_goint (port + 1)" using port by (simp add: is_port_def is_goint_def)
  have unique: "j = ?i \<and> r = length (pm_cells m)"
    if jr: "(j, r) \<in> pm_tree T ?m ?ip" "contains_port j port"
      and min: "\<forall>e \<in> pm_tree T ?m ?ip. contains_port (fst e) port \<longrightarrow> \<not> strictly_inside (fst e) j" for j r
  proof (rule ccontr)
    assume "\<not> ?thesis"
    with jr(1) tree have old: "(j, r) \<in> pm_tree T m ?ip" "\<not> same_key j ?i" by auto
    with nested jr(2) have out: "ix_Pmin j \<le> ci_Lport inst" "ci_Rport inst + 1 \<le> ix_Pmax j"
      by (auto simp: nested_over_def)
    moreover have "\<not> strictly_inside ?i j" using min new tree by auto
    ultimately have eq: "ix_Pmin j = ci_Lport inst" "ix_Pmax j = ci_Rport inst + 1"
      by (auto simp: strictly_inside_def i)
    with pmap_wfD(5) [OF wf old(1)] cid port(1) have "ix_Id j = cid" by (simp add: inst_cid_def)
    with eq old(2) show False by (simp add: same_key_def IndexRange_def ID_def i)
  qed
  from GetIndex_spec [OF T put_result_wf [OF T wf cid] p, of ?ip] show ?thesis
  proof (elim disjE exE conjE)
    assume "\<forall>e \<in> pm_tree T ?m ?ip. \<not> contains_port (fst e) port"
    with new tree show ?thesis by auto
  qed (use unique in auto)
qed

text \<open>C7: read your write by address: when an IPv4 instance is put whose range contains the port,
  and every range cached before that contains the port also contains the new range, a lookup of
  that address and port returns exactly the instance put, with status 200 and without asking the
  backend, also when the backend failed to store it.\<close>

theorem put_then_lookup:
  assumes "itree_ok T" and "cache_inv T s" and "v4_instance inst" and "is_port (ci_Rport inst)"
    and "0 \<le> ci_Lport inst" and "ci_Lport inst \<le> port" and "port \<le> ci_Rport inst" and "nested_over T (cs_pmap s) inst port"
    and "s' = snd (PutInstance T conn inst s)"
  shows "GetInstanceFromNetMap T conn (ci_Ip inst) port s' = (Ret (Some inst, StatusOK), s')"
proof -
  obtain cid where cid: "inst_cid inst = Some cid" using assms(3) inst_cid_v4 by (auto simp: v4_instance_def)
  from PutInstance_v4 [OF this, of T conn s] assms(9) obtain w where
    s': "s' = s\<lparr>cs_pmap := put_result T inst cid (cs_pmap s), cs_world := w\<rparr>" by (metis snd_conv)
  have "pmap_wf T (cs_pmap s)" using assms(2) by (simp add: cache_inv_def)
  from put_then_index [OF assms(1) this cid assms(4-8)]
  show ?thesis by (simp add: s' GetInstanceFromNetMap_def copy_indexed_def GetCachedInstance_def nth_append)
qed

theorem put_then_lookup_witness:
  "\<exists>s. GetInstanceFromNetMap list_tree (null_conn :: unit RiakConn) (IPv4 10 0 0 1) 120 s =
     (Ret (Some (demo_instance 110 130 ''app''), StatusOK), s)"
proof -
  let ?i = "demo_instance 110 130 ''app''"
  obtain i where i: "pm_tree list_tree demo_pmap (dotted 10 0 0 1) = {(i, 0)}" "ix_Pmin i = 100" "ix_Pmax i = 201"
    using demo_pmap_tree by auto
  have n: "nested_over list_tree (cs_pmap demo_cache) ?i 120"
    by (simp add: nested_over_def i)
  have "v4_instance ?i" "is_port (ci_Rport ?i)" "0 \<le> ci_Lport ?i" "ci_Lport ?i \<le> 120" "120 \<le> ci_Rport ?i"
    by (simp_all add: v4_instance_def is_port_def)
  note r = put_then_lookup [OF list_tree_ok demo_cache_inv this n refl, of null_conn]
  show ?thesis by (rule exI) (rule r [unfolded demo_instance_simps])
qed

text \<open>A deletion with the address, the range and the id of an instance.\<close>

lemma DelInstance_spec:
  assumes "itree_ok T" and "cache_inv T s" and "is_v4 ip" and "is_port r" and "0 \<le> l" and "l \<le> r"
    and "only_at T (cs_pmap s) pid (IP_String ip) l r"
    and "DelInstance T conn ip l r pid s = (out, s')"
  shows "out \<noteq> Panic \<and> cache_inv T s' \<and> known_instance s' pid = None \<and>
    (\<forall>pid'. pid' \<noteq> pid \<longrightarrow> known_instance s' pid' = known_instance s pid') \<and>
    pm_tree T (cs_pmap s') (IP_String ip) =
      {x \<in> pm_tree T (cs_pmap s) (IP_String ip). \<not> (ix_Pmin (fst x) = l \<and> ix_Pmax (fst x) = r + 1)} \<and>
    (\<forall>ip'. ip' \<noteq> IP_String ip \<longrightarrow> pm_tree T (cs_pmap s') ip' = pm_tree T (cs_pmap s) ip')"
proof -
  obtain st m w where del: "DelInstance T conn ip l r pid s = (Ret st, s\<lparr>cs_pmap := m, cs_world := w\<rparr>)"
    "DelCachedInstanceAlt T ip l r pid (cs_pmap s) = (Ret (), m)"
    using DelInstance_v4 [OF assms(3)] .
  have wf: "pmap_wf T (cs_pmap s)" and cov: "pmap_covered T (cs_pmap s)" using assms(2) by (simp_all add: cache_inv_def)
  have range: "l < goint (r + 1)" using assms(4-6) by simp
  note res = DelCachedInstanceAlt_result [OF assms(1) del(2)]
  obtain cid where cid: "ComputeID (IP_String ip) l (goint (r + 1)) = Some cid" using ComputeID_v4 [OF assms(3)] by blast
  have same: "ix_Id (fst x) = cid \<longleftrightarrow> ix_Pmax (fst x) = r + 1"
    if "x \<in> pm_tree T (cs_pmap s) (IP_String ip)" "ix_Pmin (fst x) = l" for x
  proof -
    have "ComputeID (IP_String ip) l (ix_Pmax (fst x)) = Some (ix_Id (fst x))" "is_goint (ix_Pmax (fst x))"
      using pmap_wfD(4,5) [OF wf, of "fst x" "snd x" "IP_String ip"] that by auto
    with cid assms(4) show ?thesis using ComputeID_inj [of "IP_String ip" l "ix_Pmax (fst x)" cid "r + 1"] by auto
  qed
  have "pm_tree T m (IP_String ip) =
      {x \<in> pm_tree T (cs_pmap s) (IP_String ip). \<not> (ix_Pmin (fst x) = l \<and> ix_Pmax (fst x) = r + 1)}"
    unfolding res(4) [OF range cid] using same by blast
  moreover have "pm_tree T m ip' = pm_tree T (cs_pmap s) ip'" if "ip' \<noteq> IP_String ip" for ip'
    using DelCachedInstanceAlt_other [OF del(2) that] .
  moreover have "pmap_wf T m" "pmap_covered T m"
    using DelCachedInstanceAlt_wf [OF assms(1) wf del(2)]
      DelCachedInstanceAlt_covered [OF assms(1) wf cov assms(3) assms(7) range del(2)] by blast+
  ultimately show ?thesis using assms(8) del(1) res(2) by (auto simp: cache_inv_def known_instance_def)
qed

text \<open>C12: deleting an instance with the address, the range and the id it was put with keeps the
  cache sound, forgets the id, removes exactly the index of that range, and leaves the ranges
  of every other address alone, whether or not the backend accepts the deletion.\<close>

theorem DelInstance_exact:
  assumes "itree_ok T" and "cache_inv T s" and "is_v4 ip" and "is_port r" and "0 \<le> l" and "l \<le> r"
    and "only_at T (cs_pmap s) pid (IP_String ip) l r"
    and "DelInstance T conn ip l r pid s = (out, s')"
  shows "out \<noteq> Panic \<and> cache_inv T s' \<and> known_instance s' pid = None \<and>
    (\<forall>pid'. pid' \<noteq> pid \<longrightarrow> known_instance s' pid' = known_instance s pid') \<and>
    pm_tree T (cs_pmap s') (IP_String ip) =
      {x \<in> pm_tree T (cs_pmap s) (IP_String ip). \<not> (ix_Pmin (fst x) = l \<and> ix_Pmax (fst x) = r + 1)} \<and>
    (\<forall>ip'. ip' \<noteq> IP_String ip \<longrightarrow> pm_tree T (cs_pmap s') ip' = pm_tree T (cs_pmap s) ip')"
  by (rule DelInstance_spec [OF assms])

theorem DelInstance_exact_witness:
  "\<exists>out s'. DelInstance list_tree null_conn (IPv4 10 0 0 1) 100 200 ''web'' demo_cache = (out, s') \<and>
     out \<noteq> Panic \<and> known_instance s' ''web'' = None \<and> pm_tree list_tree (cs_pmap s') (dotted 10 0 0 1) = {}"
proof -
  obtain i where i: "pm_tree list_tree demo_pmap (dotted 10 0 0 1) = {(i, 0)}" "ix_Pmin i = 100" "ix_Pmax i = 201"
    using demo_pmap_tree by auto
  have "only_at list_tree (cs_pmap demo_cache) ''web'' (IP_String (IPv4 10 0 0 1)) 100 200"
    using demo_pmap_only by simp
  moreover obtain out s' where run: "DelInstance list_tree null_conn (IPv4 10 0 0 1) 100 200 ''web'' demo_cache = (out, s')"
    by fastforce
  ultimately show ?thesis
    using DelInstance_exact [OF list_tree_ok demo_cache_inv _ _ _ _ _ run] i by (auto simp: is_port_def)
qed

text \<open>The ids that no index of the map is for, in a map whose instances are under their ids.\<close>

definition unindexed :: "('t, 'z) itree_scheme \<Rightarrow> string \<Rightarrow> 't Pmap \<Rightarrow> bool" where
  "unindexed T pid m \<longleftrightarrow> pmap_wf T m \<and> (\<forall>p j. pm_PidMap m p = Some j \<longrightarrow> inst_pid j = p) \<and>
     (\<forall>ip i c. (i, c) \<in> pm_tree T m ip \<longrightarrow> pi_P (pm_cells m ! c) \<noteq> pid)"

definition inverted_range :: "CachedInstance \<Rightarrow> bool" where
  "inverted_range inst \<longleftrightarrow> goint (ci_Rport inst + 1) < ci_Lport inst"

lemma inverted_put_index: "inverted (put_index inst cid) = inverted_range inst"
  by (simp add: inverted_def inverted_range_def IndexRange_def put_index_def)

lemma PutCachedInstance_unindexed:
  assumes T: "itree_ok T" and m: "unindexed T pid m" and inst: "inst_pid inst = pid \<longrightarrow> inverted_range inst"
    and run: "PutCachedInstance T inst m = (x, m')"
  shows "unindexed T pid m'"
proof (cases "inst_cid inst")
  case None
  with run have "m' = m\<lparr>pm_counter := goint (pm_counter m + 1)\<rparr>" by (simp add: PutCachedInstance_Panic)
  then have eq: "pmap_wf T m' = pmap_wf T m" "pm_PidMap m' = pm_PidMap m" "pm_tree T m' = pm_tree T m" "pm_cells m' = pm_cells m"
    by simp_all
  show ?thesis using m unfolding unindexed_def eq .
next
  case (Some cid)
  with run have m': "m' = put_result T inst cid m" by (simp add: PutCachedInstance_Ret)
  have wf: "pmap_wf T m" using m by (simp add: unindexed_def)
  have tree: "pi_P (pm_cells m' ! c) \<noteq> pid" if "(i, c) \<in> pm_tree T m' ip" for i c ip
    using that [unfolded m']
  proof (rule put_result_tree_cases [OF T])
    assume old: "(i, c) \<in> pm_tree T m ip"
    with m have "pi_P (pm_cells m ! c) \<noteq> pid" unfolding unindexed_def by blast
    with pmap_wfD(1) [OF wf old] show ?thesis by (simp add: m' nth_append)
  next
    assume "i = put_index inst cid" "c = length (pm_cells m)" "\<not> inverted i"
    with inst show ?thesis by (auto simp: m' inverted_put_index)
  qed
  have keys: "inst_pid j = p" if "pm_PidMap m' p = Some j" for p j
    using that m unfolding m' unindexed_def by (cases "p = inst_pid inst") simp_all
  show ?thesis
    unfolding unindexed_def using put_result_wf [OF T wf Some] keys tree by (fold m') blast
qed

lemma put_all_unindexed:
  assumes T: "itree_ok T"
  shows "unindexed T pid m \<Longrightarrow> \<forall>j \<in> set insts. inst_pid j = pid \<longrightarrow> inverted_range j \<Longrightarrow>
    unindexed T pid (snd (put_all T insts m))"
proof (induction insts arbitrary: m)
  case (Cons j insts)
  obtain x m1 where p: "PutCachedInstance T j m = (x, m1)" by fastforce
  have "unindexed T pid m1" using PutCachedInstance_unindexed [OF T Cons.prems(1) _ p] Cons.prems(2) by simp
  with Cons.IH [of m1] Cons.prems(2) p show ?case by (cases x) (simp_all add: go_bind_def)
qed simp

lemma copy_indexed_unindexed:
  assumes T: "itree_ok T" and m: "unindexed T pid (cs_pmap s)" and p: "is_goint (port + 1)"
    and g: "GetIndex T (cs_pmap s) ip port = Inr (Some r)" and run: "copy_indexed r s = (Ret (Some j, st), s')"
  shows "inst_pid j \<noteq> pid"
proof -
  have "pmap_wf T (cs_pmap s)" using m by (simp add: unindexed_def)
  from GetIndex_spec [OF T this p, of ip] g obtain i where "(i, r) \<in> pm_tree T (cs_pmap s) ip" by auto
  with m have "pi_P (pm_cells (cs_pmap s) ! r) \<noteq> pid" by (auto simp: unindexed_def)
  moreover from run have "pm_PidMap (cs_pmap s) (pi_P (pm_cells (cs_pmap s) ! r)) = Some j"
    by (auto simp: copy_indexed_def GetCachedInstance_def split: option.splits)
  then have "inst_pid j = pi_P (pm_cells (cs_pmap s) ! r)" using m by (auto simp: unindexed_def)
  ultimately show ?thesis by simp
qed

lemma reloadCache_unindexed:
  assumes T: "itree_ok T" and m: "unindexed T pid (cs_pmap s)"
    and asked: "\<forall>w insts. fst (rc_GetAllNetID conn ip w) = Some insts \<longrightarrow> (\<forall>j \<in> set insts. inst_pid j = pid \<longrightarrow> inverted_range j)"
    and run: "reloadCache T conn ip s = (x, s')"
  shows "unindexed T pid (cs_pmap s')"
proof -
  obtain res w where q: "rc_GetAllNetID conn ip (cs_world s) = (res, w)" by fastforce
  show ?thesis
  proof (cases res)
    case None
    with q run m show ?thesis by (auto simp: reloadCache_def)
  next
    case (Some insts)
    with q asked have "\<forall>j \<in> set insts. inst_pid j = pid \<longrightarrow> inverted_range j" by (metis fst_conv)
    from put_all_unindexed [OF T m this] q Some run show ?thesis
      by (auto simp: reloadCache_def on_pmap_def go_bind_def split: prod.splits outcome.splits)
  qed
qed

lemma GetInstanceFromNetMap_unindexed:
  assumes T: "itree_ok T" and m: "unindexed T pid (cs_pmap s)" and p: "is_goint (port + 1)"
    and asked: "\<forall>w insts. fst (rc_GetAllNetID conn ip w) = Some insts \<longrightarrow> (\<forall>j \<in> set insts. inst_pid j = pid \<longrightarrow> inverted_range j)"
    and run: "GetInstanceFromNetMap T conn ip port s = (Ret (Some j, st), s')"
  shows "inst_pid j \<noteq> pid"
proof -
  obtain x s1 where re: "reloadCache T conn ip s = (x, s1)" by fastforce
  note m1 = reloadCache_unindexed [OF T m asked re]
  from run re consider r where "GetIndex T (cs_pmap s) (IP_String ip) port = Inr (Some r)" "copy_indexed r s = (Ret (Some j, st), s')"
    | r where "GetIndex T (cs_pmap s1) (IP_String ip) port = Inr (Some r)" "copy_indexed r s1 = (Ret (Some j, st), s')"
    by (auto simp: GetInstanceFromNetMap_def go_bind_def Let_def split: sum.splits option.splits outcome.splits if_splits)
  then show ?thesis using copy_indexed_unindexed [OF T m p] copy_indexed_unindexed [OF T m1 p] by cases blast+
qed

text \<open>C38: an instance with an inverted range, such as a port and no end (the parser gives -1), under an
  id that no index of the cache is for yet, is acknowledged and known by its id but never found by
  its address: the tree rejects the range, the error is dropped and every tree stays as it was, and
  a lookup of any address and port, also one that reloads the address from a backend that has the
  id with inverted ranges only, never returns an instance of that id.\<close>

theorem inverted_never_indexed:
  assumes "itree_ok T" and "v4_instance inst" and "inverted_range inst" and "unindexed T (inst_pid inst) (cs_pmap s)"
    and "\<forall>ip w insts. fst (rc_GetAllNetID conn ip w) = Some insts \<longrightarrow>
      (\<forall>j \<in> set insts. inst_pid j = inst_pid inst \<longrightarrow> inverted_range j)"
    and "PutInstance T conn inst s = (out, s')"
  shows "out \<noteq> Panic \<and> known_instance s' (inst_pid inst) = Some inst \<and>
    (\<forall>ip. pm_tree T (cs_pmap s') ip = pm_tree T (cs_pmap s) ip) \<and>
    (\<forall>ip port j st s''. is_goint (port + 1) \<and> GetInstanceFromNetMap T conn ip port s' = (Ret (Some j, st), s'') \<longrightarrow>
       inst_pid j \<noteq> inst_pid inst)"
proof -
  obtain cid where cid: "inst_cid inst = Some cid" using assms(2) inst_cid_v4 by (auto simp: v4_instance_def)
  from PutInstance_v4 [OF cid, of T conn s] assms(6) obtain st w where
    s': "out = Ret st" "s' = s\<lparr>cs_pmap := put_result T inst cid (cs_pmap s), cs_world := w\<rparr>" by auto
  have "unindexed T (inst_pid inst) (cs_pmap s')"
    using PutCachedInstance_unindexed [OF assms(1,4) _ PutCachedInstance_Ret [OF cid]] assms(3) by (simp add: s')
  note never = GetInstanceFromNetMap_unindexed [OF assms(1) this]
  have "inst_pid j \<noteq> inst_pid inst" if "is_goint (port + 1)" "GetInstanceFromNetMap T conn ip port s' = (Ret (Some j, st'), s'')"
    for ip port j st' s''
    by (rule never [OF that(1) _ that(2)]) (use assms(5) in blast)
  then show ?thesis using s' assms(3)
    by (simp add: put_result_tree [OF assms(1)] known_instance_def inverted_put_index del: not_None_eq) blast
qed

theorem inverted_never_indexed_witness:
  "\<exists>s'. snd (PutInstance list_tree null_conn (demo_instance 300 (- 1) ''db'') demo_cache) = s' \<and>
     known_instance s' ''db'' = Some (demo_instance 300 (- 1) ''db'') \<and>
     (\<forall>j st s''. GetInstanceFromNetMap list_tree null_conn (IPv4 10 0 0 1) 300 s' = (Ret (Some j, st), s'') \<longrightarrow> inst_pid j \<noteq> ''db'')"
proof -
  let ?i = "demo_instance 300 (- 1) ''db''"
  obtain out s' where run: "PutInstance list_tree null_conn ?i demo_cache = (out, s')" by fastforce
  have inst: "v4_instance ?i" "inverted_range ?i" by (simp_all add: v4_instance_def inverted_range_def is_goint_def)
  have none: "unindexed list_tree (inst_pid ?i) (cs_pmap demo_cache)"
    using demo_pmap_owner by (auto simp: unindexed_def demo_known)
  have asked: "\<forall>ip w insts. fst (rc_GetAllNetID null_conn ip w) = Some insts \<longrightarrow>
      (\<forall>j \<in> set insts. inst_pid j = inst_pid ?i \<longrightarrow> inverted_range j)" by (simp add: null_conn_def)
  note res = inverted_never_indexed [OF list_tree_ok inst none asked run]
  have "inst_pid j \<noteq> ''db''" if "GetInstanceFromNetMap list_tree null_conn (IPv4 10 0 0 1) 300 s' = (Ret (Some j, st), s'')" for j st s''
    using res [THEN conjunct2, THEN conjunct2, THEN conjunct2, rule_format, of 300, OF conjI, OF _ that] by (simp add: is_goint_def)
  with res run show ?thesis by auto
qed

text \<open>C37: deleting an id with an address or a range that is not the one of its index leaves the index in
  the tree without an instance: in any well-formed cache with an index of the id at an address, any
  deletion of the id with another address or with another start or end, also with an inverted range
  such as a port and no end, makes the next lookup of every port at which that index is the
  inner-most one dereference a nil pointer.\<close>

theorem mismatched_delete_panics:
  assumes "itree_ok T" and "pmap_wf T (cs_pmap s)" and "(i, c) \<in> pm_tree T (cs_pmap s) (IP_String ip)"
    and "pi_P (pm_cells (cs_pmap s) ! c) = pid" and "is_goint (port + 1)" and "contains_port i port"
    and "\<forall>(j, d) \<in> pm_tree T (cs_pmap s) (IP_String ip). contains_port j port \<longrightarrow>
      pi_P (pm_cells (cs_pmap s) ! d) = pid \<or> strictly_inside i j"
    and "is_v4 ip'" and "l \<noteq> goint (r + 1)"
    and "IP_String ip' \<noteq> IP_String ip \<or> l \<noteq> ix_Pmin i \<or> goint (r + 1) \<noteq> ix_Pmax i"
    and "DelInstance T conn ip' l r pid s = (out, s')"
  shows "out \<noteq> Panic \<and> fst (GetInstanceFromNetMap T conn ip port s') = Panic"
proof -
  let ?b = "IP_String ip"
  obtain st m w where del: "DelInstance T conn ip' l r pid s = (Ret st, s\<lparr>cs_pmap := m, cs_world := w\<rparr>)"
    "DelCachedInstanceAlt T ip' l r pid (cs_pmap s) = (Ret (), m)"
    using DelInstance_v4 [OF assms(8)] .
  note res = DelCachedInstanceAlt_result [OF assms(1) del(2)]
  have kept: "(i, c) \<in> pm_tree T m ?b"
    by (rule DelCachedInstanceAlt_mismatch [OF assms(1,2,8,3,10,9) del(2)])
  from GetIndex_spec [OF assms(1) DelCachedInstanceAlt_wf [OF assms(1,2) del(2)] assms(5), of ?b] kept assms(6)
  obtain j d where g: "GetIndex T m ?b port = Inr (Some d)" "(j, d) \<in> pm_tree T m ?b" "contains_port j port"
    "\<not> strictly_inside i j" by fastforce
  have "(j, d) \<in> pm_tree T (cs_pmap s) ?b" using res(3) g(2) by blast
  with assms(7) g(3,4) have "pi_P (pm_cells m ! d) = pid" unfolding res(1) by fastforce
  then have "pm_PidMap m (pi_P (pm_cells m ! d)) = None" by (simp add: res(2))
  with g(1) assms(11) del(1) show ?thesis
    by (auto simp: GetInstanceFromNetMap_def copy_indexed_def GetCachedInstance_def)
qed

theorem mismatched_delete_panics_witness:
  "fst (GetInstanceFromNetMap list_tree null_conn (IPv4 10 0 0 1) 150
     (snd (DelInstance list_tree null_conn (IPv4 10 0 0 1) 300 400 ''web'' demo_cache))) = Panic \<and>
   fst (GetInstanceFromNetMap list_tree null_conn (IPv4 10 0 0 1) 150
     (snd (DelInstance list_tree null_conn (IPv4 10 0 0 1) 100 (- 1) ''web'' demo_cache))) = Panic"
proof -
  obtain i where i: "pm_tree list_tree (cs_pmap demo_cache) (IP_String (IPv4 10 0 0 1)) = {(i, 0)}" "ix_Pmin i = 100" "ix_Pmax i = 201"
    using demo_pmap_tree by auto
  have wf: "pmap_wf list_tree (cs_pmap demo_cache)" by simp
  have pid: "pi_P (pm_cells (cs_pmap demo_cache) ! 0) = ''web''" by (simp add: demo_pmap_cell)
  have at: "(i, 0) \<in> pm_tree list_tree (cs_pmap demo_cache) (IP_String (IPv4 10 0 0 1))" by (simp only: i(1) singletonI)
  have port: "is_goint (150 + 1)" "contains_port i 150" by (simp_all add: is_goint_def contains_port_def i)
  have inner: "\<forall>(j, d) \<in> pm_tree list_tree (cs_pmap demo_cache) (IP_String (IPv4 10 0 0 1)). contains_port j 150 \<longrightarrow>
      pi_P (pm_cells (cs_pmap demo_cache) ! d) = ''web'' \<or> strictly_inside i j"
    unfolding i(1) using pid by simp
  note panics = mismatched_delete_panics [OF list_tree_ok wf at pid port inner is_v4_IPv4 _ _ surjective_pairing]
  show ?thesis using panics [of 300 400 10 0 0 1 null_conn] panics [of 100 "- 1" 10 0 0 1 null_conn] i(2,3) by (simp add: is_goint_def)
qed

end
