(* ===== verification/Proxy.thy ===== *)
theory Proxy
  imports Cache
begin

unbundle bit_operations_syntax

text \<open>
  The state of the metadata proxy, what it sees of HTTP, and the authentication and
  authorization of requests (\<open>proxy/newapi.go\<close>: getCache, authenticate, newAuth,
  authzControl; \<open>proxy/server.go\<close>: MetadataProxy, ReadRequest; \<open>proxy/types.go\<close>:
  EncodingMetadataRequest).

  The proxy has one principal map per cache; the Riak store behind all caches and the SAFE
  service are the outside world. The connection to Riak, the interval tree, the URL check of
  \<open>http.NewRequest\<close> and the round trip of \<open>http.Client.Do\<close> are arguments, gathered in an
  environment. A handler is a program on this state; each cache operation in it is atomic.
\<close>

section \<open>HTTP\<close>

text \<open>A request as the handlers see it; no body means that reading it fails.\<close>

record http_request =
  rq_Method :: string
  rq_RequestURI :: string
  rq_RemoteAddr :: string
  rq_Body :: "string option"
  rq_Vars :: "string \<rightharpoonup> string"        \<comment> \<open>mux.Vars\<close>

record http_response =
  hr_status :: int
  hr_ContentType :: string
  hr_body :: string

record out_request =
  or_Method :: string
  or_Url :: string
  or_Body :: string

text \<open>
  http.Client.Do: an error with its text and the status of the response, if there is one; or a
  response, whose body reads as data (\<open>Inr\<close>) or fails with an error text (\<open>Inl\<close>).
\<close>

datatype do_result = DoError string "int option" | DoResponse int "string + string"

section \<open>State\<close>

record Pod =
  pod_Uuid :: string
  pod_Tag :: string

record ('t, 'w) env =
  en_tree :: "'t itree"
  en_conn :: "'w RiakConn"
  en_newreq :: "string \<Rightarrow> string \<Rightarrow> string option"   \<comment> \<open>method, URL; the text of an error\<close>
  en_do :: "out_request \<Rightarrow> 'w \<Rightarrow> do_result \<times> 'w"

record ('t, 'w) proxy =
  px_addr :: string
  px_caches :: "'t Pmap list"      \<comment> \<open>newCaches\<close>
  px_pods :: "string \<rightharpoonup> Pod"
  px_world :: 'w

text \<open>An operation of the cache with the given number, and of the cache of a request.\<close>

definition with_cache :: "nat \<Rightarrow> (('t, 'w) cstate, 'a) go \<Rightarrow> (('t, 'w) proxy, 'a) go" where
  "with_cache i f s =
     (case slice_get (px_caches s) i of
        None \<Rightarrow> (Panic, s)
      | Some m \<Rightarrow>
          (case f \<lparr>cs_pmap = m, cs_world = px_world s\<rparr> of
             (r, c) \<Rightarrow> (r, s\<lparr>px_caches := (px_caches s)[i := cs_pmap c], px_world := cs_world c\<rparr>)))"

definition mr_with_cache :: "MetadataRequest \<Rightarrow> (('t, 'w) cstate, 'a) go \<Rightarrow> (('t, 'w) proxy, 'a) go" where
  "mr_with_cache mr f = (case mr_cache mr of None \<Rightarrow> go_panic | Some i \<Rightarrow> with_cache i f)"

section \<open>Requests\<close>

definition IaaSProvider :: string where
  "IaaSProvider = ''152.3.145.38:444''"

text \<open>The request under construction, with the array of its parameters past their number.\<close>

definition upd_MetadataRequest :: "string \<Rightarrow> json \<Rightarrow> MetadataRequest \<times> string list \<Rightarrow> (MetadataRequest \<times> string list) \<times> bool" where
  "upd_MetadataRequest f v ma =
     (case ma of (m, arr) \<Rightarrow>
        if f = ''principal'' then (let (x, ok) = dec_string v (mr_Principal m) in ((m\<lparr>mr_Principal := x\<rparr>, arr), ok))
        else if f = ''bearerRef'' then (let (x, ok) = dec_string v (mr_ParentBear m) in ((m\<lparr>mr_ParentBear := x\<rparr>, arr), ok))
        else if f = ''methodParams'' then
          (let ((x, arr'), ok) = dec_strings v (mr_OtherValues m, arr) in ((m\<lparr>mr_OtherValues := x\<rparr>, arr'), ok))
        else (let (x, ok) = dec_string v (mr_Auth m) in ((m\<lparr>mr_Auth := x\<rparr>, arr), ok)))"

definition dec_MetadataRequest :: "MetadataRequest \<Rightarrow> string \<Rightarrow> MetadataRequest \<times> bool" where
  "dec_MetadataRequest m body =
     (let ((m', arr), ok) = dec_struct [''principal'', ''bearerRef'', ''methodParams'', ''auth''] upd_MetadataRequest (m, []) body
      in (m', ok))"

definition ReadRequest :: "http_request \<Rightarrow> MetadataRequest option \<times> int" where
  "ReadRequest r =
     (case rq_Body r of
        None \<Rightarrow> (None, StatusBadRequest)
      | Some dat \<Rightarrow>
          (let mr = zero_MetadataRequest\<lparr>mr_targetType := NORMAL_INSTANCE_TYPE, mr_targetCidr := None\<rparr>;
               (mr', ok) = dec_MetadataRequest mr dat
           in if \<not> ok then (None, StatusBadRequest) else (Some mr', StatusOK)))"

text \<open>The encoder has no error on strings; \<open>omitempty\<close> drops an empty string.\<close>

definition omitempty :: "string \<Rightarrow> string \<Rightarrow> (string \<times> string) list" where
  "omitempty name v = (if v = [] then [] else [(name, enc_string v)])"

definition EncodingMetadataRequest :: "MetadataRequest \<Rightarrow> string" where
  "EncodingMetadataRequest m =
     enc_struct (omitempty ''principal'' (mr_Principal m) @ omitempty ''bearerRef'' (mr_ParentBear m) @
                 [(''methodParams'', enc_strings (mr_OtherValues m))] @ omitempty ''auth'' (mr_Auth m))"

definition ByteBuf :: "MetadataRequest \<Rightarrow> string" where
  "ByteBuf r = EncodingMetadataRequest r"

section \<open>The cache of a request\<close>

text \<open>hash/fnv New32: the 32-bit FNV-1 hash.\<close>

definition fnv32 :: "string \<Rightarrow> 32 word" where
  "fnv32 s = foldl (\<lambda>h c. (h * 16777619) XOR word_of_nat (of_char c)) 2166136261 s"

text \<open>The result is the number of the cache; the modulus by zero caches panics.\<close>

definition getCache :: "string \<Rightarrow> string \<Rightarrow> (('t, 'w) proxy, nat) go" where
  "getCache remoteAddr auth s =
     (let n = (word_of_nat (length (px_caches s)) :: 32 word)
      in if n = 0 then (Panic, s)
         else (let idx1 = unat (fnv32 auth mod n)
               in case slice_get (px_caches s) idx1 of
                    None \<Rightarrow> (Panic, s)
                  | Some _ \<Rightarrow> (Ret idx1, s)))"

section \<open>Authentication\<close>

definition authenticate :: "('t, 'w) env \<Rightarrow> MetadataRequest \<Rightarrow> string
    \<Rightarrow> (('t, 'w) proxy, CachedInstance option \<times> int) go" where
  "authenticate E mr who =
     (if HasPrefix who NOAUTH_PREFIX then go_return (None, StatusUnauthorized)
      else (case ParseIPNew who of
              (ip, lport, _, ok) \<Rightarrow>
                go_bind (mr_with_cache mr
                           (if ok \<noteq> StatusOK then GetInstanceFromID (en_tree E) (en_conn E) who
                            else GetInstanceFromNetMap (en_tree E) (en_conn E) ip lport))
                  (\<lambda>(inst, status). go_return (if status \<noteq> StatusOK then (None, status) else (inst, status)))))"

text \<open>The fields of the request that come from the instance of its speaker.\<close>

definition as_instance :: "MetadataRequest \<Rightarrow> CachedInstance \<Rightarrow> MetadataRequest" where
  "as_instance mr inst =
     mr\<lparr>mr_Principal := ic_Pid (ci_ID inst), mr_ParentBear := ic_PPid (ci_ID inst), mr_ip := ci_Ip inst,
        mr_lport := ci_Lport inst, mr_rport := ci_Rport inst, mr_instance := Some inst\<rparr>"

text \<open>
  ReadRequest returns a nil request with its error, and newAuth sets a field of the request
  before it looks at the status. The check of the remote address against the range of the
  instance only logs.
\<close>

definition newAuth :: "('t, 'w) env \<Rightarrow> http_request \<Rightarrow> bool \<Rightarrow> (('t, 'w) proxy, MetadataRequest option \<times> int) go" where
  "newAuth E r authPrincipal =
     (case ReadRequest r of
        (None, _) \<Rightarrow> go_panic
      | (Some mr0, status) \<Rightarrow>
          (let mr1 = mr0\<lparr>mr_method := rq_Method r\<rparr>;
               mr2 = (if mr_Principal mr1 = [] then mr1\<lparr>mr_Principal := rq_RemoteAddr r\<rparr> else mr1);
               mr3 = mr2\<lparr>mr_url := rq_RequestURI r\<rparr>
           in if status \<noteq> StatusOK then go_return (None, status)
              else go_bind (getCache (rq_RemoteAddr r) (mr_Auth mr3)) (\<lambda>i.
                (let mr = mr3\<lparr>mr_cache := Some i, mr_Auth := []\<rparr>
                 in if mr_Principal mr = IaaSProvider then go_return (Some mr, status)
                    else go_bind (authenticate E mr (mr_Principal mr)) (\<lambda>(inst, status).
                      if status \<noteq> StatusOK then
                        (if authPrincipal then go_return (None, status) else go_return (Some mr, StatusOK))
                      else (case ParseIPNew (rq_RemoteAddr r) of
                              (_, _, _, status) \<Rightarrow>
                                if status \<noteq> StatusOK then go_return (None, status)
                                else (case inst of
                                        None \<Rightarrow> go_panic
                                      | Some inst \<Rightarrow> go_return (Some (as_instance mr inst), StatusOK))))))))"

section \<open>Authorization\<close>

text \<open>The second half of authzControl: is the speaker in charge of the target address?\<close>

definition authz_target :: "MetadataRequest \<Rightarrow> (('t, 'w) proxy, MetadataRequest \<times> int) go" where
  "authz_target mr =
     (if mr_Principal mr = IaaSProvider then go_return (mr, StatusOK)
      else if IP_Equal (mr_ip mr) (mr_targetIp mr) \<and> mr_lport mr \<le> mr_targetLport mr \<and> mr_rport mr \<ge> mr_targetRport mr
           then go_return (mr, StatusOK)
      else (case mr_instance mr of
              None \<Rightarrow> go_panic
            | Some inst \<Rightarrow>
                go_return (mr, if ic_Type (ci_ID inst) = VM_INSTANCE_TYPE \<and>
                                  (case ic_Cidr (ci_ID inst) of None \<Rightarrow> False
                                   | Some alloc \<Rightarrow> IPNet_Contains alloc (mr_targetIp mr))
                               then StatusOK else StatusUnauthorized)))"

definition authzControl :: "('t, 'w) env \<Rightarrow> MetadataRequest \<Rightarrow> string \<Rightarrow> bool
    \<Rightarrow> (('t, 'w) proxy, MetadataRequest \<times> int) go" where
  "authzControl E mr0 targetAddr allowUUID =
     (case ParseIPNew targetAddr of
        (tip, tlp, trp, ok) \<Rightarrow>
          (let mr = mr0\<lparr>mr_targetIp := tip, mr_targetLport := tlp, mr_targetRport := trp\<rparr>
           in if ok = StatusOK then authz_target mr
              else if \<not> allowUUID then go_return (mr, ok)
              else go_bind (mr_with_cache mr (GetInstanceFromID (en_tree E) (en_conn E) targetAddr)) (\<lambda>(inst, status).
                     if status \<noteq> StatusOK then go_return (mr, status)
                     else (case inst of
                             None \<Rightarrow> go_panic
                           | Some inst \<Rightarrow>
                               authz_target (mr\<lparr>mr_targetIp := ci_Ip inst, mr_targetLport := ci_Lport inst,
                                                mr_targetRport := ci_Rport inst\<rparr>)))))"

section \<open>A request through its encoding\<close>

definition utf8_request :: "MetadataRequest \<Rightarrow> bool" where
  "utf8_request m \<longleftrightarrow> valid_utf8 (mr_Principal m) \<and> valid_utf8 (mr_ParentBear m) \<and> valid_utf8 (mr_Auth m) \<and>
     list_all valid_utf8 (mr_vals m)"

definition req_members :: "MetadataRequest \<Rightarrow> (string \<times> string \<times> json) list" where
  "req_members m =
     (if mr_Principal m = [] then [] else [(''principal'', enc_string (mr_Principal m), JStr (mr_Principal m))]) @
     (if mr_ParentBear m = [] then [] else [(''bearerRef'', enc_string (mr_ParentBear m), JStr (mr_ParentBear m))]) @
     [(''methodParams'', enc_strings (mr_OtherValues m),
       case mr_OtherValues m of None \<Rightarrow> JNull | Some vs \<Rightarrow> JArr (map JStr vs))] @
     (if mr_Auth m = [] then [] else [(''auth'', enc_string (mr_Auth m), JStr (mr_Auth m))])"

lemma valid_names [simp]:
  "valid_utf8 ''principal''" "valid_utf8 ''bearerRef''" "valid_utf8 ''methodParams''" "valid_utf8 ''auth''"
  by (rule valid_utf8_ascii; simp add: in_byte_def)+

lemma parse_request:
  assumes "utf8_request m"
  shows "parse_json (EncodingMetadataRequest m) = Some (JObj (map (\<lambda>(n, e, j). (n, j)) (req_members m)))"
proof -
  have "EncodingMetadataRequest m = enc_struct (map (\<lambda>(n, e, j). (n, e)) (req_members m))"
    by (simp add: EncodingMetadataRequest_def req_members_def omitempty_def)
  moreover have "\<forall>(n, e, j) \<in> set (req_members m). valid_utf8 n \<and> encodes e j"
    using assms
    by (auto simp: req_members_def utf8_request_def mr_vals_def list_all_iff encodes_string encodes_array encodes_null
        split: option.splits)
  moreover have "req_members m \<noteq> []" by (simp add: req_members_def)
  ultimately show ?thesis by (simp add: parse_json_enc_struct)
qed

lemma ReadRequest_encoded:
  assumes "utf8_request m" and "rq_Body r = Some (EncodingMetadataRequest m)"
  shows "ReadRequest r =
    (Some (zero_MetadataRequest\<lparr>mr_Principal := mr_Principal m, mr_ParentBear := mr_ParentBear m,
       mr_OtherValues := mr_OtherValues m, mr_Auth := mr_Auth m, mr_targetType := NORMAL_INSTANCE_TYPE\<rparr>), StatusOK)"
proof -
  obtain arr where "dec_strings (case mr_OtherValues m of None \<Rightarrow> JNull | Some vs \<Rightarrow> JArr (map JStr vs)) (None, []) =
      ((mr_OtherValues m, arr), True)"
    using dec_strings_array [of _ "(None, [])"] by (cases "mr_OtherValues m") auto
  with parse_request [OF assms(1)] show ?thesis
    by (simp add: ReadRequest_def assms(2) dec_MetadataRequest_def dec_struct_def req_members_def find_field_def
        upd_MetadataRequest_def zero_MetadataRequest_def)
qed

end
