(* ===== verification/Handlers.thy ===== *)
theory Handlers
  imports Proxy
begin

text \<open>
  The handlers of instance and configuration requests (\<open>proxy/newapi.go\<close>). A handler
  authenticates the speaker, runs a pre hook on the request, forwards it to SAFE and hands the
  answer to a post hook. The hooks share the request, which the pre hooks change: a pre hook
  returns the changed request beside its message and status.
\<close>

section \<open>Hooks and forwarding\<close>

type_synonym ('t, 'w) pre_hook = "MetadataRequest \<Rightarrow> (('t, 'w) proxy, MetadataRequest \<times> string \<times> int) go"
type_synonym ('t, 'w) post_hook = "MetadataRequest \<Rightarrow> string \<Rightarrow> int \<Rightarrow> (('t, 'w) proxy, string \<times> int) go"

text \<open>\<open>xs[i]\<close> in a program: a panic out of range.\<close>

definition go_nth :: "'a list \<Rightarrow> nat \<Rightarrow> ('s, 'a) go" where
  "go_nth xs i = (case slice_get xs i of None \<Rightarrow> go_panic | Some x \<Rightarrow> go_return x)"

definition set_val :: "MetadataRequest \<Rightarrow> nat \<Rightarrow> string \<Rightarrow> MetadataRequest" where
  "set_val mr i v = mr\<lparr>mr_OtherValues := Some ((mr_vals mr)[i := v])\<rparr>"

text \<open>newHandler after the pre hook.\<close>

definition forward :: "('t, 'w) env \<Rightarrow> MetadataRequest \<Rightarrow> ('t, 'w) post_hook option
    \<Rightarrow> (('t, 'w) proxy, string \<times> int) go" where
  "forward E mr postHook s =
     (let url = getUrl (px_addr s) (mr_url mr)
      in case en_newreq E (mr_method mr) url of
           Some err \<Rightarrow> (Ret (''fail to generate new request '' @ err @ [CHR 10], StatusInternalServerError), s)
         | None \<Rightarrow>
             (case en_do E \<lparr>or_Method = mr_method mr, or_Url = url, or_Body = EncodingMetadataRequest mr\<rparr> (px_world s) of
                (res, w) \<Rightarrow>
                  (let s' = s\<lparr>px_world := w\<rparr>
                   in case res of
                        DoError err resp \<Rightarrow>
                          (Ret (''error proxying post instance set '' @ err @ [CHR 10],
                                case resp of None \<Rightarrow> StatusInternalServerError | Some code \<Rightarrow> code), s')
                      | DoResponse code body \<Rightarrow>
                          (case body of
                             Inl err \<Rightarrow> (Ret (''error reading the response from server: '' @ err @ [CHR 10],
                                            StatusInternalServerError), s')
                           | Inr dat \<Rightarrow>
                               (case postHook of
                                  Some h \<Rightarrow> h mr dat code s'
                                | None \<Rightarrow> (Ret (dat, code), s'))))))"

definition newHandler :: "('t, 'w) env \<Rightarrow> MetadataRequest \<Rightarrow> ('t, 'w) pre_hook option \<Rightarrow> ('t, 'w) post_hook option
    \<Rightarrow> (('t, 'w) proxy, string \<times> int) go" where
  "newHandler E mr0 preHook postHook =
     go_bind (case preHook of Some h \<Rightarrow> h mr0 | None \<Rightarrow> go_return (mr0, [], StatusOK))
       (\<lambda>(mr, msg, status). if status \<noteq> StatusOK then go_return (msg, status) else forward E mr postHook)"

definition newHandlerUnwrapped :: "('t, 'w) env \<Rightarrow> http_request \<Rightarrow> ('t, 'w) pre_hook option
    \<Rightarrow> ('t, 'w) post_hook option \<Rightarrow> bool \<Rightarrow> (('t, 'w) proxy, string \<times> int) go" where
  "newHandlerUnwrapped E r preHook postHook authPrincipal =
     go_bind (newAuth E r authPrincipal)
       (\<lambda>(metareq, status).
          if status \<noteq> StatusOK then go_return (''can not authenticate request'' @ [CHR 10], status)
          else (case metareq of None \<Rightarrow> go_panic | Some mr \<Rightarrow> newHandler E mr preHook postHook))"

text \<open>SetCommonHeader; WriteHeader, which panics on a code that has not three digits; Write.\<close>

definition respond :: "string \<times> int \<Rightarrow> ('s, http_response) go" where
  "respond ms =
     (case ms of (msg, status) \<Rightarrow>
        if status < 100 \<or> 999 < status then go_panic
        else go_return \<lparr>hr_status = status, hr_ContentType = ''application/json'', hr_body = msg\<rparr>)"

text \<open>A handler that only logs: net/http answers 200 with an empty body.\<close>

definition NotImplemented :: "http_request \<Rightarrow> (('t, 'w) proxy, http_response) go" where
  "NotImplemented r = go_return \<lparr>hr_status = StatusOK, hr_ContentType = [], hr_body = []\<rparr>"

section \<open>Creating and deleting instances\<close>

definition workaroundEmptyTrustHub :: "MetadataRequest \<Rightarrow> MetadataRequest" where
  "workaroundEmptyTrustHub mr =
     (if length (mr_vals mr) = 4 \<and> mr_Principal mr = IaaSProvider
      then mr\<lparr>mr_OtherValues := Some (mr_vals mr @ [DEFAULT_VM_TRUST_HUB])\<rparr>
      else if length (mr_vals mr) = 3
      then mr\<lparr>mr_OtherValues := Some (mr_vals mr @ [DEFAULT_CTN_TRUST_HUB])\<rparr>
      else mr)"

definition authz_message :: "MetadataRequest \<Rightarrow> string" where
  "authz_message mr =
     ''can not authorize request: '' @ mr_Principal mr @ '', '' @
     IP_String (mr_ip mr) @ '':'' @ int_dec (mr_lport mr) @ ''-'' @ int_dec (mr_rport mr) @ '' to '' @
     IP_String (mr_targetIp mr) @ '':'' @ int_dec (mr_targetLport mr) @ ''-'' @ int_dec (mr_targetRport mr) @ [CHR 10]"

definition preInstanceCallHandler :: "('t, 'w) env \<Rightarrow> ('t, 'w) pre_hook" where
  "preInstanceCallHandler E mr =
     (let targetAddrIndex = (if mr_targetAddrIndex mr > 0 then nat (mr_targetAddrIndex mr) else 2)
      in go_bind (go_nth (mr_vals mr) targetAddrIndex) (\<lambda>target.
         go_bind (authzControl E mr target False) (\<lambda>(mr, status).
           if status \<noteq> StatusOK then go_return (mr, authz_message mr, status)
           else go_return (mr, [], StatusOK))))"

definition done_message :: "string \<Rightarrow> string" where
  "done_message pid =
     CHR ''{'' # quote # ''message'' @ quote # '': '' @ quote # ''['' @ CHR 39 # pid @ CHR 39 # '']'' @ quote # ''}'' @ [CHR 10]"

text \<open>The status of PutInstance and of DelInstance is ignored.\<close>

definition postInstanceCreationHandler :: "('t, 'w) env \<Rightarrow> ('t, 'w) post_hook" where
  "postInstanceCreationHandler E mr dat status =
     (if status \<noteq> StatusOK then go_return (dat, status)
      else go_bind (go_nth (mr_vals mr) 0) (\<lambda>pid.
        (let inst = \<lparr>ci_Ip = mr_targetIp mr, ci_Lport = mr_targetLport mr, ci_Rport = mr_targetRport mr,
                     ci_ID = \<lparr>ic_Pid = pid, ic_PPid = mr_Principal mr, ic_Cidr = mr_targetCidr mr,
                              ic_Type = mr_targetType mr\<rparr>\<rparr>
         in go_bind (mr_with_cache mr (PutInstance (en_tree E) (en_conn E) inst))
              (\<lambda>_. go_return (done_message pid, StatusOK)))))"

definition postInstanceDeletionHandler :: "('t, 'w) env \<Rightarrow> ('t, 'w) post_hook" where
  "postInstanceDeletionHandler E mr dat status =
     (if status \<noteq> StatusOK then go_return (dat, status)
      else go_bind (go_nth (mr_vals mr) 0) (\<lambda>pid.
        go_bind (mr_with_cache mr (DelInstance (en_tree E) (en_conn E)
                   (mr_targetIp mr) (mr_targetLport mr) (mr_targetRport mr) pid))
          (\<lambda>_. go_return (done_message pid, StatusOK))))"

definition preVMInstanceCallHandler :: "('t, 'w) env \<Rightarrow> ('t, 'w) pre_hook" where
  "preVMInstanceCallHandler E mr =
     (if mr_Principal mr \<noteq> IaaSProvider then go_return (mr, ''only IaaS provider can create VM'', StatusUnauthorized)
      else go_bind (go_nth (mr_vals mr) 4) (\<lambda>text.
        (case ParseCIDR text of
           None \<Rightarrow> go_return (mr, ''can not allocate CIDR invalid CIDR address: '' @ text @ [CHR 10], StatusBadRequest)
         | Some cidr \<Rightarrow>
             preInstanceCallHandler E
               (mr\<lparr>mr_targetCidr := Some cidr, mr_targetType := VM_INSTANCE_TYPE, mr_targetAddrIndex := 3\<rparr>))))"

definition preLegacyInstanceCallHandler :: "('t, 'w) env \<Rightarrow> ('t, 'w) pre_hook" where
  "preLegacyInstanceCallHandler E mr =
     (if mr_Principal mr = IaaSProvider
      then go_return (mr, ''Should not use legacy API to create VMs!'', StatusBadRequest)
      else go_bind (go_nth (mr_vals mr) 0) (\<lambda>v0.
           go_bind (go_nth (mr_vals mr) 1) (\<lambda>v1.
             preInstanceCallHandler E (mr\<lparr>mr_OtherValues := Some [v0, v1]\<rparr>))))"

definition createInstance :: "('t, 'w) env \<Rightarrow> http_request \<Rightarrow> (('t, 'w) proxy, http_response) go" where
  "createInstance E r =
     go_bind (newHandlerUnwrapped E r (Some (preInstanceCallHandler E)) (Some (postInstanceCreationHandler E)) True) respond"

definition createInstanceLegacy :: "('t, 'w) env \<Rightarrow> http_request \<Rightarrow> (('t, 'w) proxy, http_response) go" where
  "createInstanceLegacy E r =
     go_bind (newHandlerUnwrapped E r (Some (preLegacyInstanceCallHandler E)) (Some (postInstanceCreationHandler E)) True) respond"

definition createVMInstance :: "('t, 'w) env \<Rightarrow> http_request \<Rightarrow> (('t, 'w) proxy, http_response) go" where
  "createVMInstance E r =
     go_bind (newHandlerUnwrapped E r (Some (preVMInstanceCallHandler E)) (Some (postInstanceCreationHandler E)) True) respond"

definition deleteInstance :: "('t, 'w) env \<Rightarrow> http_request \<Rightarrow> (('t, 'w) proxy, http_response) go" where
  "deleteInstance E r =
     go_bind (newHandlerUnwrapped E r (Some (preInstanceCallHandler E)) (Some (postInstanceDeletionHandler E)) True) respond"

definition deleteVMInstance :: "('t, 'w) env \<Rightarrow> http_request \<Rightarrow> (('t, 'w) proxy, http_response) go" where
  "deleteVMInstance E r =
     go_bind (newHandlerUnwrapped E r (Some (preVMInstanceCallHandler E)) (Some (postInstanceDeletionHandler E)) True) respond"

definition preLazyDelete :: "('t, 'w) env \<Rightarrow> ('t, 'w) pre_hook" where
  "preLazyDelete E mr =
     go_bind (go_nth (mr_vals mr) 0) (\<lambda>target.
     go_bind (authzControl E mr target True) (\<lambda>(mr, status).
       if status \<noteq> StatusOK then go_return (mr, authz_message mr, status)
       else go_return (mr\<lparr>mr_targetType := NORMAL_INSTANCE_TYPE, mr_targetCidr := None\<rparr>, [], StatusOK)))"

definition lazyDeleteInstance :: "('t, 'w) env \<Rightarrow> http_request \<Rightarrow> (('t, 'w) proxy, http_response) go" where
  "lazyDeleteInstance E r =
     go_bind (newHandlerUnwrapped E r (Some (preLazyDelete E)) (Some (postInstanceDeletionHandler E)) True) respond"

section \<open>Endorsements, membership, checks\<close>

definition preEndorsementLink :: "('t, 'w) env \<Rightarrow> ('t, 'w) pre_hook" where
  "preEndorsementLink E mr =
     go_bind (go_nth (mr_vals mr) 0) (\<lambda>who.
     go_bind (authenticate E mr who) (\<lambda>(creator, status).
       if status \<noteq> StatusOK then go_return (mr, [], StatusOK)
       else (case creator of
               None \<Rightarrow> go_panic
             | Some inst \<Rightarrow> go_return (set_val mr 0 (ic_Pid (ci_ID inst)), [], StatusOK))))"

definition createEndorsementLink :: "('t, 'w) env \<Rightarrow> http_request \<Rightarrow> (('t, 'w) proxy, http_response) go" where
  "createEndorsementLink E r = go_bind (newHandlerUnwrapped E r (Some (preEndorsementLink E)) None False) respond"

definition preEndorsement :: "('t, 'w) pre_hook" where
  "preEndorsement mr =
     go_return (if mr_instance mr \<noteq> None then mr\<lparr>mr_url := Replace1 (mr_url mr) ''/post'' ''/postInstance''\<rparr> else mr,
                [], StatusOK)"

definition createEndorsement :: "('t, 'w) env \<Rightarrow> http_request \<Rightarrow> (('t, 'w) proxy, http_response) go" where
  "createEndorsement E r = go_bind (newHandlerUnwrapped E r (Some preEndorsement) None False) respond"

definition preMembership :: "('t, 'w) env \<Rightarrow> ('t, 'w) pre_hook" where
  "preMembership E mr =
     go_bind (go_nth (mr_vals mr) 1) (\<lambda>who.
     go_bind (authenticate E mr who) (\<lambda>(member, status).
       if status \<noteq> StatusOK then go_return (mr, ''cannot authenticate membership creator'' @ [CHR 10], status)
       else (case member of
               None \<Rightarrow> go_panic
             | Some inst \<Rightarrow> go_return (set_val mr 1 (ic_Pid (ci_ID inst)), [], StatusOK))))"

definition createMembership :: "('t, 'w) env \<Rightarrow> http_request \<Rightarrow> (('t, 'w) proxy, http_response) go" where
  "createMembership E r = go_bind (newHandlerUnwrapped E r (Some (preMembership E)) None True) respond"

definition preCheckInstance :: "('t, 'w) env \<Rightarrow> ('t, 'w) pre_hook" where
  "preCheckInstance E mr =
     go_bind (go_nth (mr_vals mr) 0) (\<lambda>who.
       if who = IaaSProvider then go_return (mr, [], StatusOK)
       else go_bind (authenticate E mr who) (\<lambda>(target, status).
         if status \<noteq> StatusOK then go_return (mr\<lparr>mr_ParentBear := ''no-such-pid''\<rparr>, [], StatusOK)
         else (case target of
                 None \<Rightarrow> go_panic
               | Some inst \<Rightarrow>
                   go_return ((set_val mr 0 (ic_Pid (ci_ID inst)))\<lparr>mr_ParentBear := ic_PPid (ci_ID inst)\<rparr>, [], StatusOK))))"

definition handleCheckInstance :: "('t, 'w) env \<Rightarrow> http_request \<Rightarrow> (('t, 'w) proxy, http_response) go" where
  "handleCheckInstance E r = go_bind (newHandlerUnwrapped E r (Some (preCheckInstance E)) None False) respond"

definition handleOther :: "('t, 'w) env \<Rightarrow> http_request \<Rightarrow> (('t, 'w) proxy, http_response) go" where
  "handleOther E r = go_bind (newHandlerUnwrapped E r None None True) respond"

definition handleOtherNoAuth :: "('t, 'w) env \<Rightarrow> http_request \<Rightarrow> (('t, 'w) proxy, http_response) go" where
  "handleOtherNoAuth E r = go_bind (newHandlerUnwrapped E r None None False) respond"

definition vars_get :: "http_request \<Rightarrow> string \<Rightarrow> string" where
  "vars_get r k = (case rq_Vars r k of None \<Rightarrow> [] | Some v \<Rightarrow> v)"

text \<open>The lookup by address always uses the cache of the hash of 1.\<close>

definition authenticateAddr :: "('t, 'w) env \<Rightarrow> http_request \<Rightarrow> (('t, 'w) proxy, http_response) go" where
  "authenticateAddr E r =
     (let saddr = vars_get r ''instance_addr''
      in go_bind (getCache saddr ''1'') (\<lambda>cache.
         (case ParseIP2 saddr of
            (addr, port, _, status) \<Rightarrow>
              (let netaddr = ParseIP addr
               in if status \<noteq> StatusOK \<or> netaddr = nil_IP
                  then go_return \<lparr>hr_status = StatusBadRequest, hr_ContentType = [], hr_body = []\<rparr>
                  else go_bind (with_cache cache (GetInstanceFromNetMap (en_tree E) (en_conn E) netaddr port))
                    (\<lambda>(inst, status).
                       if status \<noteq> StatusOK
                       then go_return \<lparr>hr_status = StatusNotFound, hr_ContentType = [], hr_body = []\<rparr>
                       else (case inst of
                               None \<Rightarrow> go_panic
                             | Some inst \<Rightarrow>
                                 go_return \<lparr>hr_status = StatusOK, hr_ContentType = [],
                                   hr_body = ic_Pid (ci_ID inst) @ [CHR 10] @ ic_PPid (ci_ID inst) @ [CHR 10]\<rparr>))))))"

end
