(* ===== verification/Configs.thy ===== *)
theory Configs
  imports Handlers
begin

text \<open>
  The handlers that publish configurations (\<open>proxy/newapi.go\<close>: createSelfConfig,
  createInstanceConfig, createInstanceKvConfig). SAFE takes at most five key-value pairs in a
  call, so the first two post the values in chunks of ten and leave the rest to the request
  itself.
\<close>

section \<open>Posting in chunks\<close>

text \<open>The request the loops send: a copy with new values, of which only these fields are set.\<close>

definition copy_request :: "MetadataRequest \<Rightarrow> string list \<Rightarrow> string \<Rightarrow> MetadataRequest" where
  "copy_request mr args url =
     zero_MetadataRequest\<lparr>mr_Principal := mr_Principal mr, mr_Auth := mr_Auth mr, mr_OtherValues := Some args,
       mr_method := ''POST'', mr_url := url, mr_instance := mr_instance mr, mr_cache := mr_cache mr\<rparr>"

text \<open>
  The loop of both handlers. It ends with the message and status of a call that failed, or with
  the position and the number of the values left. The slice expression panics past the end; Go
  compares it with the capacity, which is no less, but the position and the number of the values
  left always add up to the length, so that neither bound is ever crossed.
\<close>

function post_chunks :: "('t, 'w) env \<Rightarrow> MetadataRequest \<Rightarrow> nat \<Rightarrow> nat
    \<Rightarrow> (('t, 'w) proxy, (string \<times> int) + (nat \<times> nat)) go" where
  "post_chunks E mr current remain =
     (if remain > 10 then
        go_bind (go_nth (mr_vals mr) 0) (\<lambda>v0.
          if current + 10 \<le> length (mr_vals mr) then
            go_bind (newHandler E (copy_request mr (v0 # take 10 (drop current (mr_vals mr))) ''/postInstanceConfig5'') None None)
              (\<lambda>(msg, status). if status \<noteq> StatusOK then go_return (Inl (msg, status))
                                else post_chunks E mr (current + 10) (remain - 10))
          else go_panic)
      else go_return (Inr (current, remain)))"
  by pat_completeness auto
termination by (relation "measure (\<lambda>(E, mr, current, remain). remain)") auto

declare post_chunks.simps [simp del]

text \<open>What both handlers do with the values: chunks, then the rest under the url with a number.\<close>

definition post_config :: "('t, 'w) env \<Rightarrow> (MetadataRequest \<Rightarrow> string) \<Rightarrow> ('t, 'w) pre_hook" where
  "post_config E base mr =
     go_bind (post_chunks E mr 1 (length (mr_vals mr) - 1)) (\<lambda>res.
       case res of
         Inl (msg, status) \<Rightarrow> go_return (mr, msg, status)
       | Inr (current, remain) \<Rightarrow>
           go_return (mr\<lparr>mr_OtherValues := Some (take 1 (mr_vals mr) @ drop current (mr_vals mr)), mr_method := ''POST'',
                         mr_url := base mr @ nat_dec (remain div 2)\<rparr>, [], StatusOK))"

definition preSelfConfig :: "('t, 'w) env \<Rightarrow> ('t, 'w) pre_hook" where
  "preSelfConfig E mr =
     post_config E (\<lambda>_. ''/postInstanceConfig'') (mr\<lparr>mr_OtherValues := Some (mr_Principal mr # mr_vals mr)\<rparr>)"

definition createSelfConfig :: "('t, 'w) env \<Rightarrow> http_request \<Rightarrow> (('t, 'w) proxy, http_response) go" where
  "createSelfConfig E r = go_bind (newHandlerUnwrapped E r (Some (preSelfConfig E)) None True) respond"

section \<open>Configurations of another instance\<close>

text \<open>
  The start of createInstanceConfig and createInstanceKvConfig: the first value is an instance,
  and the speaker is its parent. The rest gets the request with the value replaced by the id.
\<close>

definition parent_only :: "('t, 'w) env \<Rightarrow> (CachedInstance \<Rightarrow> ('t, 'w) pre_hook) \<Rightarrow> ('t, 'w) pre_hook" where
  "parent_only E rest mr =
     go_bind (go_nth (mr_vals mr) 0) (\<lambda>target.
     go_bind (authenticate E mr target) (\<lambda>(cached, status).
       if status \<noteq> StatusOK then go_return (mr, ''Fail to authenticate the instance '' @ target, status)
       else (case cached of
               None \<Rightarrow> go_panic
             | Some inst \<Rightarrow>
                 if mr_Principal mr \<noteq> ic_PPid (ci_ID inst)
                 then go_return (mr, ''Config can only be published by host instance:Speaker: '' @ mr_Principal mr @
                        '', Pid: '' @ ic_Pid (ci_ID inst) @ '', Saved-PPid: '' @ ic_PPid (ci_ID inst), StatusUnauthorized)
                 else rest inst (set_val mr 0 (ic_Pid (ci_ID inst))))))"

definition preInstanceConfig :: "('t, 'w) env \<Rightarrow> ('t, 'w) pre_hook" where
  "preInstanceConfig E = parent_only E (\<lambda>inst. post_config E mr_url)"

definition createInstanceConfig :: "('t, 'w) env \<Rightarrow> http_request \<Rightarrow> (('t, 'w) proxy, http_response) go" where
  "createInstanceConfig E r = go_bind (newHandlerUnwrapped E r (Some (preInstanceConfig E)) None True) respond"

section \<open>Key-value lists\<close>

definition kv_text :: "string \<Rightarrow> string \<Rightarrow> string" where
  "kv_text key val =
     CHR ''['' # backslash # quote # key @ backslash # quote # '', '' @ backslash # quote # val @ backslash # quote # '']''"

text \<open>The loop over the pairs; None is an index out of range.\<close>

function kv_pairs :: "string list \<Rightarrow> nat \<Rightarrow> string list option" where
  "kv_pairs vs current =
     (if current < length vs then
        (case slice_get vs (current + 1) of
           None \<Rightarrow> None
         | Some val \<Rightarrow> map_option (\<lambda>rest. kv_text (vs ! current) val # rest) (kv_pairs vs (current + 2)))
      else Some [])"
  by pat_completeness auto
termination by (relation "measure (\<lambda>(vs, current). length vs - current)") auto

declare kv_pairs.simps [simp del]

definition kv_list :: "string list \<Rightarrow> string" where
  "kv_list texts = quote # ''['' @ Join texts '','' @ '']'' @ [quote]"

text \<open>
  The values are at least four, so appending to the slice of the first two overwrites the third
  value of the request, which is forwarded afterwards.
\<close>

definition postKvConfig :: "('t, 'w) env \<Rightarrow> CachedInstance \<Rightarrow> ('t, 'w) pre_hook" where
  "postKvConfig E inst mr =
     (let remain = length (mr_vals mr) - 1
      in if remain mod 2 = 0 \<or> remain < 2
         then go_return (mr, ''Config must be key value list:Speaker: '' @ mr_Principal mr @
                '', Pid: '' @ ic_Pid (ci_ID inst) @ '', Saved-PPid: '' @ ic_PPid (ci_ID inst), StatusBadRequest)
         else (case kv_pairs (mr_vals mr) 2 of
                 None \<Rightarrow> go_panic
               | Some result \<Rightarrow>
                   (let actualArgs = take 2 (mr_vals mr) @ [kv_list result];
                        mr' = set_val mr 2 (kv_list result)
                    in go_bind (newHandler E (copy_request mr' actualArgs ''/postInstanceConfig1'') None None)
                         (\<lambda>(msg, status). if status \<noteq> StatusOK then go_return (mr', msg, status)
                                           else go_return (mr', [], StatusOK)))))"

definition preInstanceKvConfig :: "('t, 'w) env \<Rightarrow> ('t, 'w) pre_hook" where
  "preInstanceKvConfig E = parent_only E (postKvConfig E)"

definition createInstanceKvConfig :: "('t, 'w) env \<Rightarrow> http_request \<Rightarrow> (('t, 'w) proxy, http_response) go" where
  "createInstanceKvConfig E r = go_bind (newHandlerUnwrapped E r (Some (preInstanceKvConfig E)) None True) respond"

end
