(* ===== verification/Pods.thy ===== *)
theory Pods
  imports Proxy
begin

text \<open>
  Pods (\<open>proxy/pod.go\<close>): a map from addresses to pods in the proxy, its upload and its lookup.
  The map has no lock; an operation is atomic here.
\<close>

record PodRequest =
  pr_Uuid :: string
  pr_Tag :: string
  pr_Addr :: string

definition upd_PodRequest :: "string \<Rightarrow> json \<Rightarrow> PodRequest \<Rightarrow> PodRequest \<times> bool" where
  "upd_PodRequest f v p =
     (if f = ''Uuid'' then (let (x, ok) = dec_string v (pr_Uuid p) in (p\<lparr>pr_Uuid := x\<rparr>, ok))
      else if f = ''tag'' then (let (x, ok) = dec_string v (pr_Tag p) in (p\<lparr>pr_Tag := x\<rparr>, ok))
      else (let (x, ok) = dec_string v (pr_Addr p) in (p\<lparr>pr_Addr := x\<rparr>, ok)))"

definition ParsePodRequest :: "string option \<Rightarrow> PodRequest option" where
  "ParsePodRequest body =
     (case body of
        None \<Rightarrow> None
      | Some dat \<Rightarrow>
          (let (p, ok) = dec_struct [''Uuid'', ''tag'', ''Addr''] upd_PodRequest
                           \<lparr>pr_Uuid = [], pr_Tag = [], pr_Addr = []\<rparr> dat
           in if ok then Some p else None))"

definition postPodNew :: "http_request \<Rightarrow> (('t, 'w) proxy, http_response) go" where
  "postPodNew r s =
     (case ParsePodRequest (rq_Body r) of
        None \<Rightarrow> (Ret \<lparr>hr_status = StatusBadRequest, hr_ContentType = [], hr_body = []\<rparr>, s)
      | Some podReq \<Rightarrow>
          (Ret \<lparr>hr_status = StatusOK, hr_ContentType = [], hr_body = []\<rparr>,
           s\<lparr>px_pods := (px_pods s)(pr_Addr podReq \<mapsto> \<lparr>pod_Uuid = pr_Uuid podReq, pod_Tag = pr_Tag podReq\<rparr>)\<rparr>))"

definition authPodInner :: "('t, 'w) proxy \<Rightarrow> string \<Rightarrow> Pod option" where
  "authPodInner s addr = px_pods s addr"

definition pod_response :: "Pod \<Rightarrow> http_response" where
  "pod_response pod =
     \<lparr>hr_status = StatusOK, hr_ContentType = [], hr_body = pod_Uuid pod @ [CHR 10] @ pod_Tag pod @ [CHR 10]\<rparr>"

definition authPodNew :: "http_request \<Rightarrow> (('t, 'w) proxy, http_response) go" where
  "authPodNew r s =
     (let saddr = (case rq_Vars r ''addr'' of None \<Rightarrow> [] | Some v \<Rightarrow> v)
      in case authPodInner s saddr of
           Some pod \<Rightarrow> (Ret (pod_response pod), s)
         | None \<Rightarrow>
             (case ParseIP2 saddr of
                (addr, _, _, status) \<Rightarrow>
                  if status \<noteq> StatusOK \<or> addr = []
                  then (Ret \<lparr>hr_status = StatusBadRequest, hr_ContentType = [], hr_body = []\<rparr>, s)
                  else (case authPodInner s addr of
                          Some pod \<Rightarrow> (Ret (pod_response pod), s)
                        | None \<Rightarrow> (Ret \<lparr>hr_status = StatusNotFound, hr_ContentType = [], hr_body = []\<rparr>, s))))"

section \<open>Cached pods\<close>

text \<open>
  The pods of the cache and of Riak (\<open>types.go\<close>, \<open>cache.go\<close>, \<open>riak.go\<close>): operations that are
  declared and do nothing. A time is a number; the results of GetPodMap are the pod, if there is
  one, and no error (\<open>True\<close>).
\<close>

record CachedPod =
  cp_Ip :: IP
  cp_Expire :: int
  cp_PodInstance :: Pod

definition GetPod :: "CachedPod \<Rightarrow> (('t, 'w) cstate, int) go" where
  "GetPod inst = go_return 0"

definition PutPod :: "CachedPod \<Rightarrow> int \<Rightarrow> (('t, 'w) cstate, int) go" where
  "PutPod inst expireSec = go_return 0"

definition PutPodMap :: "IP \<Rightarrow> CachedPod \<Rightarrow> 'w \<Rightarrow> bool \<times> 'w" where
  "PutPodMap ip pod w = (True, w)"

definition GetPodMap :: "IP \<Rightarrow> 'w \<Rightarrow> (CachedPod option \<times> bool) \<times> 'w" where
  "GetPodMap ip w = ((None, True), w)"

section \<open>Property\<close>

lemma authPodNew_found: "rq_Vars r ''addr'' = Some a \<Longrightarrow> px_pods s a = Some pod \<Longrightarrow> authPodNew r s = (Ret (pod_response pod), s)"
  by (simp add: authPodNew_def authPodInner_def)

lemma authPodNew_by_ip:
  assumes "rq_Vars r ''addr'' = Some a" and "px_pods s a = None" and "ParseIP2 a = (ip, p, e, StatusOK)"
    and "px_pods s ip = Some pod" and "ip \<noteq> []"
  shows "authPodNew r s = (Ret (pod_response pod), s)"
  using assms by (simp add: authPodNew_def authPodInner_def)

text \<open>C40: a pod that was uploaded is found: authPod answers 200 with the id and the tag of the last
  upload for the address as it was uploaded, and also for an address and port that parse to the
  uploaded IP unless that text was itself uploaded. An upload changes no other address.\<close>

theorem pod_upload_lookup:
  assumes "ParsePodRequest (rq_Body up) = Some p" and "postPodNew up s = (out, s')"
    and "rq_Vars r ''addr'' = Some a"
    and "a = pr_Addr p \<or> (px_pods s a = None \<and> a \<noteq> pr_Addr p \<and> ParseIP2 a = (pr_Addr p, port, - 1, StatusOK) \<and> pr_Addr p \<noteq> [])"
  shows "authPodNew r s' =
      (Ret \<lparr>hr_status = StatusOK, hr_ContentType = [], hr_body = pr_Uuid p @ [CHR 10] @ pr_Tag p @ [CHR 10]\<rparr>, s') \<and>
    px_pods s' = (px_pods s)(pr_Addr p \<mapsto> \<lparr>pod_Uuid = pr_Uuid p, pod_Tag = pr_Tag p\<rparr>)"
proof -
  let ?pod = "\<lparr>pod_Uuid = pr_Uuid p, pod_Tag = pr_Tag p\<rparr>"
  have pods: "px_pods s' = (px_pods s)(pr_Addr p \<mapsto> ?pod)" using assms(1,2) by (auto simp: postPodNew_def)
  from assms(4) have "authPodNew r s' = (Ret (pod_response ?pod), s')"
  proof
    assume "a = pr_Addr p"
    then show ?thesis using assms(3) pods by (intro authPodNew_found) auto
  next
    assume "px_pods s a = None \<and> a \<noteq> pr_Addr p \<and> ParseIP2 a = (pr_Addr p, port, - 1, StatusOK) \<and> pr_Addr p \<noteq> []"
    then show ?thesis using assms(3) pods by (intro authPodNew_by_ip) auto
  qed
  with pods show ?thesis by (simp add: pod_response_def)
qed

definition demo_upload :: http_request where
  "demo_upload = \<lparr>rq_Method = ''POST'', rq_RequestURI = ''/postPod'', rq_RemoteAddr = [],
     rq_Body = Some (enc_struct [(''Uuid'', enc_string ''u1''), (''tag'', enc_string ''blue''), (''Addr'', enc_string ''p1'')]),
     rq_Vars = Map.empty\<rparr>"

lemma ParsePod_demo: "ParsePodRequest (rq_Body demo_upload) = Some \<lparr>pr_Uuid = ''u1'', pr_Tag = ''blue'', pr_Addr = ''p1''\<rparr>"
proof -
  have utf: "valid_utf8 ''Uuid''" "valid_utf8 ''tag''" "valid_utf8 ''Addr''" "valid_utf8 ''u1''" "valid_utf8 ''blue''" "valid_utf8 ''p1''"
    by (rule valid_utf8_ascii; simp add: in_byte_def)+
  let ?ms = "[(''Uuid'', enc_string ''u1'', JStr ''u1''), (''tag'', enc_string ''blue'', JStr ''blue''), (''Addr'', enc_string ''p1'', JStr ''p1'')]"
  have "\<forall>(n, e, j) \<in> set ?ms. valid_utf8 n \<and> encodes e j" using utf by (simp add: encodes_string)
  from parse_json_enc_struct [OF _ this]
  have "parse_json (enc_struct [(''Uuid'', enc_string ''u1''), (''tag'', enc_string ''blue''), (''Addr'', enc_string ''p1'')]) =
      Some (JObj [(''Uuid'', JStr ''u1''), (''tag'', JStr ''blue''), (''Addr'', JStr ''p1'')])" by simp
  then show ?thesis
    by (simp add: ParsePodRequest_def demo_upload_def dec_struct_def find_field_def upd_PodRequest_def Let_def)
qed

definition empty_proxy :: "(unit, unit) proxy" where
  "empty_proxy = \<lparr>px_addr = [], px_caches = [], px_pods = Map.empty, px_world = ()\<rparr>"

theorem pod_upload_lookup_witness:
  "fst (authPodNew (demo_upload\<lparr>rq_Vars := [''addr'' \<mapsto> ''p1'']\<rparr>) (snd (postPodNew demo_upload empty_proxy))) =
     Ret \<lparr>hr_status = StatusOK, hr_ContentType = [], hr_body = ''u1'' @ [CHR 10] @ ''blue'' @ [CHR 10]\<rparr>"
proof -
  obtain out s' where up: "postPodNew demo_upload empty_proxy = (out, s')" by fastforce
  have "rq_Vars (demo_upload\<lparr>rq_Vars := [''addr'' \<mapsto> ''p1'']\<rparr>) ''addr'' = Some ''p1''" by simp
  from pod_upload_lookup [OF ParsePod_demo up this, of 0] up show ?thesis by simp
qed

end
