(* ===== verification/KvStore.thy ===== *)
theory KvStore
  imports GoStrings
begin

text \<open>
  The key-value store of \<open>proxy/internal/pkg/kvstore/store.go\<close>: one \<open>store\<close> with its
  data, its reverse index and its operations. The mutex of a store makes each operation
  atomic, so an operation is a function from the store to the store. The invariant
  \<open>store_inv\<close> ties the index to the data, occurrence by occurrence.
\<close>

section \<open>State (store.go: store)\<close>

record store =
  s_data :: "string \<rightharpoonup> string list"
  s_index :: "string \<rightharpoonup> string list"
  s_buildIndex :: bool
  s_changed :: bool

text \<open>The composite literal of NewStore: empty maps, changed set so that the file is written.\<close>

definition new_store :: "bool \<Rightarrow> store" where
  "new_store b = \<lparr>s_data = Map.empty, s_index = Map.empty, s_buildIndex = b, s_changed = True\<rparr>"

section \<open>Operations\<close>

text \<open>The position of the first occurrence, as the loop with \<open>break\<close> finds it.\<close>

fun index_of :: "'a \<Rightarrow> 'a list \<Rightarrow> nat option" where
  "index_of p [] = None"
| "index_of p (k # ks) = (if k = p then Some 0 else map_option Suc (index_of p ks))"

definition removeOneIndex :: "store \<Rightarrow> string \<Rightarrow> string \<Rightarrow> store" where
  "removeOneIndex s path dat =
     (if s_buildIndex s then
        (case s_index s dat of
           None \<Rightarrow> s
         | Some indexes \<Rightarrow>
             (case index_of path indexes of
                None \<Rightarrow> s
              | Some i \<Rightarrow>
                  s\<lparr>s_index := (s_index s)(dat \<mapsto> take i indexes @ drop (i + 1) indexes)\<rparr>))
      else s)"

definition removeIndexes :: "store \<Rightarrow> string \<Rightarrow> store" where
  "removeIndexes s path =
     (if s_buildIndex s then
        (case s_data s path of
           None \<Rightarrow> s
         | Some dataItems \<Rightarrow> foldl (\<lambda>s item. removeOneIndex s path item) s dataItems)
      else s)"

definition append_index :: "store \<Rightarrow> string \<Rightarrow> string \<Rightarrow> store" where
  "append_index s v path = s\<lparr>s_index := (s_index s)(v \<mapsto> map_slice (s_index s) v @ [path])\<rparr>"

definition Put :: "store \<Rightarrow> string \<Rightarrow> string \<Rightarrow> store" where
  "Put s0 path dat =
     (let s1 = removeIndexes s0 path;
          s2 = s1\<lparr>s_data := (s_data s1)(path \<mapsto> [dat])\<rparr>;
          s3 = (if s_buildIndex s2 then append_index s2 dat path else s2)
      in s3\<lparr>s_changed := True\<rparr>)"

definition Get :: "store \<Rightarrow> string \<Rightarrow> string" where
  "Get s path =
     (case s_data s path of
        Some vs \<Rightarrow> (if length vs > 0 then vs ! 0 else [])
      | None \<Rightarrow> [])"

definition Del :: "store \<Rightarrow> string \<Rightarrow> store" where
  "Del s0 path =
     (let s1 = removeIndexes s0 path
      in s1\<lparr>s_data := (s_data s1)(path := None)\<rparr>)"

text \<open>
  Go leaves the order of ranging over a map open: the order is an argument \<open>ks\<close> here, and
  \<open>map_order (s_data s) ks\<close> says that it is one of the possible orders.
\<close>

definition Keys :: "store \<Rightarrow> string list \<Rightarrow> string list" where
  "Keys s ks = foldl (\<lambda>result k. result @ [k]) [] ks"

definition GetKey :: "store \<Rightarrow> string \<Rightarrow> string list" where
  "GetKey s v = (if s_buildIndex s then (case s_index s v of Some keys \<Rightarrow> keys | None \<Rightarrow> []) else [])"

definition putValues_locked :: "store \<Rightarrow> string \<Rightarrow> string list \<Rightarrow> store" where
  "putValues_locked s0 path vs =
     (let s1 = removeIndexes s0 path;
          s2 = s1\<lparr>s_data := (s_data s1)(path \<mapsto> vs)\<rparr>;
          s3 = (if s_buildIndex s2 then foldl (\<lambda>s i. append_index s i path) s2 vs else s2)
      in s3\<lparr>s_changed := True\<rparr>)"

definition PutValues :: "store \<Rightarrow> string \<Rightarrow> string list \<Rightarrow> store" where
  "PutValues s path vs = putValues_locked s path vs"

definition GetValues :: "store \<Rightarrow> string \<Rightarrow> string list" where
  "GetValues s path = (case s_data s path of Some vs \<Rightarrow> vs | None \<Rightarrow> [])"

definition Changed :: "store \<Rightarrow> bool" where
  "Changed s = s_changed s"

section \<open>The index as a multiset of keys\<close>

lemma index_of_splice:
  "(case index_of p ks of None \<Rightarrow> ks | Some i \<Rightarrow> take i ks @ drop (i + 1) ks) = remove1 p ks"
  by (induction ks) (auto split: option.splits)

lemma index_of_None: "index_of p ks = None \<longleftrightarrow> p \<notin> set ks"
  by (induction ks) auto

text \<open>removeOneIndex drops the first occurrence of the key from one index entry.\<close>

lemma removeOneIndex_slice:
  assumes "s_buildIndex s"
  shows "map_slice (s_index (removeOneIndex s p v)) =
         (map_slice (s_index s))(v := remove1 p (map_slice (s_index s) v))"
proof (cases "s_index s v")
  case None
  then show ?thesis using assms by (auto simp: removeOneIndex_def map_slice_def fun_eq_iff)
next
  case (Some ks)
  then show ?thesis using assms index_of_splice [where p = p and ks = ks]
    by (auto simp: removeOneIndex_def map_slice_def fun_eq_iff split: option.splits)
qed

lemma removeOneIndex_frame [simp]:
  "s_data (removeOneIndex s p v) = s_data s"
  "s_buildIndex (removeOneIndex s p v) = s_buildIndex s"
  "s_changed (removeOneIndex s p v) = s_changed s"
  by (auto simp: removeOneIndex_def split: option.splits)

lemma append_index_frame [simp]:
  "s_data (append_index s v p) = s_data s"
  "s_buildIndex (append_index s v p) = s_buildIndex s"
  "s_changed (append_index s v p) = s_changed s"
  by (simp_all add: append_index_def)

lemma append_index_slice:
  "map_slice (s_index (append_index s v p)) =
   (map_slice (s_index s))(v := map_slice (s_index s) v @ [p])"
  by (simp add: append_index_def)

lemma foldl_removeOneIndex_frame [simp]:
  "s_data (foldl (\<lambda>s item. removeOneIndex s p item) s vs) = s_data s"
  "s_buildIndex (foldl (\<lambda>s item. removeOneIndex s p item) s vs) = s_buildIndex s"
  "s_changed (foldl (\<lambda>s item. removeOneIndex s p item) s vs) = s_changed s"
  by (induction vs arbitrary: s) auto

lemma foldl_append_index_frame [simp]:
  "s_data (foldl (\<lambda>s i. append_index s i p) s vs) = s_data s"
  "s_buildIndex (foldl (\<lambda>s i. append_index s i p) s vs) = s_buildIndex s"
  "s_changed (foldl (\<lambda>s i. append_index s i p) s vs) = s_changed s"
  by (induction vs arbitrary: s) auto

lemma foldl_removeOneIndex_count:
  assumes "s_buildIndex s"
  shows "count_list (map_slice (s_index (foldl (\<lambda>s item. removeOneIndex s p item) s vs)) v) q =
         (if q = p then count_list (map_slice (s_index s) v) q - count_list vs v
          else count_list (map_slice (s_index s) v) q)"
  using assms
proof (induction vs arbitrary: s)
  case (Cons x xs)
  then show ?case by (auto simp: removeOneIndex_slice)
qed simp

lemma foldl_append_index_count:
  "count_list (map_slice (s_index (foldl (\<lambda>s i. append_index s i p) s vs)) v) q =
   count_list (map_slice (s_index s) v) q + (if q = p then count_list vs v else 0)"
  by (induction vs arbitrary: s) (auto simp: append_index_slice)

lemma removeIndexes_frame [simp]:
  "s_data (removeIndexes s p) = s_data s"
  "s_buildIndex (removeIndexes s p) = s_buildIndex s"
  "s_changed (removeIndexes s p) = s_changed s"
  by (auto simp: removeIndexes_def split: option.splits)

lemma removeIndexes_count:
  assumes "s_buildIndex s"
  shows "count_list (map_slice (s_index (removeIndexes s p)) v) q =
         (if q = p then count_list (map_slice (s_index s) v) q - count_list (map_slice (s_data s) p) v
          else count_list (map_slice (s_index s) v) q)"
proof (cases "s_data s p")
  case None
  then show ?thesis using assms by (simp add: removeIndexes_def map_slice_def)
next
  case (Some vs)
  then have "map_slice (s_data s) p = vs" by (simp add: map_slice_def)
  with Some assms show ?thesis by (simp add: removeIndexes_def foldl_removeOneIndex_count)
qed

lemma removeIndexes_noindex: "\<not> s_buildIndex s \<Longrightarrow> removeIndexes s p = s"
  by (simp add: removeIndexes_def)

section \<open>The invariant\<close>

text \<open>
  An indexed store: the index lists a key under a value exactly as often as the key's data
  hold the value. A store without an index: the index is empty.
\<close>

definition store_inv :: "store \<Rightarrow> bool" where
  "store_inv s \<longleftrightarrow>
     (if s_buildIndex s then
        (\<forall>v p. count_list (map_slice (s_index s) v) p = count_list (map_slice (s_data s) p) v)
      else s_index s = Map.empty)"

lemma putValues_locked_frame [simp]:
  "s_data (putValues_locked s p vs) = (s_data s)(p \<mapsto> vs)"
  "s_buildIndex (putValues_locked s p vs) = s_buildIndex s"
  "s_changed (putValues_locked s p vs)"
  by (simp_all add: putValues_locked_def Let_def)

lemma Put_eq_putValues: "Put s p v = putValues_locked s p [v]"
  by (simp add: Put_def putValues_locked_def Let_def)

lemma Del_frame [simp]:
  "s_data (Del s p) = (s_data s)(p := None)"
  "s_buildIndex (Del s p) = s_buildIndex s"
  "s_changed (Del s p) = s_changed s"
  by (simp_all add: Del_def Let_def)

lemma new_store_inv [kv_inv, simp]: "store_inv (new_store b)"
  by (simp add: store_inv_def new_store_def)

lemma putValues_locked_inv [kv_inv]: "store_inv s \<Longrightarrow> store_inv (putValues_locked s p vs)"
  by (cases "s_buildIndex s")
     (auto simp: store_inv_def putValues_locked_def Let_def foldl_append_index_count
        removeIndexes_count removeIndexes_noindex)

lemma Put_inv [kv_inv]: "store_inv s \<Longrightarrow> store_inv (Put s p v)"
  by (simp add: Put_eq_putValues putValues_locked_inv)

lemma PutValues_inv [kv_inv]: "store_inv s \<Longrightarrow> store_inv (PutValues s p vs)"
  by (simp add: PutValues_def putValues_locked_inv)

lemma Del_inv [kv_inv]: "store_inv s \<Longrightarrow> store_inv (Del s p)"
  by (cases "s_buildIndex s")
     (auto simp: store_inv_def Del_def Let_def removeIndexes_count removeIndexes_noindex)

section \<open>The contract of a content store\<close>

text \<open>
  What the clients of a store rely on (the interface ContentStore of store.go): the values
  last put under a key are the ones got, the index finds a key under exactly the values it
  holds, and puts keep this so. The laws are stated over any type of stores.
\<close>

locale content_store =
  fixes inv :: "'s \<Rightarrow> bool"
    and put_values :: "'s \<Rightarrow> string \<Rightarrow> string list \<Rightarrow> 's"
    and get_values :: "'s \<Rightarrow> string \<Rightarrow> string list"
    and get_key :: "'s \<Rightarrow> string \<Rightarrow> string list"
  assumes inv_put: "inv s \<Longrightarrow> inv (put_values s k vs)"
    and get_put: "get_values (put_values s k vs) k' = (if k' = k then vs else get_values s k')"
    and get_key_count: "inv s \<Longrightarrow> count_list (get_key s v) k = count_list (get_values s k) v"
begin

lemma get_key_iff: "inv s \<Longrightarrow> k \<in> set (get_key s v) \<longleftrightarrow> v \<in> set (get_values s k)"
  by (metis count_list_pos_iff get_key_count)

text \<open>A sequence of uploads: the last one of a key decides.\<close>

definition put_seq :: "'s \<Rightarrow> (string \<times> string list) list \<Rightarrow> 's" where
  "put_seq s ups = foldl (\<lambda>s (k, vs). put_values s k vs) s ups"

lemma put_seq_inv: "inv s \<Longrightarrow> inv (put_seq s ups)"
  unfolding put_seq_def by (induction ups arbitrary: s) (auto intro: inv_put)

lemma put_seq_get:
  "get_values (put_seq s ups) k = (case map_of (rev ups) k of Some vs \<Rightarrow> vs | None \<Rightarrow> get_values s k)"
  unfolding put_seq_def
proof (induction ups arbitrary: s)
  case (Cons u ups)
  then show ?case by (cases u) (auto simp: get_put map_add_def split: option.splits)
qed simp

lemma put_seq_key:
  "inv s \<Longrightarrow> k \<in> set (get_key (put_seq s ups) v) \<longleftrightarrow>
     v \<in> set (case map_of (rev ups) k of Some vs \<Rightarrow> vs | None \<Rightarrow> get_values s k)"
  by (simp add: get_key_iff put_seq_inv put_seq_get)

end

text \<open>An indexed store in the invariant is a content store.\<close>

definition indexed :: "store \<Rightarrow> bool" where
  "indexed s \<longleftrightarrow> store_inv s \<and> s_buildIndex s"

lemma GetValues_slice: "GetValues s k = map_slice (s_data s) k"
  by (simp add: GetValues_def map_slice_def)

lemma GetKey_slice: "s_buildIndex s \<Longrightarrow> GetKey s v = map_slice (s_index s) v"
  by (simp add: GetKey_def map_slice_def)

interpretation kv: content_store indexed PutValues GetValues GetKey
proof
  fix s :: store and k vs assume "indexed s"
  then show "indexed (PutValues s k vs)" by (simp add: indexed_def PutValues_def putValues_locked_inv)
next
  fix s :: store and k vs k'
  show "GetValues (PutValues s k vs) k' = (if k' = k then vs else GetValues s k')"
    by (simp add: GetValues_def PutValues_def)
next
  fix s :: store and v k assume "indexed s"
  then show "count_list (GetKey s v) k = count_list (GetValues s k) v"
    by (simp add: indexed_def GetKey_slice GetValues_slice store_inv_def)
qed

section \<open>Properties\<close>

text \<open>Uploads to an indexed store: after any sequence of PutValues on a fresh indexed store,
  GetValues returns the values last put under a key (none for a key never put), and GetKey
  finds a key under a value exactly when those values hold it.\<close>

theorem PutValues_sequence:
  "GetValues (foldl (\<lambda>s (k, vs). PutValues s k vs) (new_store True) ups) k =
     (case map_of (rev ups) k of Some vs \<Rightarrow> vs | None \<Rightarrow> []) \<and>
   (k \<in> set (GetKey (foldl (\<lambda>s (k, vs). PutValues s k vs) (new_store True) ups) v) \<longleftrightarrow>
     v \<in> set (case map_of (rev ups) k of Some vs \<Rightarrow> vs | None \<Rightarrow> []))"
proof -
  have "indexed (new_store True)" by (simp add: indexed_def new_store_def store_inv_def)
  moreover have "GetValues (new_store True) k = []" by (simp add: GetValues_def new_store_def)
  ultimately show ?thesis
    using kv.put_seq_get [of "new_store True" ups k] kv.put_seq_key [of "new_store True" k ups v]
    by (simp add: kv.put_seq_def split: option.splits)
qed

end
