(* ===== verification/KvFiles.thy ===== *)
theory KvFiles
  imports KvStore
begin

text \<open>
  How a store is written to a file and read back (\<open>Save\<close> and \<open>Restore\<close> of
  \<open>proxy/internal/pkg/kvstore/store.go\<close>). A file is its bytes. Reading back what was
  written gives the same data, provided no key or value holds a semicolon or a newline and
  no key has an empty list of values.
\<close>

section \<open>Save\<close>

abbreviation separator :: char where "separator \<equiv> CHR '';''"
abbreviation newline :: char where "newline \<equiv> CHR 10"

text \<open>One line of the file; \<open>Save_bytes\<close> takes the keys in the order the map is ranged over.\<close>

definition save_line :: "string \<Rightarrow> string list \<Rightarrow> string" where
  "save_line k v = k @ [separator] @ Join v [separator] @ [newline]"

definition Save_bytes :: "store \<Rightarrow> string list \<Rightarrow> string" where
  "Save_bytes s ks = foldl (\<lambda>buffer k. buffer @ save_line k (map_slice (s_data s) k)) [] ks"

text \<open>
  ioutil.WriteFile truncates the file, then writes it: it succeeds, fails to open the file
  (nothing changes) or fails after a prefix of the bytes.
\<close>

datatype write_outcome = WriteOk | OpenFails | WriteFails nat

fun WriteFile :: "(string \<rightharpoonup> string) \<Rightarrow> string \<Rightarrow> string \<Rightarrow> write_outcome \<Rightarrow> bool \<times> (string \<rightharpoonup> string)" where
  "WriteFile fs path bytes WriteOk = (True, fs(path \<mapsto> bytes))"
| "WriteFile fs path bytes OpenFails = (False, fs)"
| "WriteFile fs path bytes (WriteFails n) = (False, fs(path \<mapsto> take n bytes))"

text \<open>
  Save clears the flag under the lock and writes after releasing it: the first half is
  \<open>Save_locked\<close>; \<open>Save\<close> is both halves with nothing in between.
\<close>

definition Save_locked :: "store \<Rightarrow> string list \<Rightarrow> string \<times> store" where
  "Save_locked s ks = (Save_bytes s ks, s\<lparr>s_changed := False\<rparr>)"

definition Save :: "store \<Rightarrow> string list \<Rightarrow> (string \<rightharpoonup> string) \<Rightarrow> string \<Rightarrow> write_outcome
    \<Rightarrow> bool \<times> store \<times> (string \<rightharpoonup> string)" where
  "Save s ks fs path w =
     (let (bytes, s') = Save_locked s ks; (ok, fs') = WriteFile fs path bytes w in (ok, s', fs'))"

section \<open>Restore\<close>

definition restore_line :: "store \<Rightarrow> string \<Rightarrow> store" where
  "restore_line s line =
     (let parts = Split line separator
      in if length parts > 1 then
           (let parts = map (\<lambda>p. Trim p newline) parts
            in putValues_locked s (hd parts) (tl parts))
         else s)"

text \<open>
  Restore on the bytes of the file: fresh maps, one line after the other, changed cleared.
  An unreadable file is an error and leaves the receiver as it is.
\<close>

definition empty_store :: "bool \<Rightarrow> store" where
  "empty_store b =
     \<lparr>s_data = Map.empty, s_index = Map.empty, s_buildIndex = b, s_changed = False\<rparr>"

definition Restore_bytes :: "string \<Rightarrow> bool \<Rightarrow> store" where
  "Restore_bytes bytes b =
     (foldl restore_line (empty_store b) (read_lines bytes))\<lparr>s_changed := False\<rparr>"

definition Restore :: "store \<Rightarrow> string option \<Rightarrow> bool \<Rightarrow> bool \<times> store" where
  "Restore s file b = (case file of None \<Rightarrow> (False, s) | Some bytes \<Rightarrow> (True, Restore_bytes bytes b))"

section \<open>What survives the file format\<close>

definition clean :: "string \<Rightarrow> bool" where
  "clean t \<longleftrightarrow> separator \<notin> set t \<and> newline \<notin> set t"

definition clean_values :: "string list \<Rightarrow> bool" where
  "clean_values vs \<longleftrightarrow> vs \<noteq> [] \<and> list_all clean vs"

definition storable :: "store \<Rightarrow> bool" where
  "storable s \<longleftrightarrow> finite (dom (s_data s)) \<and>
     (\<forall>k vs. s_data s k = Some vs \<longrightarrow> clean k \<and> clean_values vs)"

lemma restore_save_line:
  assumes "clean k" "clean_values vs"
  shows "restore_line s (save_line k vs) = putValues_locked s k vs"
proof -
  have vs: "vs \<noteq> []" "\<forall>v \<in> set vs. separator \<notin> set v \<and> newline \<notin> set v"
    using assms(2) by (auto simp: clean_values_def clean_def list_all_iff)
  have k: "separator \<notin> set k" "newline \<notin> set k" using assms(1) by (auto simp: clean_def)
  have "save_line k vs = k @ separator # Join (butlast vs @ [last vs @ [newline]]) [separator]"
    using vs(1) by (simp add: save_line_def Join_snoc_append)
  also have "Split \<dots> separator = k # butlast vs @ [last vs @ [newline]]"
  proof -
    have "\<forall>x \<in> set (butlast vs @ [last vs @ [newline]]). separator \<notin> set x"
      using vs by (auto dest!: in_set_butlastD)
    then show ?thesis using k by (simp add: Split_append Split_Join)
  qed
  finally have "Split (save_line k vs) separator = k # butlast vs @ [last vs @ [newline]]" .
  moreover have "map (\<lambda>p. Trim p newline) (butlast vs) = butlast vs"
    using vs(2) by (intro map_idI) (auto intro: Trim_clean dest: in_set_butlastD)
  moreover have "Trim (last vs @ [newline]) newline = last vs" "Trim k newline = k"
    using vs k by (simp_all add: Trim_suffix Trim_clean)
  ultimately show ?thesis using vs(1) by (simp add: restore_line_def)
qed

lemma save_line_newline:
  assumes "clean k" "clean_values vs"
  obtains l where "save_line k vs = l @ [newline]" and "newline \<notin> set l"
proof
  show "save_line k vs = (k @ [separator] @ Join vs [separator]) @ [newline]"
    by (simp add: save_line_def)
  show "newline \<notin> set (k @ [separator] @ Join vs [separator])"
    using assms set_Join [of vs "[separator]"] by (auto simp: clean_def clean_values_def list_all_iff)
qed

lemma Save_bytes_concat:
  "Save_bytes s ks = concat (map (\<lambda>k. save_line k (map_slice (s_data s) k)) ks)"
proof -
  have "foldl (\<lambda>buffer k. buffer @ f k) b ks = b @ concat (map f ks)" for f :: "string \<Rightarrow> string" and b
    by (induction ks arbitrary: b) auto
  from this [of "\<lambda>k. save_line k (map_slice (s_data s) k)" "[]"]
  show ?thesis by (simp add: Save_bytes_def)
qed

lemma read_lines_saved:
  assumes "\<forall>k \<in> set ks. clean k \<and> clean_values (f k)"
  shows "read_lines (concat (map (\<lambda>k. save_line k (f k)) ks)) = map (\<lambda>k. save_line k (f k)) ks"
  using assms
proof (induction ks)
  case (Cons k ks)
  then obtain l where "save_line k (f k) = l @ [newline]" "newline \<notin> set l"
    by (auto elim: save_line_newline)
  with Cons show ?case by (simp add: read_lines_line)
qed simp

lemma foldl_putValues_data:
  assumes "distinct ks"
  shows "s_data (foldl (\<lambda>s k. putValues_locked s k (f k)) s ks) =
         (\<lambda>k. if k \<in> set ks then Some (f k) else s_data s k)"
  using assms by (induction ks arbitrary: s) (auto simp: fun_eq_iff)

lemma foldl_putValues_index [simp]:
  "s_buildIndex (foldl (\<lambda>s k. putValues_locked s k (f k)) s ks) = s_buildIndex s"
  by (induction ks arbitrary: s) auto

lemma foldl_putValues_inv:
  "store_inv s \<Longrightarrow> store_inv (foldl (\<lambda>s k. putValues_locked s k (f k)) s ks)"
  by (induction ks arbitrary: s) (auto intro: kv_inv)

lemma store_inv_changed [simp]: "store_inv (s\<lparr>s_changed := c\<rparr>) = store_inv s"
  by (simp add: store_inv_def)

lemma empty_store_inv [simp]: "store_inv (empty_store b)"
  by (simp add: store_inv_def empty_store_def)

lemma restore_line_inv: "store_inv s \<Longrightarrow> store_inv (restore_line s l)"
  by (simp add: restore_line_def Let_def putValues_locked_inv)

lemma foldl_restore_line_inv: "store_inv s \<Longrightarrow> store_inv (foldl restore_line s ls)"
  by (induction ls arbitrary: s) (auto intro: restore_line_inv)

lemma Restore_bytes_inv [kv_inv]: "store_inv (Restore_bytes bytes b)"
  by (simp add: Restore_bytes_def foldl_restore_line_inv)

lemma foldl_restore_saved:
  assumes "\<forall>k \<in> set ks. clean k \<and> clean_values (f k)"
  shows "foldl restore_line s (map (\<lambda>k. save_line k (f k)) ks) =
         foldl (\<lambda>s k. putValues_locked s k (f k)) s ks"
  using assms by (induction ks arbitrary: s) (auto simp: restore_save_line)

lemma Restore_Save_bytes:
  assumes "storable s" "map_order (s_data s) ks"
  shows "s_data (Restore_bytes (Save_bytes s ks) b) = s_data s \<and>
         s_buildIndex (Restore_bytes (Save_bytes s ks) b) = b \<and>
         \<not> s_changed (Restore_bytes (Save_bytes s ks) b)"
proof -
  let ?f = "map_slice (s_data s)"
  have c: "\<forall>k \<in> set ks. clean k \<and> clean_values (?f k)"
    using assms by (auto simp: storable_def map_order_def map_slice_def)
  have "Restore_bytes (Save_bytes s ks) b =
        (foldl (\<lambda>s k. putValues_locked s k (?f k))
(empty_store b) ks)\<lparr>s_changed := False\<rparr>"
    by (simp add: Restore_bytes_def Save_bytes_concat read_lines_saved [OF c] foldl_restore_saved [OF c])
  moreover have "distinct ks" "set ks = dom (s_data s)"
    using assms by (auto simp: map_order_def)
  ultimately show ?thesis
    by (auto simp: foldl_putValues_data fun_eq_iff map_slice_def empty_store_def split: option.splits)
qed

section \<open>Properties\<close>

lemma index_sets_eq:
  assumes "indexed s" "indexed s'" "s_data s = s_data s'"
  shows "set (GetKey s v) = set (GetKey s' v)"
proof -
  have "GetValues s k = GetValues s' k" for k using assms(3) by (simp add: GetValues_def)
  then show ?thesis by (simp add: set_eq_iff kv.get_key_iff [OF assms(1)] kv.get_key_iff [OF assms(2)])
qed

text \<open>C24: the file format round-trips: a store whose keys and values hold no separator and no
  newline (and whose value lists are not empty), saved in any order of its keys and restored
  from the bytes written, has the same data; restored with an index it finds the same keys
  under every value as the store saved.\<close>

theorem Restore_after_Save:
  assumes "storable s" and "map_order (s_data s) ks" and "indexed s"
    and "Save s ks fs path WriteOk = (ok, s', fs')"
  shows "ok \<and> \<not> Changed s' \<and> s_data s' = s_data s \<and>
    (\<exists>t. Restore (empty_store False) (fs' path) True = (True, t) \<and> s_data t = s_data s \<and>
       (\<forall>v. set (GetKey t v) = set (GetKey s v)))"
proof -
  let ?t = "Restore_bytes (Save_bytes s ks) True"
  note rt = Restore_Save_bytes [OF assms(1,2), of True]
  have st: "ok" "s' = s\<lparr>s_changed := False\<rparr>" "fs' path = Some (Save_bytes s ks)"
    using assms(4) by (auto simp: Save_def Save_locked_def)
  have "indexed ?t" using rt Restore_bytes_inv by (simp add: indexed_def)
  then have "\<forall>v. set (GetKey ?t v) = set (GetKey s v)"
    using index_sets_eq [OF _ assms(3)] rt by simp
  with st rt show ?thesis by (simp add: Restore_def Changed_def)
qed

lemma one_key_order: "map_order [k \<mapsto> v] [k]"
  by (simp add: map_order_def)

theorem Restore_after_Save_witness:
  "\<exists>t. Restore (empty_store False)
        (snd (snd (Save (PutValues (new_store True) ''img'' [''a'', ''b'']) [''img''] Map.empty ''kvstore'' WriteOk)) ''kvstore'')
        True = (True, t) \<and> s_data t = [''img'' \<mapsto> [''a'', ''b'']]"
proof -
  let ?s = "PutValues (new_store True) ''img'' [''a'', ''b'']"
  have d: "s_data ?s = [''img'' \<mapsto> [''a'', ''b'']]" by (simp add: PutValues_def new_store_def)
  have st: "storable ?s" by (auto simp: storable_def d clean_def clean_values_def split: if_splits)
  have ix: "indexed ?s" by (simp add: indexed_def PutValues_inv) (simp add: PutValues_def new_store_def)
  have ord: "map_order (s_data ?s) [''img'']" by (simp add: d one_key_order)
  obtain ok s' fs' where "Save ?s [''img''] Map.empty ''kvstore'' WriteOk = (ok, s', fs')"
    by (cases "Save ?s [''img''] Map.empty ''kvstore'' WriteOk") auto
  with Restore_after_Save [OF st ord ix this] d show ?thesis by auto
qed

end
