(* ===== verification/KvWatcher.thy ===== *)
theory KvWatcher
  imports KvFiles
begin

text \<open>
  The registry of stores and the watcher that writes changed stores to files
  (\<open>proxy/internal/pkg/kvstore/store.go\<close>): NewStore, GetStore, RestartStore, and the body of
  the goroutine started by startWatcher. Stores are shared by reference, so the model has a
  heap of stores (a reference is a position) and a registry from names to references. The
  files of \<open>storeDir\<close> are a map from base names to bytes; names hold no slash.

  Client operations and the watcher interleave: a client operation is one step (the store's
  mutex), and the watcher's Save is two steps, the locked half (render and clear the flag)
  and the write of the file.
\<close>

section \<open>State\<close>

record kv_sys =
  k_heap :: "store list"
  k_stores :: "string \<rightharpoonup> nat"              \<comment> \<open>watchedSimpleStores\<close>
  k_files :: "string \<rightharpoonup> string"            \<comment> \<open>the files of storeDir\<close>
  k_pending :: "(string \<times> string) option"  \<comment> \<open>rendered by Save, not yet written\<close>

definition kv_init :: "(string \<rightharpoonup> string) \<Rightarrow> kv_sys" where
  "kv_init fs = \<lparr>k_heap = [], k_stores = Map.empty, k_files = fs, k_pending = None\<rparr>"

definition upd_store :: "kv_sys \<Rightarrow> nat \<Rightarrow> store \<Rightarrow> kv_sys" where
  "upd_store k r s = k\<lparr>k_heap := (k_heap k)[r := s]\<rparr>"

section \<open>The registry\<close>

abbreviation NoIndex_suffix :: string where "NoIndex_suffix \<equiv> ''.NoIndex''"

definition WrapName :: "string \<Rightarrow> bool \<Rightarrow> string" where
  "WrapName name buildIndex = (if buildIndex then name else name @ NoIndex_suffix)"

definition IndexedStore :: "string \<Rightarrow> bool" where
  "IndexedStore name = (\<not> HasSuffix name NoIndex_suffix)"

text \<open>
  Every registered value is a \<open>*store\<close>, so the type assertions of NewStore and GetStore
  succeed. The result is the reference of the store.
\<close>

definition NewStore :: "kv_sys \<Rightarrow> string \<Rightarrow> bool \<Rightarrow> nat \<times> kv_sys" where
  "NewStore k name0 buildIndex =
     (let name = WrapName name0 buildIndex
      in case k_stores k name of
           Some repo \<Rightarrow> (repo, k)
         | None \<Rightarrow>
             (let r = length (k_heap k)
              in (r, k\<lparr>k_heap := k_heap k @ [new_store buildIndex],
                      k_stores := (k_stores k)(name \<mapsto> r)\<rparr>)))"

definition GetStore :: "kv_sys \<Rightarrow> string \<Rightarrow> nat option" where
  "GetStore k name =
     (case k_stores k (WrapName name True) of
        Some r \<Rightarrow> Some r
      | None \<Rightarrow> k_stores k (WrapName name False))"

text \<open>
  RestartStore walks the files in the order \<open>names\<close> (Walk: lexical) and stops at the first
  error; reading a file may fail (\<open>reads n = None\<close>).
\<close>

fun RestartStore :: "(string \<rightharpoonup> string) \<Rightarrow> kv_sys \<Rightarrow> string list \<Rightarrow> bool \<times> kv_sys" where
  "RestartStore reads k [] = (True, k)"
| "RestartStore reads k (n # ns) =
     (case Restore (empty_store False) (reads n) (IndexedStore n) of
        (False, _) \<Rightarrow> (False, k)
      | (True, s) \<Rightarrow>
          (let r = length (k_heap k)
           in RestartStore reads
                (k\<lparr>k_heap := k_heap k @ [s], k_stores := (k_stores k)(n \<mapsto> r)\<rparr>) ns))"

section \<open>Steps\<close>

datatype kv_event =
    ENew string bool
  | EPut nat string string
  | EPutValues nat string "string list"
  | EDel nat string
  | ESave string "string list"     \<comment> \<open>the watcher: Save's locked half, ranging in this order\<close>
  | EWrite write_outcome           \<comment> \<open>the watcher: the write that follows\<close>

inductive kv_step :: "kv_sys \<Rightarrow> kv_event \<Rightarrow> kv_sys \<Rightarrow> bool" where
  new: "kv_step k (ENew n b) (snd (NewStore k n b))"
| put: "r < length (k_heap k) \<Longrightarrow>
    kv_step k (EPut r p d) (upd_store k r (Put (k_heap k ! r) p d))"
| put_values: "r < length (k_heap k) \<Longrightarrow>
    kv_step k (EPutValues r p vs) (upd_store k r (PutValues (k_heap k ! r) p vs))"
| del: "r < length (k_heap k) \<Longrightarrow>
    kv_step k (EDel r p) (upd_store k r (Del (k_heap k ! r) p))"
| save: "k_pending k = None \<Longrightarrow> k_stores k name = Some r \<Longrightarrow> r < length (k_heap k) \<Longrightarrow>
    Changed (k_heap k ! r) \<Longrightarrow> map_order (s_data (k_heap k ! r)) ks \<Longrightarrow>
    Save_locked (k_heap k ! r) ks = (bytes, s') \<Longrightarrow>
    kv_step k (ESave name ks) ((upd_store k r s')\<lparr>k_pending := Some (name, bytes)\<rparr>)"
| flush: "k_pending k = Some (name, bytes) \<Longrightarrow>
    kv_step k (EWrite w)
      (k\<lparr>k_files := snd (WriteFile (k_files k) name bytes w), k_pending := None\<rparr>)"

inductive kv_run :: "kv_sys \<Rightarrow> kv_event list \<Rightarrow> kv_sys \<Rightarrow> bool" where
  Nil: "kv_run k [] k"
| Cons: "kv_step k e k' \<Longrightarrow> kv_run k' es k'' \<Longrightarrow> kv_run k (e # es) k''"

inductive_cases kv_step_newE: "kv_step k (ENew n b) k'"
inductive_cases kv_step_putE: "kv_step k (EPut r p d) k'"
inductive_cases kv_step_put_valuesE: "kv_step k (EPutValues r p vs) k'"
inductive_cases kv_step_delE: "kv_step k (EDel r p) k'"
inductive_cases kv_step_saveE: "kv_step k (ESave name ks) k'"
inductive_cases kv_step_writeE: "kv_step k (EWrite w) k'"
inductive_cases kv_run_NilE: "kv_run k [] k'"
inductive_cases kv_run_ConsE: "kv_run k (e # es) k'"

lemmas kv_step_elims = kv_step_newE kv_step_putE kv_step_put_valuesE kv_step_delE
  kv_step_saveE kv_step_writeE

lemma kv_run_invariant:
  assumes "kv_run k es k'" and "I k" and "\<forall>e \<in> set es. P e"
    and "\<And>k e k'. kv_step k e k' \<Longrightarrow> P e \<Longrightarrow> I k \<Longrightarrow> I k'"
  shows "I k'"
  using assms by (induction rule: kv_run.induct) auto

section \<open>The stores of a run\<close>

text \<open>Every store keeps its index invariant, whatever the clients and the watcher do.\<close>

definition kv_stores_inv :: "kv_sys \<Rightarrow> bool" where
  "kv_stores_inv k \<longleftrightarrow>
     list_all store_inv (k_heap k) \<and> (\<forall>n r. k_stores k n = Some r \<longrightarrow> r < length (k_heap k))"

lemma list_all_update:
  "list_all P xs \<Longrightarrow> P x \<Longrightarrow> list_all P (xs[i := x])"
  by (cases "i < length xs") (auto simp: list_all_length nth_list_update list_update_beyond)

lemma store_inv_at: "kv_stores_inv k \<Longrightarrow> r < length (k_heap k) \<Longrightarrow> store_inv (k_heap k ! r)"
  by (simp add: kv_stores_inv_def list_all_length)

lemma upd_store_inv:
  "kv_stores_inv k \<Longrightarrow> store_inv s \<Longrightarrow> kv_stores_inv (upd_store k r s)"
  by (simp add: kv_stores_inv_def upd_store_def list_all_update)

lemma kv_stores_inv_pending [simp]:
  "kv_stores_inv (k\<lparr>k_pending := x\<rparr>) = kv_stores_inv k"
  "kv_stores_inv (k\<lparr>k_files := f\<rparr>) = kv_stores_inv k"
  by (simp_all add: kv_stores_inv_def)

lemma NewStore_stores_inv:
  assumes "kv_stores_inv k" shows "kv_stores_inv (snd (NewStore k n b))"
proof -
  have "k_stores k m = Some r \<Longrightarrow> r < Suc (length (k_heap k))" for m r
    using assms by (metis kv_stores_inv_def less_SucI)
  then show ?thesis
    using assms by (auto simp: kv_stores_inv_def NewStore_def Let_def split: option.splits)
qed

lemma kv_step_stores_inv:
  assumes "kv_step k e k'" and "kv_stores_inv k"
  shows "kv_stores_inv k'"
  using assms
proof (induction rule: kv_step.induct)
  case (save k name r ks bytes s')
  then have "store_inv s'" by (auto simp: Save_locked_def store_inv_at)
  with save show ?case by (simp add: upd_store_inv)
qed (auto intro: upd_store_inv kv_inv store_inv_at NewStore_stores_inv)

lemma kv_init_stores_inv [simp]: "kv_stores_inv (kv_init fs)"
  by (simp add: kv_stores_inv_def kv_init_def)

section \<open>What is on disk\<close>

text \<open>The events a client may cause when its strings fit the file format, without Del, and
  with a file system that does not fail.\<close>

fun clean_event :: "kv_event \<Rightarrow> bool" where
  "clean_event (ENew n b) = True"
| "clean_event (EPut r p d) = (clean p \<and> clean d)"
| "clean_event (EPutValues r p vs) = (clean p \<and> clean_values vs)"
| "clean_event (EDel r p) = False"
| "clean_event (ESave n ks) = True"
| "clean_event (EWrite w) = (w = WriteOk)"

definition restores :: "string \<Rightarrow> store \<Rightarrow> bool" where
  "restores bytes s \<longleftrightarrow> (\<forall>b. s_data (Restore_bytes bytes b) = s_data s)"

text \<open>
  A store whose flag is clear is on disk: in its file, or in the bytes the watcher is about
  to write to it.
\<close>

definition on_disk :: "kv_sys \<Rightarrow> string \<Rightarrow> store \<Rightarrow> bool" where
  "on_disk k n s \<longleftrightarrow>
     (case k_pending k of
        Some (m, bytes) \<Rightarrow> if m = n then restores bytes s
                           else (case k_files k n of None \<Rightarrow> False | Some f \<Rightarrow> restores f s)
      | None \<Rightarrow> (case k_files k n of None \<Rightarrow> False | Some f \<Rightarrow> restores f s))"

definition kv_persist :: "kv_sys \<Rightarrow> bool" where
  "kv_persist k \<longleftrightarrow>
     list_all storable (k_heap k) \<and>
     (\<forall>n r. k_stores k n = Some r \<longrightarrow> r < length (k_heap k)) \<and>
     (\<forall>n m r. k_stores k n = Some r \<longrightarrow> k_stores k m = Some r \<longrightarrow> n = m) \<and>
     (\<forall>n r. k_stores k n = Some r \<longrightarrow> \<not> s_changed (k_heap k ! r) \<longrightarrow> on_disk k n (k_heap k ! r))"

lemma on_disk_frame [simp]:
  "on_disk (k\<lparr>k_heap := h\<rparr>) n s = on_disk k n s"
  "on_disk (k\<lparr>k_heap := h, k_stores := g\<rparr>) n s = on_disk k n s"
  "on_disk (upd_store k r s') n s = on_disk k n s"
  by (simp_all add: on_disk_def upd_store_def cong: option.case_cong)

lemma storable_putValues:
  "storable s \<Longrightarrow> clean p \<Longrightarrow> clean_values vs \<Longrightarrow> storable (putValues_locked s p vs)"
  by (simp add: storable_def)

lemma storable_Put: "storable s \<Longrightarrow> clean p \<Longrightarrow> clean d \<Longrightarrow> storable (Put s p d)"
  by (simp add: Put_eq_putValues storable_putValues clean_values_def)

lemma storable_new_store [simp]: "storable (new_store b)"
  by (simp add: storable_def new_store_def)

lemma storable_changed [simp]: "storable (s\<lparr>s_changed := c\<rparr>) = storable s"
  by (simp add: storable_def)

lemma kv_persist_upd:
  assumes "kv_persist k" "storable s" "s_changed s"
  shows "kv_persist (upd_store k r s)"
  using assms
  by (cases "r < length (k_heap k)")
     (auto simp: kv_persist_def upd_store_def list_all_update nth_list_update list_update_beyond)

lemma kv_persist_new:
  assumes "kv_persist k" shows "kv_persist (snd (NewStore k n b))"
proof (cases "k_stores k (WrapName n b)")
  case None
  have lt: "k_stores k m = Some r \<Longrightarrow> r < length (k_heap k)" for m r
    using assms by (simp add: kv_persist_def)
  have ne: "k_stores k m \<noteq> Some (length (k_heap k))" for m
    using lt by blast
  have "new_store b = s \<Longrightarrow> s_changed s" for s by (auto simp: new_store_def)
  then show ?thesis using assms None lt ne
    by (auto simp: kv_persist_def NewStore_def Let_def nth_append less_SucI)
qed (use assms in \<open>simp add: NewStore_def\<close>)

lemma restores_Save:
  assumes "storable s" "map_order (s_data s) ks"
  shows "restores (Save_bytes s ks) (s\<lparr>s_changed := c\<rparr>)"
  using Restore_Save_bytes [OF assms] by (simp add: restores_def)

lemma kv_persist_save:
  assumes inv: "kv_persist k" and name: "k_stores k name = Some r"
    and none: "k_pending k = None" and ord: "map_order (s_data (k_heap k ! r)) ks"
    and lock: "Save_locked (k_heap k ! r) ks = (bytes, s')"
  shows "kv_persist ((upd_store k r s')\<lparr>k_pending := Some (name, bytes)\<rparr>)"
proof -
  have r: "r < length (k_heap k)" using inv name by (simp add: kv_persist_def)
  then have st: "storable (k_heap k ! r)" using inv by (simp add: kv_persist_def list_all_length)
  have s': "s' = (k_heap k ! r)\<lparr>s_changed := False\<rparr>" "bytes = Save_bytes (k_heap k ! r) ks"
    using lock by (simp_all add: Save_locked_def)
  have "restores bytes s'" using restores_Save [OF st ord] s' by simp
  moreover have "k_stores k n = Some r \<Longrightarrow> n = name" for n
    using inv name by (auto simp: kv_persist_def)
  ultimately show ?thesis using inv name none r st s'
    by (auto simp: kv_persist_def upd_store_def on_disk_def list_all_update nth_list_update)
qed

lemma kv_persist_write:
  assumes "kv_persist k" "k_pending k = Some (name, bytes)"
  shows "kv_persist (k\<lparr>k_files := (k_files k)(name \<mapsto> bytes), k_pending := None\<rparr>)"
  using assms by (auto simp: kv_persist_def on_disk_def split: if_splits)

lemma kv_step_persist:
  assumes "kv_step k e k'" "clean_event e" "kv_persist k"
  shows "kv_persist k'"
  using assms
proof (induction rule: kv_step.induct)
  case (put r k p d)
  then have "storable (k_heap k ! r)" by (simp add: kv_persist_def list_all_length)
  with put show ?case by (simp add: kv_persist_upd storable_Put Put_eq_putValues storable_putValues clean_values_def)
next
  case (put_values r k p vs)
  then have "storable (k_heap k ! r)" by (simp add: kv_persist_def list_all_length)
  with put_values show ?case by (simp add: kv_persist_upd storable_putValues PutValues_def)
next
  case (save k name r ks bytes s')
  then show ?case by (blast intro: kv_persist_save)
qed (auto intro: kv_persist_new kv_persist_write)

lemma kv_init_persist [simp]: "kv_persist (kv_init fs)"
  by (simp add: kv_persist_def kv_init_def)

section \<open>Properties\<close>

text \<open>C23: whatever files the system starts from and whatever the clients and the watcher do,
  in any interleaving and with any failing write, every store keeps its reverse index exact:
  GetKey lists a key under a value as often as the key's values hold it; a store without an
  index finds nothing.\<close>

theorem run_index_exact:
  assumes "kv_run (kv_init fs) es k" and "k_stores k name = Some r"
  shows "count_list (GetKey (k_heap k ! r) v) p =
    (if s_buildIndex (k_heap k ! r) then count_list (GetValues (k_heap k ! r) p) v else 0)"
proof -
  have inv: "kv_stores_inv k"
    using assms(1) by (rule kv_run_invariant [where P = "\<lambda>_. True"]) (auto intro: kv_step_stores_inv)
  then have "r < length (k_heap k)" using assms(2) by (simp add: kv_stores_inv_def)
  from store_inv_at [OF inv this] show ?thesis
    by (cases "s_buildIndex (k_heap k ! r)")
       (simp_all add: store_inv_def GetKey_slice GetValues_slice, simp add: GetKey_def)
qed

text \<open>A run used as a concrete input: a store is made, filled, saved and written.\<close>

definition demo_store :: store where
  "demo_store = PutValues (new_store True) ''img'' [''a'']"

definition demo_sys :: kv_sys where
  "demo_sys = \<lparr>k_heap = [demo_store\<lparr>s_changed := False\<rparr>], k_stores = [''kvstore'' \<mapsto> 0],
     k_files = [''kvstore'' \<mapsto> ''img;a'' @ [newline]], k_pending = None\<rparr>"

abbreviation demo_events :: "kv_event list" where
  "demo_events \<equiv> [ENew ''kvstore'' True, EPutValues 0 ''img'' [''a''], ESave ''kvstore'' [''img''], EWrite WriteOk]"

lemma demo_store_data [simp]: "s_data demo_store = [''img'' \<mapsto> [''a'']]" "s_changed demo_store" "s_buildIndex demo_store"
  by (simp_all add: demo_store_def PutValues_def new_store_def)

lemma demo_run: "kv_run (kv_init Map.empty) demo_events demo_sys"
proof -
  let ?k1 = "\<lparr>k_heap = [new_store True], k_stores = [''kvstore'' \<mapsto> 0], k_files = Map.empty, k_pending = None\<rparr>"
  let ?k2 = "?k1\<lparr>k_heap := [demo_store]\<rparr>"
  let ?k3 = "?k1\<lparr>k_heap := [demo_store\<lparr>s_changed := False\<rparr>], k_pending := Some (''kvstore'', ''img;a'' @ [newline])\<rparr>"
  have "kv_step (kv_init Map.empty) (ENew ''kvstore'' True) ?k1"
    using kv_step.new [of "kv_init Map.empty" "''kvstore''" True] by (simp add: kv_init_def NewStore_def WrapName_def)
  moreover have "kv_step ?k1 (EPutValues 0 ''img'' [''a'']) ?k2"
    using kv_step.put_values [of 0 ?k1 "''img''" "[''a'']"] by (simp add: upd_store_def demo_store_def)
  moreover have "kv_step ?k2 (ESave ''kvstore'' [''img'']) ?k3"
    using kv_step.save [of ?k2 "''kvstore''" 0 "[''img'']"]
    by (simp add: Changed_def Save_locked_def Save_bytes_def save_line_def map_slice_def upd_store_def one_key_order)
  moreover have "kv_step ?k3 (EWrite WriteOk) demo_sys"
    using kv_step.flush [of ?k3 _ _ WriteOk] by (simp add: demo_sys_def)
  ultimately show ?thesis by (blast intro: kv_run.intros)
qed

theorem run_index_exact_witness:
  "count_list (GetKey (k_heap demo_sys ! 0) ''a'') ''img'' = 1"
  using run_index_exact [OF demo_run, of "''kvstore''" 0 "''a''" "''img''"]
  by (simp add: demo_sys_def GetValues_def)

text \<open>C10: on a run without Del and without failing writes, with keys and values that fit the
  file format, a store whose changed flag is clear is on disk: once the watcher has no write
  outstanding, restoring the store's file gives exactly the store's data.\<close>

theorem run_persisted:
  assumes "kv_run (kv_init fs) es k" and "\<forall>e \<in> set es. clean_event e"
    and "k_stores k name = Some r" and "\<not> Changed (k_heap k ! r)" and "k_pending k = None"
  shows "\<exists>t. Restore (empty_store False) (k_files k name) (IndexedStore name) = (True, t) \<and>
    s_data t = s_data (k_heap k ! r)"
proof -
  have "kv_persist k"
    using assms(1) kv_init_persist assms(2) by (rule kv_run_invariant) (rule kv_step_persist)
  then have "on_disk k name (k_heap k ! r)" using assms(3,4) by (simp add: kv_persist_def Changed_def)
  then show ?thesis using assms(5) by (auto simp: on_disk_def restores_def Restore_def split: option.splits)
qed

theorem run_persisted_witness:
  "\<exists>t. Restore (empty_store False) (k_files demo_sys ''kvstore'') (IndexedStore ''kvstore'') = (True, t) \<and>
    s_data t = [''img'' \<mapsto> [''a'']]"
proof -
  have "\<forall>e \<in> set demo_events. clean_event e" by (simp add: clean_def clean_values_def)
  from run_persisted [OF demo_run this, of "''kvstore''" 0] show ?thesis
    by (simp add: demo_sys_def Changed_def)
qed

end
