(* ===== verification/KvServer.thy ===== *)
theory KvServer
  imports KvWatcher Json
begin

text \<open>
  The content server over an indexed store (\<open>proxy/internal/pkg/kvstore/server.go\<close>): upload
  of the file hashes of an image, lookup by image and by hash. A reply is the value given to
  the JSON encoder: the text differs for a nil and an empty slice, which are one list here.
\<close>

section \<open>Requests and replies\<close>

record CreateImageRequest =
  ci_Image :: string
  ci_Files :: "string list option"

record ImageContent =
  im_Files :: "string list"

record IndexedImage =
  ii_Image :: "string list"

datatype kv_body =
    NoBody
  | TextBody string
  | ErrorBody                   \<comment> \<open>the text of a decoding error\<close>
  | ContentBody ImageContent
  | IndexBody IndexedImage

type_synonym kv_response = "int \<times> kv_body"

text \<open>The request under construction, with the array of its files past their number.\<close>

definition upd_CreateImageRequest ::
    "string \<Rightarrow> json \<Rightarrow> CreateImageRequest \<times> string list \<Rightarrow> (CreateImageRequest \<times> string list) \<times> bool" where
  "upd_CreateImageRequest f v ca =
     (case ca of (c, arr) \<Rightarrow>
        if f = ''Image'' then (let (x, ok) = dec_string v (ci_Image c) in ((c\<lparr>ci_Image := x\<rparr>, arr), ok))
        else (let ((x, arr'), ok) = dec_strings v (ci_Files c, arr) in ((c\<lparr>ci_Files := x\<rparr>, arr'), ok)))"

text \<open>parseBody: an error leaves in the value what was decoded before it; no body is a read error.\<close>

definition parseBody :: "string option \<Rightarrow> CreateImageRequest \<times> bool" where
  "parseBody body =
     (let zero = \<lparr>ci_Image = [], ci_Files = None\<rparr>
      in case body of
           None \<Rightarrow> (zero, False)
         | Some dat \<Rightarrow>
             (let ((c, arr), ok) = dec_struct [''Image'', ''Files''] upd_CreateImageRequest (zero, []) dat in (c, ok)))"

section \<open>ImageHasher\<close>

text \<open>A handler is a function of the store; the path variables are those of mux.\<close>

definition ImageHasher_Get :: "store \<Rightarrow> (string \<rightharpoonup> string) \<Rightarrow> kv_response" where
  "ImageHasher_Get s vars =
     (case vars ''image'' of
        Some img \<Rightarrow> (StatusOK, ContentBody \<lparr>im_Files = GetValues s img\<rparr>)
      | None \<Rightarrow> (StatusBadRequest, TextBody ''must provide image''))"

definition ImageHasher_GetIndex :: "store \<Rightarrow> (string \<rightharpoonup> string) \<Rightarrow> kv_response" where
  "ImageHasher_GetIndex s vars =
     (case vars ''hash'' of
        Some hash \<Rightarrow> (StatusOK, IndexBody \<lparr>ii_Image = GetKey s hash\<rparr>)
      | None \<Rightarrow> (StatusBadRequest, TextBody ''must provide hash''))"

text \<open>There is no return after the reply to a bad body: the store is written anyway.\<close>

definition ImageHasher_Put :: "store \<Rightarrow> string option \<Rightarrow> kv_response \<times> store" where
  "ImageHasher_Put s body =
     (let (img, ok) = parseBody body;
          response = (if ok then (StatusOK, NoBody) else (StatusBadRequest, ErrorBody));
          files = (case ci_Files img of None \<Rightarrow> [] | Some fs \<Rightarrow> fs)
      in (response, PutValues s (ci_Image img) files))"

section \<open>NewKvStore\<close>

datatype kv_handler = HRoot | HGet | HGetIndex | HPut

definition kv_routes :: "(string \<times> kv_handler) list" where
  "kv_routes = [(''/get_content/{image}'', HGet), (''/get_index/{hash}'', HGetIndex), (''/upload_image'', HPut)]"

text \<open>The reference of the store behind the server, the routes and the system.\<close>

definition NewKvStore :: "kv_sys \<Rightarrow> (nat \<times> (string \<times> kv_handler) list) \<times> kv_sys" where
  "NewKvStore k = (case NewStore k ''kvstore'' True of (r, k') \<Rightarrow> ((r, kv_routes), k'))"

end
