(* ===== verification/Routes.thy ===== *)
theory Routes
  imports Configs Pods KvServer
begin

text \<open>
  The routes of the API (\<open>proxy/newapi.go\<close>: SetupNewAPIs) in the order they are added, after
  those of the key-value store (\<open>proxy/server.go\<close>: main), and what each handler runs. The
  router of gorilla/mux takes the first route that matches; a path without variables matches
  its own text only.
\<close>

datatype handler =
    CreateInstance | CreateInstanceLegacy | CreateVMInstance | DeleteInstance | DeleteVMInstance
  | LazyDeleteInstance | CreateInstanceConfig | CreateInstanceKvConfig | CreateSelfConfig
  | CreateMembership | CreateEndorsementLink | CreateEndorsement
  | HandleOther | HandleOtherNoAuth | HandleCheckInstance
  | PostPodNew | AuthPodNew | AuthenticateAddr

definition instance_routes :: "(string \<times> handler) list" where
  "instance_routes =
     [(''/postInstance'', CreateInstance), (''/postInstanceSet'', CreateInstanceLegacy),
      (''/retractInstanceSet'', DeleteInstance), (''/postVMInstance'', CreateVMInstance),
      (''/delInstance'', DeleteInstance), (''/delVMInstance'', DeleteVMInstance),
      (''/lazyDeleteInstance'', LazyDeleteInstance), (''/postInstanceConfig'', CreateInstanceConfig),
      (''/postInstanceKV'', CreateInstanceKvConfig), (''/postSelfConfig'', CreateSelfConfig),
      (''/postAckMembership'', CreateMembership), (''/postMembership'', CreateMembership),
      (''/postEndorsementLink'', CreateEndorsementLink), (''/postEndorsement'', CreateEndorsement),
      (''/postConditionalEndorsement'', CreateEndorsement), (''/postParameterizedEndorsement'', CreateEndorsement)]"

definition otherMethods :: "string list" where
  "otherMethods =
     [''/postCluster'', ''/delAckMembership'', ''/delCluster'', ''/delConditionalEndorsement'', ''/delEndorsement'',
      ''/delInstanceAuthID'', ''/delInstanceAuthKey'', ''/delInstanceCidrConfig'', ''/delInstanceConfig1'',
      ''/delInstanceConfig2'', ''/delInstanceConfig3'', ''/delInstanceConfig4'', ''/delInstanceConfig5'',
      ''/delInstanceControl'', ''/delLinkImageOwner'', ''/delMembership'', ''/delParameterizedConnection'',
      ''/delParameterizedEndorsement'', ''/delVpcConfig1'', ''/delVpcConfig2'', ''/delVpcConfig3'',
      ''/delVpcConfig4'', ''/delVpcConfig5'', ''/postConditionalEndorsement'', ''/postInstanceConfigList'',
      ''/postInstanceConfig1'', ''/postInstanceConfig2'', ''/postInstanceConfig3'', ''/postInstanceConfig4'',
      ''/postInstanceConfig5'', ''/postParameterizedConnection'', ''/postParameterizedEndorsement'',
      ''/postVpcConfig1'', ''/postVpcConfig2'', ''/postVpcConfig3'', ''/postVpcConfig4'', ''/postVpcConfig5'']"

definition checkMethods :: "string list" where
  "checkMethods =
     [''/checkClusterGuard'', ''/checkCodeQuality'', ''/checkContainerIsolation'', ''/checkFetch'', ''/checkAttester'',
      ''/checkBuilder'', ''/checkProperty'', ''/checkLaunches'', ''/checkBuildsFrom'', ''/checkEndorse'',
      ''/checkTrustedCluster'', ''/checkMySQLConnection'', ''/checkKeystoneReq'', ''/checkAllForSparkEvaluation'',
      ''/checkMaster'', ''/checkWorkerFromMaster'', ''/checkExecutorFromDriver'', ''/checkDriverFromHDFS'',
      ''/checkTrustedConnections'', ''/checkK8sHDFSAccess'', ''/checkSafeSpark'', ''/checkK8sVm'',
      ''/checkTrustedEndorser'', ''/checkEndorsed'', ''/checkPodAttestation'', ''/debugCheck1'', ''/debugCheck2'',
      ''/debugCheck3'', ''/debugCheck4'', ''/debugCheck5'', ''/debugCheck6'', ''/debugCheck7'', ''/debugCheck8'',
      ''/checkPodByPolicy'', ''/checkHasConfig'', ''/debug'']"

definition noauthMethods :: "string list" where
  "noauthMethods =
     [''/postTrustedEndorser'', ''/postTrustHubLink'', ''/postImageSpec'', ''/postPropertySpec'', ''/postImagePolicy'',
      ''/postProhibitedKeyPolicy'', ''/postRequiredKeyPolicy'', ''/postQualifierKeyPolicy'']"

definition SetupNewAPIs :: "(string \<times> handler) list" where
  "SetupNewAPIs =
     instance_routes @ map (\<lambda>m. (m, HandleCheckInstance)) checkMethods @ map (\<lambda>m. (m, HandleOther)) otherMethods @
     map (\<lambda>m. (m, HandleOtherNoAuth)) noauthMethods @
     [(''/postPod'', PostPodNew), (''/authPod/{addr}'', AuthPodNew), (''/authenticate/{instance_addr}'', AuthenticateAddr)]"

fun run_handler :: "('t, 'w) env \<Rightarrow> handler \<Rightarrow> http_request \<Rightarrow> (('t, 'w) proxy, http_response) go" where
  "run_handler E CreateInstance = createInstance E"
| "run_handler E CreateInstanceLegacy = createInstanceLegacy E"
| "run_handler E CreateVMInstance = createVMInstance E"
| "run_handler E DeleteInstance = deleteInstance E"
| "run_handler E DeleteVMInstance = deleteVMInstance E"
| "run_handler E LazyDeleteInstance = lazyDeleteInstance E"
| "run_handler E CreateInstanceConfig = createInstanceConfig E"
| "run_handler E CreateInstanceKvConfig = createInstanceKvConfig E"
| "run_handler E CreateSelfConfig = createSelfConfig E"
| "run_handler E CreateMembership = createMembership E"
| "run_handler E CreateEndorsementLink = createEndorsementLink E"
| "run_handler E CreateEndorsement = createEndorsement E"
| "run_handler E HandleOther = handleOther E"
| "run_handler E HandleOtherNoAuth = handleOtherNoAuth E"
| "run_handler E HandleCheckInstance = handleCheckInstance E"
| "run_handler E PostPodNew = postPodNew"
| "run_handler E AuthPodNew = authPodNew"
| "run_handler E AuthenticateAddr = authenticateAddr E"

text \<open>The handler of a path without variables.\<close>

definition route :: "string \<Rightarrow> handler option" where
  "route path = map_of SetupNewAPIs path"

end
