(* ===== verification/HandlerInv.thy ===== *)
theory HandlerInv
  imports Routes
begin

text \<open>
  What the handlers keep. The handlers touch the caches, the Riak store and SAFE only through
  the operations of the cache and the round trip of a request, so a property of the state that
  those keep is kept by every handler, also when it panics. The interfaces are locales, one for
  the handlers that only look up, one for those that also register and one for those that also
  delete (and one for authentication, which only looks up and asks no SAFE); they are interpreted on the invariants of the development.
\<close>

section \<open>Handlers that look up\<close>

lemma keeps_getCache [go_intro]: "keeps I (getCache a b)"
  by (rule keepsI) (auto simp: getCache_def Let_def split: if_splits option.splits)

lemma keeps_go_nth [go_intro]: "keeps I (go_nth xs i)"
  unfolding go_nth_def by (intro go_intro)

lemma keeps_respond [go_intro]: "keeps I (respond ms)"
  unfolding respond_def by (intro go_intro)

lemma keeps_preEndorsement [go_intro]: "keeps I (preEndorsement mr)"
  unfolding preEndorsement_def by (intro go_intro)

text \<open>The lookups alone, as authentication uses them, and with requests to SAFE.\<close>

locale cache_lookup =
  fixes E :: "('t, 'w) env" and I :: "('t, 'w) proxy \<Rightarrow> bool"
  assumes net: "keeps I (with_cache i (GetInstanceFromNetMap (en_tree E) (en_conn E) ip port))"
    and uuid: "keeps I (with_cache i (GetInstanceFromID (en_tree E) (en_conn E) pid))"
begin

lemma mr_uuid: "keeps I (mr_with_cache mr (GetInstanceFromID (en_tree E) (en_conn E) pid))"
  unfolding mr_with_cache_def by (intro go_intro uuid)

lemma mr_net: "keeps I (mr_with_cache mr (GetInstanceFromNetMap (en_tree E) (en_conn E) ip port))"
  unfolding mr_with_cache_def by (intro go_intro net)

lemma authenticate_keeps: "keeps I (authenticate E mr who)"
proof -
  have "keeps I (mr_with_cache mr (if b then GetInstanceFromID (en_tree E) (en_conn E) who
      else GetInstanceFromNetMap (en_tree E) (en_conn E) ip lport))" for b ip lport
    by (cases b) (simp_all add: mr_uuid mr_net)
  then show ?thesis unfolding authenticate_def by (intro go_intro)
qed

lemma newAuth_keeps: "keeps I (newAuth E r b)"
  unfolding newAuth_def Let_def by (intro go_intro authenticate_keeps)

lemma authz_target_keeps: "keeps I (authz_target mr)"
  unfolding authz_target_def by (intro go_intro)

lemma authzControl_keeps: "keeps I (authzControl E mr target b)"
  unfolding authzControl_def Let_def by (intro go_intro mr_uuid authz_target_keeps)

end

locale cache_client = cache_lookup E I
  for E :: "('t, 'w) env" and I :: "('t, 'w) proxy \<Rightarrow> bool" +
  assumes safe: "I s \<Longrightarrow> I (s\<lparr>px_world := snd (en_do E req (px_world s))\<rparr>)"
begin

text \<open>A post hook is nil or keeps the property.\<close>

definition post_ok :: "('t, 'w) post_hook option \<Rightarrow> bool" where
  "post_ok post \<longleftrightarrow> (\<forall>h mr dat st. post = Some h \<longrightarrow> keeps I (h mr dat st))"

definition pre_ok :: "('t, 'w) pre_hook option \<Rightarrow> bool" where
  "pre_ok pre \<longleftrightarrow> (\<forall>h mr. pre = Some h \<longrightarrow> keeps I (h mr))"

lemma hooks_None [simp]: "post_ok None" "pre_ok None"
  by (simp_all add: post_ok_def pre_ok_def)

lemma pre_Some: "pre_ok (Some h) \<longleftrightarrow> (\<forall>mr. keeps I (h mr))"
  by (auto simp: pre_ok_def)

lemma post_Some: "post_ok (Some h) \<longleftrightarrow> (\<forall>mr dat st. keeps I (h mr dat st))"
  by (auto simp: post_ok_def)

lemma forward_keeps:
  assumes "post_ok post"
  shows "keeps I (forward E mr post)"
proof (rule keepsI)
  fix s x s' assume I: "I s" and run: "forward E mr post s = (x, s')"
  obtain res w where d: "en_do E \<lparr>or_Method = mr_method mr, or_Url = getUrl (px_addr s) (mr_url mr),
      or_Body = EncodingMetadataRequest mr\<rparr> (px_world s) = (res, w)" by fastforce
  then have I': "I (s\<lparr>px_world := w\<rparr>)" using safe [OF I] by (metis snd_conv)
  with assms I run show "I s'"
    by (auto simp: forward_def d Let_def post_ok_def split: option.splits do_result.splits sum.splits
        dest: keepsD [where I = I])
qed

lemma newHandler_keeps:
  assumes "pre_ok pre" and "post_ok post"
  shows "keeps I (newHandler E mr pre post)"
proof -
  have "keeps I (case pre of Some h \<Rightarrow> h mr | None \<Rightarrow> go_return (mr, [], StatusOK))"
    using assms(1) by (auto simp: pre_ok_def keeps_return split: option.splits)
  then show ?thesis
    unfolding newHandler_def by (rule keeps_bind) (intro go_intro forward_keeps assms(2))
qed

lemma handler_keeps:
  assumes "pre_ok pre" and "post_ok post"
  shows "keeps I (go_bind (newHandlerUnwrapped E r pre post b) respond)"
  unfolding newHandlerUnwrapped_def
  by (intro go_intro newAuth_keeps newHandler_keeps assms)

lemma preInstanceCallHandler_keeps: "keeps I (preInstanceCallHandler E mr)"
  unfolding preInstanceCallHandler_def Let_def by (intro go_intro authzControl_keeps)

lemma preVMInstanceCallHandler_keeps: "keeps I (preVMInstanceCallHandler E mr)"
  unfolding preVMInstanceCallHandler_def by (intro go_intro preInstanceCallHandler_keeps)

lemma preLegacyInstanceCallHandler_keeps: "keeps I (preLegacyInstanceCallHandler E mr)"
  unfolding preLegacyInstanceCallHandler_def by (intro go_intro preInstanceCallHandler_keeps)

lemma preLazyDelete_keeps: "keeps I (preLazyDelete E mr)"
  unfolding preLazyDelete_def by (intro go_intro authzControl_keeps)

lemma preEndorsementLink_keeps: "keeps I (preEndorsementLink E mr)"
  unfolding preEndorsementLink_def by (intro go_intro authenticate_keeps)

lemma preMembership_keeps: "keeps I (preMembership E mr)"
  unfolding preMembership_def by (intro go_intro authenticate_keeps)

lemma preCheckInstance_keeps: "keeps I (preCheckInstance E mr)"
  unfolding preCheckInstance_def by (intro go_intro authenticate_keeps)

lemma post_chunks_keeps: "keeps I (post_chunks E mr current remain)"
proof (induction remain arbitrary: current rule: less_induct)
  case (less remain)
  have "10 < remain \<Longrightarrow> keeps I (post_chunks E mr (current + 10) (remain - 10))" by (rule less.IH) simp
  then show ?case
    by (subst post_chunks.simps) (intro go_intro newHandler_keeps hooks_None; simp)
qed

lemma post_config_keeps: "keeps I (post_config E base mr)"
  unfolding post_config_def by (intro go_intro post_chunks_keeps)

lemma preSelfConfig_keeps: "keeps I (preSelfConfig E mr)"
  unfolding preSelfConfig_def by (rule post_config_keeps)

lemma parent_only_keeps: "(\<And>inst mr. keeps I (rest inst mr)) \<Longrightarrow> keeps I (parent_only E rest mr)"
  unfolding parent_only_def by (intro go_intro authenticate_keeps)

lemma preInstanceConfig_keeps: "keeps I (preInstanceConfig E mr)"
  unfolding preInstanceConfig_def by (intro parent_only_keeps post_config_keeps)

lemma postKvConfig_keeps: "keeps I (postKvConfig E inst mr)"
  unfolding postKvConfig_def Let_def by (intro go_intro newHandler_keeps hooks_None)

lemma preInstanceKvConfig_keeps: "keeps I (preInstanceKvConfig E mr)"
  unfolding preInstanceKvConfig_def by (intro parent_only_keeps postKvConfig_keeps)

lemma authenticateAddr_keeps: "keeps I (authenticateAddr E r)"
  unfolding authenticateAddr_def Let_def by (intro go_intro net)

lemmas pre_keeps = preInstanceCallHandler_keeps preVMInstanceCallHandler_keeps
  preLegacyInstanceCallHandler_keeps preLazyDelete_keeps preEndorsementLink_keeps preMembership_keeps
  preCheckInstance_keeps preSelfConfig_keeps preInstanceConfig_keeps preInstanceKvConfig_keeps
  keeps_preEndorsement

text \<open>The handlers without a post hook; pods are apart, since they change the map of pods.\<close>

lemma reader_keeps:
  assumes "h \<in> {CreateInstanceConfig, CreateInstanceKvConfig, CreateSelfConfig, CreateMembership,
      CreateEndorsementLink, CreateEndorsement, HandleOther, HandleOtherNoAuth, HandleCheckInstance, AuthenticateAddr}"
  shows "keeps I (run_handler E h r)"
  using assms
  by (auto simp: createInstanceConfig_def createInstanceKvConfig_def createSelfConfig_def createMembership_def
      createEndorsementLink_def createEndorsement_def handleOther_def handleOtherNoAuth_def handleCheckInstance_def
      pre_Some intro!: handler_keeps pre_keeps authenticateAddr_keeps)

end

section \<open>Handlers that register and delete\<close>

locale cache_creator = cache_client +
  assumes put: "keeps I (with_cache i (PutInstance (en_tree E) (en_conn E) inst))"
begin

lemma postInstanceCreationHandler_keeps: "keeps I (postInstanceCreationHandler E mr dat st)"
  unfolding postInstanceCreationHandler_def Let_def mr_with_cache_def by (intro go_intro put)

lemma creator_keeps:
  assumes "h \<in> {CreateInstance, CreateInstanceLegacy, CreateVMInstance}"
  shows "keeps I (run_handler E h r)"
  using assms
  by (auto simp: createInstance_def createInstanceLegacy_def createVMInstance_def pre_Some post_Some
      intro!: handler_keeps pre_keeps postInstanceCreationHandler_keeps)

end

locale cache_deleter = cache_creator +
  assumes del: "keeps I (with_cache i (DelInstance (en_tree E) (en_conn E) ip l rp pid))"
begin

lemma postInstanceDeletionHandler_keeps: "keeps I (postInstanceDeletionHandler E mr dat st)"
  unfolding postInstanceDeletionHandler_def Let_def mr_with_cache_def by (intro go_intro del)

lemma deleter_keeps:
  assumes "h \<in> {DeleteInstance, DeleteVMInstance, LazyDeleteInstance}"
  shows "keeps I (run_handler E h r)"
  using assms
  by (auto simp: deleteInstance_def deleteVMInstance_def lazyDeleteInstance_def pre_Some post_Some
      intro!: handler_keeps pre_keeps postInstanceDeletionHandler_keeps)

end

definition pod_handlers :: "handler set" where
  "pod_handlers = {PostPodNew, AuthPodNew}"

definition deleting_handlers :: "handler set" where
  "deleting_handlers = {DeleteInstance, DeleteVMInstance, LazyDeleteInstance}"

definition creating_handlers :: "handler set" where
  "creating_handlers = {CreateInstance, CreateInstanceLegacy, CreateVMInstance}"

context cache_creator begin

lemma all_but_deleters_keep:
  assumes "h \<notin> pod_handlers" and "h \<notin> deleting_handlers"
  shows "keeps I (run_handler E h r)"
  using assms creator_keeps reader_keeps
  by (cases h) (simp_all add: pod_handlers_def deleting_handlers_def del: run_handler.simps)

end

context cache_deleter begin

lemma all_keep: "h \<notin> pod_handlers \<Longrightarrow> keeps I (run_handler E h r)"
  using all_but_deleters_keep deleter_keeps by (auto simp: deleting_handlers_def simp del: run_handler.simps)

end

section \<open>The invariants\<close>

lemma with_cache_keeps:
  assumes "keeps (\<lambda>c. J (cs_pmap c)) f"
  shows "keeps (\<lambda>s. \<forall>m \<in> set (px_caches s). J m) (with_cache i f)"
proof (rule keepsI)
  fix s x s' assume all: "\<forall>m \<in> set (px_caches s). J m" and run: "with_cache i f s = (x, s')"
  show "\<forall>m \<in> set (px_caches s'). J m"
  proof (cases "i < length (px_caches s)")
    case False
    with all run show ?thesis by (simp add: with_cache_def)
  next
    case True
    obtain y c where f: "f \<lparr>cs_pmap = px_caches s ! i, cs_world = px_world s\<rparr> = (y, c)" by fastforce
    have "J (cs_pmap c)" using keepsD [OF assms _ f] all True by simp
    with all run True f show ?thesis
      by (auto simp: with_cache_def dest!: set_update_subset_insert [THEN subsetD])
  qed
qed

text \<open>The property of the maps holds of every cache of the proxy.\<close>

definition caches_sound :: "('t, 'w) env \<Rightarrow> ('t, 'w) proxy \<Rightarrow> bool" where
  "caches_sound E s \<longleftrightarrow> (\<forall>m \<in> set (px_caches s). pmap_wf (en_tree E) m \<and> pmap_covered (en_tree E) m)"

interpretation sound_caches: cache_creator E
    "\<lambda>s. \<forall>m \<in> set (px_caches s). itree_ok (en_tree E) \<longrightarrow> pmap_wf (en_tree E) m \<and> pmap_covered (en_tree E) m" for E
  by unfold_locales
     (rule with_cache_keeps sound.GetInstanceFromNetMap_keeps sound.GetInstanceFromID_keeps sound.PutInstance_keeps | simp)+

text \<open>What no handler but those of pods changes.\<close>

definition same_frame :: "('t, 'w) proxy \<Rightarrow> ('t, 'w) proxy \<Rightarrow> bool" where
  "same_frame s s' \<longleftrightarrow> px_addr s' = px_addr s \<and> px_pods s' = px_pods s \<and> length (px_caches s') = length (px_caches s)"

lemma with_cache_frame: "keeps (same_frame s0) (with_cache i f)"
  by (rule keepsI) (auto simp: with_cache_def same_frame_def split: option.splits prod.splits)

interpretation frame: cache_deleter E "same_frame s0" for E s0
  by unfold_locales (simp_all add: with_cache_frame, simp add: same_frame_def)

text \<open>
  A view of the outside world that lookups in Riak and requests to SAFE leave alone, such as the
  contents of the Riak store.
\<close>

definition quiet :: "('t, 'w) env \<Rightarrow> ('w \<Rightarrow> 'v) \<Rightarrow> bool" where
  "quiet E view \<longleftrightarrow>
     (\<forall>ip w. view (snd (rc_GetAllNetID (en_conn E) ip w)) = view w) \<and>
     (\<forall>u w. view (snd (rc_SearchIDNet (en_conn E) u w)) = view w) \<and>
     (\<forall>req w. view (snd (en_do E req w)) = view w)"

lemma world_kept:
  assumes "keeps (\<lambda>c. P (cs_world c)) f"
  shows "keeps (\<lambda>s. P (px_world s)) (with_cache i f)"
proof (rule keepsI)
  fix s x s' assume P: "P (px_world s)" and run: "with_cache i f s = (x, s')"
  obtain y c where f: "f \<lparr>cs_pmap = px_caches s ! i, cs_world = px_world s\<rparr> = (y, c)" by fastforce
  have "P (cs_world c)" using keepsD [OF assms _ f] P by simp
  with P run f show "P (px_world s')" by (auto simp: with_cache_def split: option.splits)
qed

interpretation quiet: lookup_property T "en_conn E" "\<lambda>s. quiet E view \<longrightarrow> view (cs_world s) = v" for T E view v
proof
  fix inst
  show "keeps (\<lambda>s. quiet E view \<longrightarrow> view (cs_world s) = v) (on_pmap (PutCachedInstance T inst))"
    by (rule on_pmap_world [where P = "\<lambda>w. quiet E view \<longrightarrow> view w = v"])
qed (simp_all add: quiet_def)

interpretation quiet_world: cache_client E "\<lambda>s. quiet E view \<longrightarrow> view (px_world s) = v" for E view v
  by unfold_locales
     (rule world_kept [where P = "\<lambda>w. quiet E view \<longrightarrow> view w = v"] quiet.GetInstanceFromNetMap_keeps
        quiet.GetInstanceFromID_keeps | simp add: quiet_def)+

text \<open>A view of the outside world that lookups in Riak leave alone, such as what SAFE was sent.\<close>

definition unseen :: "('t, 'w) env \<Rightarrow> ('w \<Rightarrow> 'v) \<Rightarrow> bool" where
  "unseen E view \<longleftrightarrow>
     (\<forall>ip w. view (snd (rc_GetAllNetID (en_conn E) ip w)) = view w) \<and>
     (\<forall>u w. view (snd (rc_SearchIDNet (en_conn E) u w)) = view w)"

interpretation unseen: lookup_property T "en_conn E" "\<lambda>s. unseen E view \<longrightarrow> view (cs_world s) = v" for T E view v
proof
  fix inst
  show "keeps (\<lambda>s. unseen E view \<longrightarrow> view (cs_world s) = v) (on_pmap (PutCachedInstance T inst))"
    by (rule on_pmap_world [where P = "\<lambda>w. unseen E view \<longrightarrow> view w = v"])
qed (simp_all add: unseen_def)

interpretation unseen_world: cache_lookup E "\<lambda>s. unseen E view \<longrightarrow> view (px_world s) = v" for E view v
  by unfold_locales
     (rule world_kept [where P = "\<lambda>w. unseen E view \<longrightarrow> view w = v"] unseen.GetInstanceFromNetMap_keeps
        unseen.GetInstanceFromID_keeps)+

end
