(* ===== verification/Auth.thy ===== *)
theory Auth
  imports Proxy
begin

text \<open>
  What authentication and authorization (getCache, newAuth, authzControl of
  \<open>proxy/newapi.go\<close>) guarantee, and what they let through.
\<close>

section \<open>The cache of a request\<close>

text \<open>As main sets the proxy up: at least one cache, and fewer than the hash can name.\<close>

definition has_caches :: "('t, 'w) proxy \<Rightarrow> bool" where
  "has_caches s \<longleftrightarrow> 0 < length (px_caches s) \<and> length (px_caches s) < 2 ^ 32"

definition cache_of :: "('t, 'w) proxy \<Rightarrow> string \<Rightarrow> nat" where
  "cache_of s auth = unat (fnv32 auth mod word_of_nat (length (px_caches s)))"

lemma unat_caches: "has_caches s \<Longrightarrow> unat (word_of_nat (length (px_caches s)) :: 32 word) = length (px_caches s)"
  by (simp add: has_caches_def unsigned_of_nat take_bit_nat_eq_self)

lemma cache_of_less: "has_caches s \<Longrightarrow> cache_of s auth < length (px_caches s)"
  by (simp add: cache_of_def unat_mod_distrib unat_caches) (simp add: has_caches_def)

lemma getCache_eq:
  assumes "has_caches s"
  shows "getCache a auth s = (Ret (cache_of s auth), s)"
proof -
  have "(word_of_nat (length (px_caches s)) :: 32 word) \<noteq> 0"
  proof
    assume "(word_of_nat (length (px_caches s)) :: 32 word) = 0"
    with unat_caches [OF assms] have "length (px_caches s) = 0" by simp
    with assms show False by (simp add: has_caches_def)
  qed
  with cache_of_less [OF assms, of auth] show ?thesis by (simp add: getCache_def cache_of_def Let_def)
qed

section \<open>Authentication\<close>

lemma dec_MetadataRequest_frame:
  "mr_targetAddrIndex (fst (dec_MetadataRequest m body)) = mr_targetAddrIndex m \<and>
   mr_targetType (fst (dec_MetadataRequest m body)) = mr_targetType m \<and>
   mr_targetCidr (fst (dec_MetadataRequest m body)) = mr_targetCidr m \<and>
   mr_instance (fst (dec_MetadataRequest m body)) = mr_instance m"
proof -
  let ?P = "\<lambda>x. mr_targetAddrIndex (fst x) = mr_targetAddrIndex m \<and> mr_targetType (fst x) = mr_targetType m \<and>
      mr_targetCidr (fst x) = mr_targetCidr m \<and> mr_instance (fst x) = mr_instance m"
  have "?P (fst (dec_struct [''principal'', ''bearerRef'', ''methodParams'', ''auth''] upd_MetadataRequest (m, []) body))"
    by (rule dec_struct_keeps [where P = ?P]) (auto simp: upd_MetadataRequest_def Let_def split: prod.splits)
  then show ?thesis by (auto simp: dec_MetadataRequest_def split: prod.splits)
qed

lemma ReadRequest_cases:
  obtains (bad) "ReadRequest r = (None, StatusBadRequest)"
  | (good) mr where "ReadRequest r = (Some mr, StatusOK)" "mr_targetAddrIndex mr = 0"
      "mr_targetType mr = NORMAL_INSTANCE_TYPE" "mr_targetCidr mr = None" "mr_instance mr = None"
proof (cases "rq_Body r")
  case None
  then show ?thesis using bad by (simp add: ReadRequest_def)
next
  case (Some body)
  let ?z = "zero_MetadataRequest\<lparr>mr_targetType := NORMAL_INSTANCE_TYPE, mr_targetCidr := None\<rparr>"
  obtain m ok where d: "dec_MetadataRequest ?z body = (m, ok)" by fastforce
  show ?thesis
  proof (cases ok)
    case False
    then show ?thesis using bad Some d by (simp add: ReadRequest_def)
  next
    case True
    then have rd: "ReadRequest r = (Some m, StatusOK)" using Some d by (simp add: ReadRequest_def)
    have z: "mr_targetAddrIndex ?z = 0 \<and> mr_targetType ?z = NORMAL_INSTANCE_TYPE \<and> mr_targetCidr ?z = None \<and>
        mr_instance ?z = None" by (simp add: zero_MetadataRequest_def)
    show ?thesis
      using dec_MetadataRequest_frame [of ?z body] unfolding d fst_conv using z by (intro good [OF rd]) metis+
  qed
qed

text \<open>The request as newAuth hands it on when it has not been matched with an instance.\<close>

definition opened :: "('t, 'w) proxy \<Rightarrow> http_request \<Rightarrow> MetadataRequest \<Rightarrow> MetadataRequest" where
  "opened s r mr0 =
     mr0\<lparr>mr_method := rq_Method r,
         mr_Principal := (if mr_Principal mr0 = [] then rq_RemoteAddr r else mr_Principal mr0),
         mr_url := rq_RequestURI r, mr_cache := Some (cache_of s (mr_Auth mr0)), mr_Auth := []\<rparr>"

lemma opened_simps [simp]:
  "mr_Principal (opened s r mr0) = (if mr_Principal mr0 = [] then rq_RemoteAddr r else mr_Principal mr0)"
  "mr_OtherValues (opened s r mr0) = mr_OtherValues mr0" "mr_cache (opened s r mr0) = Some (cache_of s (mr_Auth mr0))"
  "mr_instance (opened s r mr0) = mr_instance mr0" "mr_url (opened s r mr0) = rq_RequestURI r"
  "mr_method (opened s r mr0) = rq_Method r" "mr_targetAddrIndex (opened s r mr0) = mr_targetAddrIndex mr0"
  "mr_targetType (opened s r mr0) = mr_targetType mr0" "mr_targetCidr (opened s r mr0) = mr_targetCidr mr0"
  "mr_Auth (opened s r mr0) = []" "mr_ParentBear (opened s r mr0) = mr_ParentBear mr0"
  by (simp_all add: opened_def)

lemma newAuth_opened:
  fixes E :: "('t, 'w) env" and s :: "('t, 'w) proxy"
  assumes "ReadRequest r = (Some mr0, StatusOK)" and "has_caches s"
  shows "newAuth E r b s =
    (let mr = opened s r mr0
     in if mr_Principal mr = IaaSProvider then (Ret (Some mr, StatusOK), s)
        else go_bind (authenticate E mr (mr_Principal mr)) (\<lambda>(inst, status).
               if status \<noteq> StatusOK then (if b then go_return (None, status) else go_return (Some mr, StatusOK))
               else (case ParseIPNew (rq_RemoteAddr r) of
                       (_, _, _, status) \<Rightarrow>
                         if status \<noteq> StatusOK then go_return (None, status)
                         else (case inst of
                                 None \<Rightarrow> go_panic
                               | Some inst \<Rightarrow> go_return (Some (as_instance mr inst), StatusOK)))) s)"
proof -
  have upd: "(if mr_Principal m = [] then m\<lparr>mr_Principal := a\<rparr> else m) =
      m\<lparr>mr_Principal := (if mr_Principal m = [] then a else mr_Principal m)\<rparr>" for m :: MetadataRequest and a
    by simp
  have mr: "mr0\<lparr>mr_method := rq_Method r\<rparr>\<lparr>mr_Principal := p\<rparr>\<lparr>mr_url := rq_RequestURI r\<rparr>
      \<lparr>mr_cache := Some (cache_of s (mr_Auth mr0)), mr_Auth := []\<rparr> = opened s r mr0"
    if "p = (if mr_Principal mr0 = [] then rq_RemoteAddr r else mr_Principal mr0)" for p
    using that by (simp add: opened_def)
  let ?p = "if mr_Principal mr0 = [] then rq_RemoteAddr r else mr_Principal mr0"
  have p: "(if mr_Principal (mr0\<lparr>mr_method := rq_Method r\<rparr>) = [] then rq_RemoteAddr r
      else mr_Principal (mr0\<lparr>mr_method := rq_Method r\<rparr>)) = ?p" by simp
  have auth: "mr_Auth (mr0\<lparr>mr_method := rq_Method r\<rparr>\<lparr>mr_Principal := q\<rparr>\<lparr>mr_url := rq_RequestURI r\<rparr>) = mr_Auth mr0" for q
    by simp
  have gb: "go_bind (getCache a auth) f s = f (cache_of s auth) s" for a auth
    and f :: "nat \<Rightarrow> (('t, 'w) proxy, MetadataRequest option \<times> int) go"
    by (rule go_bind_Ret) (rule getCache_eq [OF assms(2)])
  have ok: "(StatusOK \<noteq> StatusOK) = False" by simp
  show ?thesis
    unfolding newAuth_def assms(1) Let_def prod.case option.case upd p auth ok if_False gb mr [OF refl]
    by (simp only: go_return_apply if_distribR)
qed

lemma authenticate_noauth: "HasPrefix who NOAUTH_PREFIX \<Longrightarrow> authenticate E mr who s = (Ret (None, StatusUnauthorized), s)"
  by (simp add: authenticate_def)

lemma authenticate_OK_or_None:
  "authenticate E mr who s = (Ret (inst, st), s') \<Longrightarrow> st \<noteq> StatusOK \<Longrightarrow> inst = None"
  by (auto simp: authenticate_def split: if_splits prod.splits elim!: go_bind_RetE)

text \<open>The three ways newAuth lets a request through.\<close>

lemma newAuth_cases:
  assumes "has_caches s" and "newAuth E r b s = (Ret (Some mr, st), s')"
  obtains (provider) mr0 where "ReadRequest r = (Some mr0, StatusOK)" "mr = opened s r mr0"
      "mr_Principal mr = IaaSProvider" "st = StatusOK" "s' = s"
  | (speaker) mr0 inst p1 p2 ip where "ReadRequest r = (Some mr0, StatusOK)" "mr_Principal (opened s r mr0) \<noteq> IaaSProvider"
      "authenticate E (opened s r mr0) (mr_Principal (opened s r mr0)) s = (Ret (Some inst, StatusOK), s')"
      "ParseIPNew (rq_RemoteAddr r) = (ip, p1, p2, StatusOK)" "mr = as_instance (opened s r mr0) inst" "st = StatusOK"
  | (external) mr0 code where "ReadRequest r = (Some mr0, StatusOK)" "mr_Principal (opened s r mr0) \<noteq> IaaSProvider"
      "authenticate E (opened s r mr0) (mr_Principal (opened s r mr0)) s = (Ret (None, code), s')"
      "code \<noteq> StatusOK" "\<not> b" "mr = opened s r mr0" "st = StatusOK"
proof (cases rule: ReadRequest_cases [of r, case_names bad good])
  case bad
  then show ?thesis using assms(2) by (simp add: newAuth_def)
next
  case (good mr0)
  let ?mr = "opened s r mr0"
  note run = assms(2) [unfolded newAuth_opened [OF good(1) assms(1)] Let_def]
  show ?thesis
  proof (cases "mr_Principal ?mr = IaaSProvider")
    case True
    from run [unfolded if_P [OF True]] have "?mr = mr \<and> StatusOK = st \<and> s = s'"
      unfolding prod.inject outcome.inject option.inject conj_assoc .
    with True good(1) show ?thesis by (intro provider) blast+
  next
    case False
    note run = run [unfolded if_not_P [OF False]]
    from run obtain inst code s1 where au: "authenticate E ?mr (mr_Principal ?mr) s = (Ret (inst, code), s1)"
      by (auto elim!: go_bind_RetE simp del: opened_simps)
    show ?thesis
    proof (cases "code = StatusOK")
      case False
      with run au authenticate_OK_or_None [OF au] have "\<not> b" "mr = ?mr" "st = StatusOK" "s' = s1" "inst = None"
        by (auto split: if_splits simp del: opened_simps)
      with False au good(1) \<open>mr_Principal ?mr \<noteq> IaaSProvider\<close> show ?thesis by (intro external) auto
    next
      case True
      obtain ip p1 p2 pst where p: "ParseIPNew (rq_RemoteAddr r) = (ip, p1, p2, pst)" by (cases "ParseIPNew (rq_RemoteAddr r)")
      with run au True obtain i where "inst = Some i" "pst = StatusOK" "mr = as_instance ?mr i" "st = StatusOK" "s' = s1"
        by (auto split: if_splits option.splits simp del: opened_simps)
      with True au good(1) p \<open>mr_Principal ?mr \<noteq> IaaSProvider\<close> show ?thesis by (intro speaker) auto
    qed
  qed
qed

section \<open>Authorization\<close>

text \<open>The speaker of the request is in charge of the address and the ports.\<close>

definition in_charge :: "MetadataRequest \<Rightarrow> IP \<Rightarrow> int \<Rightarrow> int \<Rightarrow> bool" where
  "in_charge mr ip l r \<longleftrightarrow>
     mr_Principal mr = IaaSProvider \<or>
     (IP_Equal (mr_ip mr) ip \<and> mr_lport mr \<le> l \<and> r \<le> mr_rport mr) \<or>
     (\<exists>inst n. mr_instance mr = Some inst \<and> ic_Type (ci_ID inst) = VM_INSTANCE_TYPE \<and>
        ic_Cidr (ci_ID inst) = Some n \<and> IPNet_Contains n ip)"

definition with_target :: "MetadataRequest \<Rightarrow> IP \<Rightarrow> int \<Rightarrow> int \<Rightarrow> MetadataRequest" where
  "with_target mr ip l r = mr\<lparr>mr_targetIp := ip, mr_targetLport := l, mr_targetRport := r\<rparr>"

lemma with_target_simps [simp]:
  "mr_Principal (with_target mr ip l r) = mr_Principal mr" "mr_ip (with_target mr ip l r) = mr_ip mr"
  "mr_lport (with_target mr ip l r) = mr_lport mr" "mr_rport (with_target mr ip l r) = mr_rport mr"
  "mr_instance (with_target mr ip l r) = mr_instance mr" "mr_targetIp (with_target mr ip l r) = ip"
  "mr_targetLport (with_target mr ip l r) = l" "mr_targetRport (with_target mr ip l r) = r"
  "mr_OtherValues (with_target mr ip l r) = mr_OtherValues mr" "mr_cache (with_target mr ip l r) = mr_cache mr"
  "mr_targetType (with_target mr ip l r) = mr_targetType mr" "mr_targetCidr (with_target mr ip l r) = mr_targetCidr mr"
  "mr_url (with_target mr ip l r) = mr_url mr" "mr_method (with_target mr ip l r) = mr_method mr"
  "mr_vals (with_target mr ip l r) = mr_vals mr"
  by (simp_all add: with_target_def mr_vals_def)

lemma authz_target_spec:
  assumes "mr_Principal mr = IaaSProvider \<or> mr_instance mr \<noteq> None"
  shows "authz_target (with_target mr ip l r) s =
    (Ret (with_target mr ip l r, if in_charge mr ip l r then StatusOK else StatusUnauthorized), s)"
  using assms by (auto simp: authz_target_def in_charge_def split: option.splits)

lemma authz_target_OK:
  assumes "authz_target (with_target mr ip l r) s = (Ret (mr', StatusOK), s')"
  shows "mr' = with_target mr ip l r \<and> s' = s \<and> in_charge mr ip l r"
  using assms by (auto simp: authz_target_def in_charge_def split: if_splits option.splits)

lemma authzControl_address:
  assumes "ParseIPNew target = (ip, l, r, StatusOK)"
  shows "authzControl E mr target u = authz_target (with_target mr ip l r)"
  by (rule ext) (simp add: authzControl_def assms with_target_def)

lemma authzControl_OK:
  assumes "authzControl E mr target False s = (Ret (mr', StatusOK), s')"
  obtains ip l r where "ParseIPNew target = (ip, l, r, StatusOK)" "mr' = with_target mr ip l r" "s' = s" "in_charge mr ip l r"
proof -
  obtain ip l r st where p: "ParseIPNew target = (ip, l, r, st)" by (cases "ParseIPNew target")
  show ?thesis
  proof (cases "st = StatusOK")
    case True
    then have "authz_target (with_target mr ip l r) s = (Ret (mr', StatusOK), s')"
      using assms p by (simp add: authzControl_address)
    from authz_target_OK [OF this] that p True show ?thesis by simp
  next
    case False
    with assms p show ?thesis by (simp add: authzControl_def)
  qed
qed

section \<open>Known speakers\<close>

text \<open>A name that is looked up by id: no address, no noauth prefix, not the provider.\<close>

definition plain_name :: "string \<Rightarrow> bool" where
  "plain_name who \<longleftrightarrow> who \<noteq> [] \<and> who \<noteq> IaaSProvider \<and> \<not> HasPrefix who NOAUTH_PREFIX \<and>
     (case ParseIPNew who of (_, _, _, st) \<Rightarrow> st \<noteq> StatusOK)"

definition known_in :: "('t, 'w) proxy \<Rightarrow> nat \<Rightarrow> string \<Rightarrow> CachedInstance \<Rightarrow> bool" where
  "known_in s i pid inst \<longleftrightarrow> i < length (px_caches s) \<and> pm_PidMap (px_caches s ! i) pid = Some inst"

lemma authenticate_known:
  assumes "plain_name who" and "mr_cache mr = Some i" and "known_in s i who inst"
  shows "authenticate E mr who s = (Ret (Some inst, StatusOK), s)"
proof -
  obtain ip l r st where p: "ParseIPNew who = (ip, l, r, st)" "st \<noteq> StatusOK"
    using assms(1) by (auto simp: plain_name_def split: prod.splits)
  have "with_cache i (GetInstanceFromID (en_tree E) (en_conn E) who) s = (Ret (Some inst, StatusOK), s)"
    using assms(3) by (simp add: with_cache_def known_in_def GetInstanceFromID_def GetCachedInstance_def)
  with assms(1,2) p show ?thesis
    by (simp add: authenticate_def plain_name_def mr_with_cache_def)
qed

lemma newAuth_known:
  assumes "ReadRequest r = (Some mr0, StatusOK)" and "has_caches s" and "plain_name (mr_Principal mr0)"
    and "known_in s (cache_of s (mr_Auth mr0)) (mr_Principal mr0) inst"
    and "ParseIPNew (rq_RemoteAddr r) = (ip, l, p, StatusOK)"
  shows "newAuth E r b s = (Ret (Some (as_instance (opened s r mr0) inst), StatusOK), s)"
proof -
  have "authenticate E (opened s r mr0) (mr_Principal mr0) s = (Ret (Some inst, StatusOK), s)"
    by (rule authenticate_known [OF assms(3) _ assms(4)]) simp
  with assms(3) show ?thesis
    by (simp add: newAuth_opened [OF assms(1,2)] plain_name_def assms(5))
qed

end
