(* ===== verification/Demo.thy ===== *)
theory Demo
  imports Auth Routes
begin

text \<open>
  Concrete inputs for the properties of the handlers: a proxy with one cache that holds one
  instance, a SAFE that answers every request with 200 and records it, and requests by body.
  Nothing here models code.
\<close>

text \<open>The outside world: the requests SAFE got, and the number of writes to Riak.\<close>

type_synonym demo_world = "out_request list \<times> nat"

definition demo_conn :: "demo_world RiakConn" where
  "demo_conn = null_conn\<lparr>rc_PutNetIDMap := (\<lambda>ip l r c w. (True, (fst w, snd w + 1))),
     rc_DelNetIDMap := (\<lambda>ip l r w. (True, (fst w, snd w + 1)))\<rparr>"

lemma demo_conn_simps [simp]:
  "rc_PutNetIDMap demo_conn ip l r c w = (True, (fst w, snd w + 1))"
  "rc_DelNetIDMap demo_conn ip l r w = (True, (fst w, snd w + 1))"
  "rc_GetAllNetID demo_conn ip w = (Some [], w)" "rc_SearchIDNet demo_conn u w = (Some [], w)"
  by (simp_all add: demo_conn_def)

lemma demo_conn_v4 [simp]: "conn_v4 demo_conn"
  by (simp add: conn_v4_def)

definition demo_env :: "(elem list, demo_world) env" where
  "demo_env = \<lparr>en_tree = list_tree, en_conn = demo_conn, en_newreq = (\<lambda>m u. None),
     en_do = (\<lambda>req w. (DoResponse StatusOK (Inr ''ok''), (fst w @ [req], snd w)))\<rparr>"

lemma demo_env_simps [simp]:
  "en_tree demo_env = list_tree" "en_conn demo_env = demo_conn" "en_newreq demo_env m u = None"
  "en_do demo_env req w = (DoResponse StatusOK (Inr ''ok''), (fst w @ [req], snd w))"
  by (simp_all add: demo_env_def)

definition demo_proxy :: "(elem list, demo_world) proxy" where
  "demo_proxy = \<lparr>px_addr = ''safe:7777'', px_caches = [demo_pmap], px_pods = Map.empty, px_world = ([], 0)\<rparr>"

lemma demo_proxy_simps [simp]:
  "px_addr demo_proxy = ''safe:7777''" "px_caches demo_proxy = [demo_pmap]" "px_pods demo_proxy = Map.empty"
  "px_world demo_proxy = ([], 0)"
  by (simp_all add: demo_proxy_def)

lemma demo_has_caches [simp]: "has_caches demo_proxy"
  by (simp add: has_caches_def)

lemma demo_cache_of [simp]: "cache_of demo_proxy auth = 0"
  using cache_of_less [OF demo_has_caches, of auth] by simp

definition demo_mr :: "string \<Rightarrow> string list \<Rightarrow> MetadataRequest" where
  "demo_mr who vals = zero_MetadataRequest\<lparr>mr_Principal := who, mr_OtherValues := Some vals,
     mr_targetType := NORMAL_INSTANCE_TYPE\<rparr>"

lemma demo_mr_simps [simp]:
  "mr_Principal (demo_mr who vals) = who" "mr_OtherValues (demo_mr who vals) = Some vals"
  "mr_vals (demo_mr who vals) = vals" "mr_Auth (demo_mr who vals) = []" "mr_ParentBear (demo_mr who vals) = []"
  "mr_instance (demo_mr who vals) = None" "mr_targetAddrIndex (demo_mr who vals) = 0"
  by (simp_all add: demo_mr_def zero_MetadataRequest_def mr_vals_def)

definition demo_request :: "string \<Rightarrow> string list \<Rightarrow> http_request" where
  "demo_request who vals =
     \<lparr>rq_Method = ''POST'', rq_RequestURI = ''/api'', rq_RemoteAddr = addr_port_text (IPv4 10 0 0 1) 150,
      rq_Body = Some (EncodingMetadataRequest (demo_mr who vals)), rq_Vars = Map.empty\<rparr>"

lemma demo_request_simps [simp]:
  "rq_Method (demo_request who vals) = ''POST''" "rq_RequestURI (demo_request who vals) = ''/api''"
  "rq_RemoteAddr (demo_request who vals) = addr_port_text (IPv4 10 0 0 1) 150"
  by (simp_all add: demo_request_def)

definition ascii :: "string \<Rightarrow> bool" where
  "ascii s \<longleftrightarrow> list_all (in_byte 0 127) s"

lemma ReadRequest_demo:
  assumes "ascii who" and "list_all ascii vals"
  shows "ReadRequest (demo_request who vals) = (Some (demo_mr who vals), StatusOK)"
proof -
  have "utf8_request (demo_mr who vals)"
    using assms valid_utf8_ascii by (auto simp: utf8_request_def ascii_def list_all_iff)
  from ReadRequest_encoded [OF this, of "demo_request who vals"]
  show ?thesis by (simp add: demo_request_def) (simp add: demo_mr_def zero_MetadataRequest_def)
qed

text \<open>The speaker of a request that gives no address: a plain name has no colon.\<close>

lemma match_ip_port_colon: "match_ip_port s = Some x \<Longrightarrow> CHR '':'' \<in> set s"
proof (cases x)
  fix q p r assume "match_ip_port s = Some x" "x = (q, p, r)"
  then obtain s1 s2 where m: "match_quad s = Some (q, s1)" "s1 = CHR '':'' # s2"
    by (auto simp: match_ip_port_def bind_eq_Some_conv match_char_Some)
  from m(1) have "set s1 \<subseteq> set s"
    by (auto simp: match_quad_def bind_eq_Some_conv match_char_Some dest!: match_digits_Some)
  with m(2) show ?thesis by auto
qed

lemma ParseIPNew_no_colon:
  assumes "CHR '':'' \<notin> set who"
  shows "ParseIPNew who = (nil_IP, - 1, - 1, StatusBadRequest)"
proof -
  have sub: "who = u @ v \<Longrightarrow> match_ip_port v = None" for u v
    using match_ip_port_colon [of v] assms by (cases "match_ip_port v") auto
  then have p: "find_match match_ip_port who = None" by (intro find_match_None)
  have "who = u @ v \<Longrightarrow> match_ip_range v = None" for u v
    by (simp add: match_ip_range_def sub)
  then have r: "find_match match_ip_range who = None" by (intro find_match_None)
  show ?thesis by (simp add: ParseIPNew_def ParseIP3_def ParseIP2_def p r)
qed

lemma with_cache_demo:
  "with_cache 0 f demo_proxy =
     (case f \<lparr>cs_pmap = demo_pmap, cs_world = ([], 0)\<rparr> of
        (r, c) \<Rightarrow> (r, demo_proxy\<lparr>px_caches := [cs_pmap c], px_world := cs_world c\<rparr>))"
  by (simp add: with_cache_def split: prod.splits)

text \<open>The instance web authenticates by its id, from the cache.\<close>

lemma authenticate_web:
  assumes "mr_cache mr = Some 0"
  shows "authenticate demo_env mr ''web'' demo_proxy =
    (Ret (Some (demo_instance 100 200 ''web''), StatusOK), demo_proxy)"
proof -
  have "\<not> HasPrefix ''web'' NOAUTH_PREFIX" by (simp add: HasPrefix_def NOAUTH_PREFIX_def)
  moreover have "ParseIPNew ''web'' = (nil_IP, - 1, - 1, StatusBadRequest)" by (rule ParseIPNew_no_colon) simp
  ultimately show ?thesis
    by (simp add: authenticate_def mr_with_cache_def assms go_bind_def with_cache_demo GetInstanceFromID_def
        GetCachedInstance_def demo_known)
qed

lemma newAuth_web:
  assumes "list_all ascii vals"
  shows "newAuth demo_env (demo_request ''web'' vals) b demo_proxy =
    (Ret (Some (as_instance (opened demo_proxy (demo_request ''web'' vals) (demo_mr ''web'' vals))
       (demo_instance 100 200 ''web'')), StatusOK), demo_proxy)"
proof -
  have rd: "ReadRequest (demo_request ''web'' vals) = (Some (demo_mr ''web'' vals), StatusOK)"
    by (rule ReadRequest_demo [OF _ assms]) (simp add: ascii_def in_byte_def)
  have "''web'' \<noteq> IaaSProvider" by (simp add: IaaSProvider_def)
  moreover have "ParseIPNew (addr_port_text (IPv4 10 0 0 1) 150) = (IPv4 10 0 0 1, 150, - 1, StatusOK)"
    by (rule ParseIPNew_port_text) simp_all
  ultimately show ?thesis
    by (simp add: newAuth_opened [OF rd demo_has_caches] go_bind_def authenticate_web)
qed

lemma newAuth_noauth:
  assumes "list_all ascii vals"
  shows "newAuth demo_env (demo_request ''noauth_x'' vals) True demo_proxy = (Ret (None, StatusUnauthorized), demo_proxy)"
proof -
  have rd: "ReadRequest (demo_request ''noauth_x'' vals) = (Some (demo_mr ''noauth_x'' vals), StatusOK)"
    by (rule ReadRequest_demo [OF _ assms]) (simp add: ascii_def in_byte_def)
  have "''noauth_x'' \<noteq> IaaSProvider" "HasPrefix ''noauth_x'' NOAUTH_PREFIX"
    by (simp_all add: IaaSProvider_def HasPrefix_def NOAUTH_PREFIX_def)
  then show ?thesis
    by (simp add: newAuth_opened [OF rd demo_has_caches] go_bind_def authenticate_noauth)
qed

lemma addr_text_150: "addr_port_text (IPv4 10 0 0 1) 150 = ''10.0.0.1:150''"
  by (simp add: addr_port_text_def dotted_def int_dec_def nat_dec.simps digit_char_def char_of_def bit_iff_odd)

lemma ParseIPNew_150: "ParseIPNew ''10.0.0.1:150'' = (IPv4 10 0 0 1, 150, - 1, StatusOK)"
  using ParseIPNew_port_text [of "IPv4 10 0 0 1" 150] by (simp add: addr_text_150)

lemma not_noauth_150: "\<not> HasPrefix ''10.0.0.1:150'' NOAUTH_PREFIX"
  by (simp add: HasPrefix_def NOAUTH_PREFIX_def)

text \<open>The same instance authenticates by an address in its range.\<close>

lemma authenticate_150:
  assumes "mr_cache mr = Some 0"
  shows "authenticate demo_env mr ''10.0.0.1:150'' demo_proxy =
    (Ret (Some (demo_instance 100 200 ''web''), StatusOK), demo_proxy)"
  by (simp add: authenticate_def not_noauth_150 ParseIPNew_150 mr_with_cache_def assms go_bind_def with_cache_demo
      GetInstanceFromNetMap_def demo_pmap_index copy_indexed_def demo_pmap_cell GetCachedInstance_def demo_known)

lemma newAuth_150:
  assumes "list_all ascii vals"
  shows "newAuth demo_env (demo_request ''10.0.0.1:150'' vals) b demo_proxy =
    (Ret (Some (as_instance (opened demo_proxy (demo_request ''10.0.0.1:150'' vals) (demo_mr ''10.0.0.1:150'' vals))
       (demo_instance 100 200 ''web'')), StatusOK), demo_proxy)"
proof -
  have rd: "ReadRequest (demo_request ''10.0.0.1:150'' vals) = (Some (demo_mr ''10.0.0.1:150'' vals), StatusOK)"
    by (rule ReadRequest_demo [OF _ assms]) (simp add: ascii_def in_byte_def)
  have "''10.0.0.1:150'' \<noteq> IaaSProvider" by (simp add: IaaSProvider_def)
  then show ?thesis
    by (simp add: newAuth_opened [OF rd demo_has_caches] go_bind_def authenticate_150 addr_text_150 ParseIPNew_150)
qed

section \<open>A family of instances\<close>

text \<open>A proxy that knows the instances web and app and their parent, host.\<close>

lemma plain_nameI: "who \<noteq> [] \<Longrightarrow> CHR '':'' \<notin> set who \<Longrightarrow> \<not> HasPrefix who NOAUTH_PREFIX \<Longrightarrow> plain_name who"
  using ParseIPNew_no_colon [of who] by (auto simp: plain_name_def IaaSProvider_def)

lemma plain_names [simp]: "plain_name ''web''" "plain_name ''app''" "plain_name ''host''"
  by (rule plain_nameI; simp add: HasPrefix_def NOAUTH_PREFIX_def)+

definition demo_family :: "(elem list, demo_world) proxy" where
  "demo_family = demo_proxy\<lparr>px_caches := [demo_pmap\<lparr>pm_PidMap :=
     [''web'' \<mapsto> demo_instance 100 200 ''web'', ''app'' \<mapsto> demo_instance 110 130 ''app'',
      ''host'' \<mapsto> demo_instance 1 1000 ''host'']\<rparr>]\<rparr>"

lemma demo_family_known [simp]:
  "known_in demo_family 0 ''web'' (demo_instance 100 200 ''web'')"
  "known_in demo_family 0 ''app'' (demo_instance 110 130 ''app'')"
  "known_in demo_family 0 ''host'' (demo_instance 1 1000 ''host'')"
  by (simp_all add: known_in_def demo_family_def)

lemma demo_family_simps [simp]:
  "has_caches demo_family" "cache_of demo_family a = 0" "px_world demo_family = ([], 0)" "px_addr demo_family = ''safe:7777''"
proof -
  show h: "has_caches demo_family" by (simp add: has_caches_def demo_family_def)
  show "cache_of demo_family a = 0" using cache_of_less [OF h, of a] by (simp add: demo_family_def)
qed (simp_all add: demo_family_def)

text \<open>One of them speaks.\<close>

definition speaks_as :: "string \<Rightarrow> string list \<Rightarrow> CachedInstance \<Rightarrow> MetadataRequest" where
  "speaks_as who vals inst = as_instance (opened demo_family (demo_request who vals) (demo_mr who vals)) inst"

lemma speaks_as_simps [simp]:
  "mr_Principal (speaks_as who vals inst) = inst_pid inst" "mr_vals (speaks_as who vals inst) = vals"
  "mr_cache (speaks_as who vals inst) = Some 0" "mr_instance (speaks_as who vals inst) = Some inst"
  "mr_ip (speaks_as who vals inst) = ci_Ip inst" "mr_lport (speaks_as who vals inst) = ci_Lport inst"
  "mr_rport (speaks_as who vals inst) = ci_Rport inst" "mr_targetAddrIndex (speaks_as who vals inst) = 0"
  by (simp_all add: speaks_as_def as_instance_def mr_vals_def)

lemma newAuth_family:
  assumes "ascii who" and "list_all ascii vals" and "plain_name who" and "known_in demo_family 0 who inst"
  shows "newAuth demo_env (demo_request who vals) b demo_family = (Ret (Some (speaks_as who vals inst), StatusOK), demo_family)"
  unfolding speaks_as_def
  by (rule newAuth_known [OF ReadRequest_demo [OF assms(1,2)], where ip = "IPv4 10 0 0 1" and l = 150 and p = "- 1"])
     (simp_all add: assms ParseIPNew_port_text)

end
