(* ===== verification/HandlerSafety.thy ===== *)
theory HandlerSafety
  imports HandlerInv Demo
begin

text \<open>
  What the handlers never do: change the proxy beside the caches, break a cache, write to Riak
  when they only look up, or write to Riak for a request that is refused.
\<close>

section \<open>Refused requests\<close>

lemma keeps_triple: "keeps I f \<Longrightarrow> triple I f (\<lambda>_. I) (\<lambda>_. True)"
  by (auto simp: keeps_def triple_def split: prod.splits outcome.splits)

lemma triple_bindI:
  "triple P m R X \<Longrightarrow> (\<And>a. triple (R a) (f a) Q X) \<Longrightarrow> triple P (go_bind m f) Q X"
  by (rule triple_bind)

text \<open>A program that answers with a message and a status keeps I unless the status is 200.\<close>

definition refused :: "('s \<Rightarrow> bool) \<Rightarrow> ('s, string \<times> int) go \<Rightarrow> bool" where
  "refused I f \<longleftrightarrow> triple I f (\<lambda>(msg, st) s'. st \<noteq> StatusOK \<longrightarrow> I s') (\<lambda>_. True)"

lemma refused_return [simp]: "refused I (go_return x)"
  by (cases x) (simp add: refused_def triple_return)

lemma refusedI:
  assumes "\<And>s msg st s'. I s \<Longrightarrow> f s = (Ret (msg, st), s') \<Longrightarrow> st \<noteq> StatusOK \<Longrightarrow> I s'"
  shows "refused I f"
  unfolding refused_def using assms by (intro tripleI) auto

lemma refusedD:
  "refused I f \<Longrightarrow> I s \<Longrightarrow> f s = (Ret (msg, st), s') \<Longrightarrow> st \<noteq> StatusOK \<Longrightarrow> I s'"
  unfolding refused_def by (drule (2) triple_Ret) simp

lemma refused_panic [simp]: "refused I go_panic"
  by (rule refusedI) simp

lemma refused_bind: "keeps I m \<Longrightarrow> (\<And>a. refused I (f a)) \<Longrightarrow> refused I (go_bind m f)"
  unfolding refused_def using keeps_triple by (rule triple_bind)

context cache_client begin

definition post_refused :: "('t, 'w) post_hook \<Rightarrow> bool" where
  "post_refused h \<longleftrightarrow> (\<forall>mr dat st. refused I (h mr dat st))"

lemma forward_refused:
  assumes "post_refused h"
  shows "refused I (forward E mr (Some h))"
proof (rule refusedI)
  fix s msg st s' assume I: "I s" and run: "forward E mr (Some h) s = (Ret (msg, st), s')" and st: "st \<noteq> StatusOK"
  obtain res w where d: "en_do E \<lparr>or_Method = mr_method mr, or_Url = getUrl (px_addr s) (mr_url mr),
      or_Body = EncodingMetadataRequest mr\<rparr> (px_world s) = (res, w)" by fastforce
  then have I': "I (s\<lparr>px_world := w\<rparr>)" using safe [OF I] by (metis snd_conv)
  have "h mr dat c (s\<lparr>px_world := w\<rparr>) = (Ret (msg, st), s') \<Longrightarrow> I s'" for dat c
    using assms I' st by (auto simp: post_refused_def dest: refusedD)
  with I I' run show "I s'"
    by (auto simp: forward_def d Let_def split: option.splits do_result.splits sum.splits)
qed

lemma newHandler_refused:
  assumes "pre_ok (Some p)" and "post_refused h"
  shows "refused I (newHandler E mr (Some p) (Some h))"
proof -
  have "keeps I (p mr)" using assms(1) by (simp add: pre_Some)
  then show ?thesis
    unfolding newHandler_def option.case by (rule refused_bind) (simp add: forward_refused [OF assms(2)] split: prod.splits)
qed

lemma handler_refused:
  assumes "pre_ok (Some p)" and "post_refused h" and "I s"
    and "go_bind (newHandlerUnwrapped E r (Some p) (Some h) b) respond s = (Ret resp, s')"
    and "hr_status resp \<noteq> StatusOK"
  shows "I s'"
proof -
  have "refused I (newHandlerUnwrapped E r (Some p) (Some h) b)"
    unfolding newHandlerUnwrapped_def
    by (rule refused_bind [OF newAuth_keeps])
       (auto simp: newHandler_refused [OF assms(1,2)] split: prod.splits option.splits)
  moreover from assms(4) obtain ms s1 where run: "newHandlerUnwrapped E r (Some p) (Some h) b s = (Ret ms, s1)"
    "respond ms s1 = (Ret resp, s')" by (rule go_bind_RetE)
  moreover from run(2) have "s' = s1" "snd ms = hr_status resp"
    by (auto simp: respond_def split: prod.splits if_splits)
  ultimately show ?thesis using assms(3,5) by (cases ms) (auto dest: refusedD)
qed

lemma creation_refused: "post_refused (postInstanceCreationHandler E)"
  unfolding post_refused_def
  by (auto intro!: refusedI simp: postInstanceCreationHandler_def Let_def elim!: go_bind_RetE split: if_splits)

lemma deletion_refused: "post_refused (postInstanceDeletionHandler E)"
  unfolding post_refused_def
  by (auto intro!: refusedI simp: postInstanceDeletionHandler_def elim!: go_bind_RetE split: if_splits)

lemma writer_refused:
  assumes "h \<in> creating_handlers \<union> deleting_handlers" and "I s"
    and "run_handler E h r s = (Ret resp, s')" and "hr_status resp \<noteq> StatusOK"
  shows "I s'"
proof -
  from assms(1) obtain p q where "run_handler E h r = go_bind (newHandlerUnwrapped E r (Some p) (Some q) True) respond"
    and "pre_ok (Some p)" and "post_refused q"
    using creation_refused deletion_refused
    by (auto simp: creating_handlers_def deleting_handlers_def createInstance_def createInstanceLegacy_def
        createVMInstance_def deleteInstance_def deleteVMInstance_def lazyDeleteInstance_def pre_Some pre_keeps)
  then show ?thesis using handler_refused assms(2-4) by metis
qed

end

section \<open>Properties\<close>

lemma pods_keep:
  "h \<in> pod_handlers \<Longrightarrow> run_handler E h r s = (out, s') \<Longrightarrow> px_caches s' = px_caches s \<and> px_world s' = px_world s \<and> px_addr s' = px_addr s"
  by (auto simp: pod_handlers_def postPodNew_def authPodNew_def Let_def split: option.splits prod.splits if_splits)

text \<open>
  No handler but the three that delete can break a cache, whatever Riak and SAFE answer and
  whether the handler returns or panics.
\<close>

lemma sound_step:
  assumes "itree_ok (en_tree E)" and "caches_sound E s" and "h \<notin> deleting_handlers"
    and "run_handler E h r s = (out, s')"
  shows "caches_sound E s'"
proof (cases "h \<in> pod_handlers")
  case True
  from pods_keep [OF this assms(4)] assms(2) show ?thesis by (simp add: caches_sound_def)
next
  case False
  from keepsD [OF sound_caches.all_but_deleters_keep [OF this assms(3)] _ assms(4)] assms(1,2)
  show ?thesis by (simp add: caches_sound_def)
qed

text \<open>The proxy of the examples, and a request to create an instance.\<close>

lemma demo_sound [simp]: "caches_sound demo_env demo_proxy"
  by (simp add: caches_sound_def)

abbreviation demo_create :: http_request where
  "demo_create \<equiv> demo_request ''web'' [''app'', ''x'', addr_range_text (IPv4 10 0 0 1) 110 130]"

text \<open>The handlers change nothing of the proxy but its caches and, for an upload, its pods.\<close>

lemma frame_step:
  assumes "run_handler E h r s = (out, s')"
  shows "px_addr s' = px_addr s \<and> length (px_caches s') = length (px_caches s) \<and>
    (h \<noteq> PostPodNew \<longrightarrow> px_pods s' = px_pods s)"
proof (cases "h \<in> pod_handlers")
  case True
  with pods_keep [OF this assms] assms show ?thesis
    by (auto simp: pod_handlers_def authPodNew_def Let_def split: option.splits prod.splits if_splits)
next
  case False
  have "same_frame s s" by (simp add: same_frame_def)
  from keepsD [OF frame.all_keep [OF False] this assms] show ?thesis by (simp add: same_frame_def)
qed

lemma demo_quiet [simp]: "quiet demo_env snd"
  by (simp add: quiet_def)

text \<open>C27: the handlers that neither create nor delete instances never write to Riak: any view of
  the outside world that lookups and requests to SAFE leave alone is the same afterwards.\<close>

theorem readers_never_write:
  assumes "quiet E view" and "h \<notin> creating_handlers" and "h \<notin> deleting_handlers"
    and "run_handler E h r s = (out, s')"
  shows "view (px_world s') = view (px_world s)"
proof (cases "h \<in> pod_handlers")
  case True
  from pods_keep [OF this assms(4)] show ?thesis by simp
next
  case False
  with assms(2,3) have "keeps (\<lambda>t. quiet E view \<longrightarrow> view (px_world t) = view (px_world s)) (run_handler E h r)"
    by (cases h) (simp_all add: quiet_world.reader_keeps pod_handlers_def creating_handlers_def deleting_handlers_def
        del: run_handler.simps)
  from keepsD [OF this _ assms(4)] assms(1) show ?thesis by simp
qed

theorem readers_never_write_witness:
  "snd (px_world (snd (run_handler demo_env HandleOther (demo_request ''web'' []) demo_proxy))) = 0"
proof -
  obtain out s' where run: "run_handler demo_env HandleOther (demo_request ''web'' []) demo_proxy = (out, s')" by fastforce
  have "HandleOther \<notin> creating_handlers" "HandleOther \<notin> deleting_handlers"
    by (simp_all add: creating_handlers_def deleting_handlers_def)
  from readers_never_write [OF demo_quiet this run] run show ?thesis by simp
qed

text \<open>C15: a request to create or delete an instance that is answered with another status than 200
  (not authenticated, not authorized, refused or unreachable SAFE) has written nothing to Riak.\<close>

theorem refused_writes_nothing:
  assumes "quiet E view" and "h \<in> creating_handlers \<union> deleting_handlers"
    and "run_handler E h r s = (Ret resp, s')" and "hr_status resp \<noteq> StatusOK"
  shows "view (px_world s') = view (px_world s)"
  using quiet_world.writer_refused [where E = E and view = view and v = "view (px_world s)", OF assms(2) _ assms(3,4)]
    assms(1) by simp

theorem refused_writes_nothing_witness:
  "\<exists>resp s'. run_handler demo_env DeleteInstance (demo_request ''noauth_x'' []) demo_proxy = (Ret resp, s') \<and>
     hr_status resp = StatusUnauthorized \<and> snd (px_world s') = 0"
proof -
  have run: "run_handler demo_env DeleteInstance (demo_request ''noauth_x'' []) demo_proxy =
      (Ret \<lparr>hr_status = StatusUnauthorized, hr_ContentType = ''application/json'',
            hr_body = ''can not authenticate request'' @ [CHR 10]\<rparr>, demo_proxy)"
    by (simp add: deleteInstance_def newHandlerUnwrapped_def go_bind_def newAuth_noauth respond_def)
  have "DeleteInstance \<in> creating_handlers \<union> deleting_handlers" by (simp add: deleting_handlers_def)
  from refused_writes_nothing [OF demo_quiet this run] run show ?thesis by simp
qed

end
