(* ===== verification/AuthSafety.thy ===== *)
theory AuthSafety
  imports HandlerInv Demo
begin

text \<open>
  Who is let through, and what for: the cache a request uses, the speakers that are refused,
  the speaker an address stands for, the extent of an authorization, and the claims that are
  believed without a check.
\<close>

section \<open>The cache of a request\<close>

text \<open>With at least one cache, and fewer than 2^32, getCache returns the number of an existing
  cache and changes nothing; the number depends on the auth field only, whatever the remote
  address.\<close>

theorem getCache_in_range:
  assumes "has_caches s"
  shows "\<exists>i < length (px_caches s). \<forall>remote. getCache remote auth s = (Ret i, s)"
  using cache_of_less [OF assms] getCache_eq [OF assms] by blast

theorem getCache_in_range_witness: "getCache ''10.0.0.1:150'' ''token'' demo_proxy = (Ret 0, demo_proxy)"
  using getCache_in_range [OF demo_has_caches, of "''token''"] by auto

section \<open>Refused speakers\<close>

definition strict_handlers :: "handler set" where
  "strict_handlers = {CreateInstance, CreateInstanceLegacy, CreateVMInstance, DeleteInstance, DeleteVMInstance,
     LazyDeleteInstance, CreateInstanceConfig, CreateInstanceKvConfig, CreateSelfConfig, CreateMembership, HandleOther}"

definition lenient_handlers :: "handler set" where
  "lenient_handlers = {CreateEndorsementLink, CreateEndorsement, HandleOtherNoAuth, HandleCheckInstance}"

lemmas handler_defs = createInstance_def createInstanceLegacy_def createVMInstance_def deleteInstance_def
  deleteVMInstance_def lazyDeleteInstance_def createInstanceConfig_def createInstanceKvConfig_def createSelfConfig_def
  createMembership_def handleOther_def createEndorsementLink_def createEndorsement_def handleOtherNoAuth_def
  handleCheckInstance_def

lemma strict_handler:
  assumes "h \<in> strict_handlers"
  obtains pre post where "run_handler E h r = go_bind (newHandlerUnwrapped E r pre post True) respond"
  using assms by (auto simp: strict_handlers_def handler_defs)

lemma lenient_handler:
  assumes "h \<in> lenient_handlers"
  obtains pre post where "run_handler E h r = go_bind (newHandlerUnwrapped E r pre post False) respond"
  using assms by (auto simp: lenient_handlers_def handler_defs)

lemma reading_handler:
  assumes "h \<in> strict_handlers \<union> lenient_handlers"
  obtains pre post b where "run_handler E h r = go_bind (newHandlerUnwrapped E r pre post b) respond"
proof (cases "h \<in> strict_handlers")
  case True
  then show ?thesis using that by (rule strict_handler)
next
  case False
  with assms have "h \<in> lenient_handlers" by simp
  then show ?thesis using that by (rule lenient_handler)
qed

lemma strict_refuses:
  assumes "h \<in> strict_handlers" and "newAuth E r True s = (Ret (None, st), s')" and "st \<noteq> StatusOK" and "100 \<le> st" "st \<le> 999"
  shows "run_handler E h r s =
    (Ret \<lparr>hr_status = st, hr_ContentType = ''application/json'', hr_body = ''can not authenticate request'' @ [CHR 10]\<rparr>, s')"
proof -
  obtain pre post where "run_handler E h r = go_bind (newHandlerUnwrapped E r pre post True) respond"
    using strict_handler [OF assms(1)] .
  then show ?thesis using assms(2-5) by (simp add: newHandlerUnwrapped_def go_bind_def respond_def)
qed

text \<open>A speaker whose name starts with noauth_ is answered 401 by every handler that
  authenticates its speaker, before any cache, Riak or SAFE is touched.\<close>

theorem noauth_speaker_refused:
  assumes "h \<in> strict_handlers" and "has_caches s" and "ReadRequest r = (Some mr0, StatusOK)"
    and "HasPrefix (mr_Principal mr0) NOAUTH_PREFIX"
  shows "run_handler E h r s =
    (Ret \<lparr>hr_status = StatusUnauthorized, hr_ContentType = ''application/json'',
          hr_body = ''can not authenticate request'' @ [CHR 10]\<rparr>, s)"
proof -
  have ne: "mr_Principal mr0 \<noteq> []" "mr_Principal mr0 \<noteq> IaaSProvider"
    using assms(4) by (auto simp: HasPrefix_def NOAUTH_PREFIX_def IaaSProvider_def)
  then have "newAuth E r True s = (Ret (None, StatusUnauthorized), s)"
    by (simp add: newAuth_opened [OF assms(3,2)] go_bind_def authenticate_noauth [OF assms(4)])
  from strict_refuses [OF assms(1) this] show ?thesis by simp
qed

theorem noauth_speaker_refused_witness:
  "hr_status (case run_handler demo_env CreateInstance (demo_request ''noauth_x'' []) demo_proxy of
     (Ret resp, _) \<Rightarrow> resp | (Panic, _) \<Rightarrow> \<lparr>hr_status = 0, hr_ContentType = [], hr_body = []\<rparr>) = StatusUnauthorized"
proof -
  have rd: "ReadRequest (demo_request ''noauth_x'' []) = (Some (demo_mr ''noauth_x'' []), StatusOK)"
    by (rule ReadRequest_demo) (simp_all add: ascii_def in_byte_def)
  have "CreateInstance \<in> strict_handlers" "HasPrefix (mr_Principal (demo_mr ''noauth_x'' [])) NOAUTH_PREFIX"
    by (simp_all add: strict_handlers_def HasPrefix_def NOAUTH_PREFIX_def)
  from noauth_speaker_refused [OF this(1) demo_has_caches rd this(2), of demo_env] show ?thesis by simp
qed

text \<open>C36: a body that cannot be read or is not JSON for a request makes every handler that reads
  one panic, instead of answering 400: the request is nil and a field of it is set.\<close>

theorem bad_body_panics:
  assumes "ReadRequest r = (None, st)" and "h \<in> strict_handlers \<union> lenient_handlers"
  shows "run_handler E h r s = (Panic, s)"
proof -
  obtain pre post b where run: "run_handler E h r = go_bind (newHandlerUnwrapped E r pre post b) respond"
    using reading_handler [OF assms(2)] .
  have "newAuth E r b s = (Panic, s)" by (simp add: newAuth_def assms(1))
  then show ?thesis unfolding run by (simp add: newHandlerUnwrapped_def go_bind_def)
qed

definition empty_body :: http_request where
  "empty_body = \<lparr>rq_Method = ''POST'', rq_RequestURI = ''/postInstance'', rq_RemoteAddr = ''10.0.0.1:150'',
     rq_Body = Some [], rq_Vars = Map.empty\<rparr>"

theorem bad_body_panics_witness: "run_handler demo_env CreateInstance empty_body demo_proxy = (Panic, demo_proxy)"
proof -
  have "ReadRequest empty_body = (None, StatusBadRequest)"
    by (simp add: ReadRequest_def empty_body_def dec_MetadataRequest_def dec_struct_def parse_json_def skip_ws_def
        numeral_2_eq_2)
  from bad_body_panics [OF this, of CreateInstance] show ?thesis by (simp add: strict_handlers_def)
qed

section \<open>Speakers by address\<close>

text \<open>C16: a speaker that names itself by an address and is let through speaks as the instance of
  the inner-most registered range of that address with that port: its id, parent, address and
  range replace what the request said.\<close>

theorem speaker_is_innermost:
  assumes "itree_ok (en_tree E)" and "caches_sound E s" and "conn_v4 (en_conn E)" and "has_caches s"
    and "ReadRequest r = (Some mr0, StatusOK)" and "mr_Principal mr0 \<noteq> IaaSProvider"
    and "ParseIPNew (mr_Principal mr0) = (ip, port, p2, StatusOK)" and "\<not> HasPrefix (mr_Principal mr0) NOAUTH_PREFIX"
    and "newAuth E r True s = (Ret (Some mr, st), s')"
  shows "\<exists>inst. innermost_instance (en_tree E) (px_caches s' ! cache_of s (mr_Auth mr0)) (IP_String ip) port inst \<and>
    mr_instance mr = Some inst \<and> mr_Principal mr = inst_pid inst \<and> mr_ParentBear mr = ic_PPid (ci_ID inst) \<and>
    mr_ip mr = ci_Ip inst \<and> mr_lport mr = ci_Lport inst \<and> mr_rport mr = ci_Rport inst"
proof -
  let ?i = "cache_of s (mr_Auth mr0)"
  have i: "?i < length (px_caches s)" by (rule cache_of_less [OF assms(4)])
  have ne: "mr_Principal mr0 \<noteq> []" using assms(7) ParseIPNew_no_colon [of "[]"] by auto
  have port: "is_goint (port + 1)" using ParseIPNew_OK [OF assms(7)] by (simp add: is_goint_def)
  have "\<exists>inst. authenticate E (opened s r mr0) (mr_Principal mr0) s = (Ret (Some inst, StatusOK), s') \<and>
      mr = as_instance (opened s r mr0) inst"
    by (rule newAuth_cases [OF assms(4,9)]) (use assms(5,6) ne in \<open>auto\<close>)
  then obtain inst where auth: "authenticate E (opened s r mr0) (mr_Principal mr0) s = (Ret (Some inst, StatusOK), s')"
    and mr: "mr = as_instance (opened s r mr0) inst" by blast
  let ?c = "\<lparr>cs_pmap = px_caches s ! ?i, cs_world = px_world s\<rparr>"
  have inv: "cache_inv (en_tree E) ?c" using assms(2) i by (auto simp: caches_sound_def cache_inv_def)
  obtain c where get: "GetInstanceFromNetMap (en_tree E) (en_conn E) ip port ?c = (Ret (Some inst, StatusOK), c)"
    and s': "px_caches s' = (px_caches s)[?i := cs_pmap c]"
    using auth assms(7,8) i
    by (auto simp: authenticate_def mr_with_cache_def with_cache_def elim!: go_bind_RetE split: prod.splits if_splits)
  have "innermost_instance (en_tree E) (cs_pmap c) (IP_String ip) port inst"
  proof (rule GetInstanceFromNetMap_spec [OF assms(1) inv port assms(3), of ip])
    fix res st t
    assume "GetInstanceFromNetMap (en_tree E) (en_conn E) ip port ?c = (Ret (res, st), t)"
      and "st = StatusOK \<Longrightarrow> \<exists>inst. res = Some inst \<and> innermost_instance (en_tree E) (cs_pmap t) (IP_String ip) port inst"
    with get show ?thesis by simp
  qed
  with s' i mr show ?thesis by (auto simp: as_instance_def)
qed

theorem speaker_is_innermost_witness:
  "\<exists>mr s'. newAuth demo_env (demo_request ''10.0.0.1:150'' []) True demo_proxy = (Ret (Some mr, StatusOK), s') \<and>
     mr_Principal mr = ''web'' \<and>
     innermost_instance list_tree (px_caches s' ! 0) (dotted 10 0 0 1) 150 (demo_instance 100 200 ''web'')"
proof -
  have rd: "ReadRequest (demo_request ''10.0.0.1:150'' []) = (Some (demo_mr ''10.0.0.1:150'' []), StatusOK)"
    by (rule ReadRequest_demo) (simp_all add: ascii_def in_byte_def)
  have ne: "mr_Principal (demo_mr ''10.0.0.1:150'' []) \<noteq> IaaSProvider" by (simp add: IaaSProvider_def)
  have p: "ParseIPNew (mr_Principal (demo_mr ''10.0.0.1:150'' [])) = (IPv4 10 0 0 1, 150, - 1, StatusOK)"
    "\<not> HasPrefix (mr_Principal (demo_mr ''10.0.0.1:150'' [])) NOAUTH_PREFIX"
    by (simp_all add: ParseIPNew_150 not_noauth_150)
  have "list_all ascii []" by simp
  note run = newAuth_150 [OF this]
  have T: "itree_ok (en_tree demo_env)" "conn_v4 (en_conn demo_env)" "caches_sound demo_env demo_proxy"
    by (simp_all add: caches_sound_def)
  from speaker_is_innermost [OF T(1,3,2) demo_has_caches rd ne p run] show ?thesis
    unfolding run by (auto simp: as_instance_def)
qed

section \<open>What an authorization covers\<close>

text \<open>C17: the target of a control request given as a range: a speaker that is an instance and no VM
  is authorized exactly when the address is its own and every port of the range is one of its
  own; otherwise the answer is 401. Nothing changes but the target of the request.\<close>

theorem range_target_exact:
  assumes "is_v4 ip" and "0 \<le> l" and "l \<le> r" and "r < 2 ^ 31"
    and "mr_Principal mr \<noteq> IaaSProvider" and "mr_instance mr = Some inst" and "ic_Type (ci_ID inst) \<noteq> VM_INSTANCE_TYPE"
  shows "authzControl E mr (addr_range_text ip l r) u s =
    (Ret (with_target mr ip l r,
       if IP_Equal (mr_ip mr) ip \<and> {l..r} \<subseteq> {mr_lport mr..mr_rport mr} then StatusOK else StatusUnauthorized), s)"
proof -
  have "ParseIPNew (addr_range_text ip l r) = (ip, l, r, StatusOK)"
    using assms(1-4) by (intro ParseIPNew_range_text) auto
  moreover have "{l..r} \<subseteq> {mr_lport mr..mr_rport mr} \<longleftrightarrow> mr_lport mr \<le> l \<and> r \<le> mr_rport mr"
    using assms(3) by auto
  moreover have "in_charge mr ip l r \<longleftrightarrow> IP_Equal (mr_ip mr) ip \<and> mr_lport mr \<le> l \<and> r \<le> mr_rport mr"
    using assms(5-7) by (auto simp: in_charge_def)
  ultimately show ?thesis by (simp add: authzControl_address authz_target_spec assms(6))
qed

abbreviation demo_speaker :: MetadataRequest where
  "demo_speaker \<equiv> as_instance (demo_mr ''web'' []) (demo_instance 100 200 ''web'')"

lemma demo_speaker_simps:
  "mr_Principal demo_speaker = ''web''" "mr_instance demo_speaker = Some (demo_instance 100 200 ''web'')"
  "mr_ip demo_speaker = IPv4 10 0 0 1" "mr_lport demo_speaker = 100" "mr_rport demo_speaker = 200"
  by (simp_all add: as_instance_def)

theorem range_target_exact_witness:
  "authzControl demo_env demo_speaker (addr_range_text (IPv4 10 0 0 1) 150 250) False demo_proxy =
     (Ret (with_target demo_speaker (IPv4 10 0 0 1) 150 250, StatusUnauthorized), demo_proxy)"
proof -
  have "mr_Principal demo_speaker \<noteq> IaaSProvider" by (simp add: demo_speaker_simps IaaSProvider_def)
  moreover have "ic_Type (ci_ID (demo_instance 100 200 ''web'')) \<noteq> VM_INSTANCE_TYPE"
    by (simp add: demo_instance_def NORMAL_INSTANCE_TYPE_def VM_INSTANCE_TYPE_def)
  ultimately show ?thesis
    using range_target_exact [of "IPv4 10 0 0 1" 150 250 demo_speaker, OF _ _ _ _ _ demo_speaker_simps(2)]
    by (simp add: demo_speaker_simps(3-5))
qed

text \<open>C33: a target given as an address with one port is parsed to a range that ends at -1, so only
  its start is checked against the end of the speaker's range: a speaker is authorized for any
  port of its address from its first port on, also beyond its last one.\<close>

theorem port_target_unbounded:
  assumes "is_v4 (mr_ip mr)" and "0 \<le> p" and "p < 2 ^ 31" and "mr_lport mr \<le> p" and "- 1 \<le> mr_rport mr"
    and "mr_instance mr = Some inst"
  shows "authzControl E mr (addr_port_text (mr_ip mr) p) u s = (Ret (with_target mr (mr_ip mr) p (- 1), StatusOK), s)"
proof -
  have "ParseIPNew (addr_port_text (mr_ip mr) p) = (mr_ip mr, p, - 1, StatusOK)"
    using assms by (intro ParseIPNew_port_text)
  moreover have "in_charge mr (mr_ip mr) p (- 1)" using assms by (simp add: in_charge_def)
  ultimately show ?thesis by (simp add: authzControl_address authz_target_spec assms(6))
qed

theorem port_target_unbounded_witness:
  "authzControl demo_env demo_speaker (addr_port_text (IPv4 10 0 0 1) 60000) False demo_proxy =
     (Ret (with_target demo_speaker (IPv4 10 0 0 1) 60000 (- 1), StatusOK), demo_proxy)"
  using port_target_unbounded [of demo_speaker 60000, OF _ _ _ _ _ demo_speaker_simps(2)]
  by (simp add: demo_speaker_simps(3-5))

text \<open>C35: whoever names the address of the provider in its request is the provider: the remote
  address is not looked at, no cache is asked, and any address is then authorized.\<close>

theorem provider_claim_believed:
  assumes "has_caches s" and "ReadRequest r = (Some mr0, StatusOK)" and "mr_Principal mr0 = IaaSProvider"
    and "ParseIPNew target = (ip, l, p, StatusOK)"
  shows "\<exists>mr. newAuth E r True s = (Ret (Some mr, StatusOK), s) \<and>
    authzControl E mr target False s = (Ret (with_target mr ip l p, StatusOK), s)"
proof -
  have ne: "mr_Principal mr0 \<noteq> []" using assms(3) by (simp add: IaaSProvider_def)
  let ?mr = "opened s r mr0"
  have "mr_Principal ?mr = IaaSProvider" using assms(3) ne by simp
  moreover from this have "newAuth E r True s = (Ret (Some ?mr, StatusOK), s)"
    by (simp only: newAuth_opened [OF assms(2,1)] Let_def if_True refl)
  ultimately show ?thesis
    by (intro exI [of _ ?mr]) (simp add: authzControl_address [OF assms(4)] authz_target_spec in_charge_def)
qed

theorem provider_claim_believed_witness:
  "\<exists>mr. newAuth demo_env (demo_request IaaSProvider []) True demo_proxy = (Ret (Some mr, StatusOK), demo_proxy) \<and>
    authzControl demo_env mr ''10.0.0.1:150'' False demo_proxy =
      (Ret (with_target mr (IPv4 10 0 0 1) 150 (- 1), StatusOK), demo_proxy)"
proof -
  have rd: "ReadRequest (demo_request IaaSProvider []) = (Some (demo_mr IaaSProvider []), StatusOK)"
    by (rule ReadRequest_demo) (simp_all add: ascii_def in_byte_def IaaSProvider_def)
  have "mr_Principal (demo_mr IaaSProvider []) = IaaSProvider" by simp
  from provider_claim_believed [OF demo_has_caches rd this ParseIPNew_150] show ?thesis .
qed

end
