(* ===== verification/HandlerSpec.thy ===== *)
theory HandlerSpec
  imports HandlerSafety AuthSafety
begin

text \<open>
  What the handlers of instances, membership and checks do when they succeed: an instance is
  only registered for a speaker in charge of its address, with the consent of SAFE, and is then
  known; names in a request are replaced by the ids they stand for.
\<close>

section \<open>Successful requests\<close>

text \<open>
  The documentation of http.Client.Do: a response beside an error only comes from a redirect
  that was refused, so its status is 3xx.
\<close>

definition do_documented :: "('t, 'w) env \<Rightarrow> bool" where
  "do_documented E \<longleftrightarrow> (\<forall>req w err code. fst (en_do E req w) = DoError err (Some code) \<longrightarrow> 300 \<le> code \<and> code < 400)"

definition out_of :: "('t, 'w) proxy \<Rightarrow> MetadataRequest \<Rightarrow> out_request" where
  "out_of s mr = \<lparr>or_Method = mr_method mr, or_Url = getUrl (px_addr s) (mr_url mr), or_Body = EncodingMetadataRequest mr\<rparr>"

lemma Encoding_with_target [simp]: "EncodingMetadataRequest (with_target mr ip l r) = EncodingMetadataRequest mr"
  by (simp add: EncodingMetadataRequest_def with_target_def)

lemma out_of_with_target [simp]: "out_of s (with_target mr ip l r) = out_of s mr"
  by (simp add: out_of_def)

lemma forward_OK:
  assumes "do_documented E" and "forward E mr post s = (Ret (msg, StatusOK), s')"
  obtains w dat code where "en_do E (out_of s mr) (px_world s) = (DoResponse code (Inr dat), w)"
    and "(case post of None \<Rightarrow> go_return (dat, code) | Some h \<Rightarrow> h mr dat code) (s\<lparr>px_world := w\<rparr>) = (Ret (msg, StatusOK), s')"
proof -
  obtain res w where d: "en_do E (out_of s mr) (px_world s) = (res, w)" by fastforce
  have "fst (en_do E (out_of s mr) (px_world s)) = DoError err (Some code) \<Longrightarrow> code \<noteq> StatusOK" for err code
    using assms(1) by (force simp: do_documented_def)
  then have "res \<noteq> DoError err (Some StatusOK)" for err using d by auto
  with assms(2) d that show ?thesis
    by (auto simp: forward_def out_of_def Let_def split: option.splits do_result.splits sum.splits)
qed

lemma respond_state: "respond ms s = (Ret resp, s') \<Longrightarrow> s' = s \<and> ms = (hr_body resp, hr_status resp)"
  by (auto simp: respond_def split: prod.splits if_splits)

text \<open>A handler that answers 200 has gone through all its stages.\<close>

lemma handler_OK:
  assumes "do_documented E"
    and "go_bind (newHandlerUnwrapped E r pre post b) respond s = (Ret resp, s')" and "hr_status resp = StatusOK"
  obtains mr s1 mr' m s2 w dat code where "newAuth E r b s = (Ret (Some mr, StatusOK), s1)"
    and "(case pre of Some h \<Rightarrow> h mr | None \<Rightarrow> go_return (mr, [], StatusOK)) s1 = (Ret (mr', m, StatusOK), s2)"
    and "en_do E (out_of s2 mr') (px_world s2) = (DoResponse code (Inr dat), w)"
    and "(case post of None \<Rightarrow> go_return (dat, code) | Some h \<Rightarrow> h mr' dat code) (s2\<lparr>px_world := w\<rparr>) =
      (Ret (hr_body resp, StatusOK), s')"
proof -
  from assms(2) obtain ms t where run: "newHandlerUnwrapped E r pre post b s = (Ret ms, t)" "respond ms t = (Ret resp, s')"
    by (rule go_bind_RetE)
  from respond_state [OF run(2)] assms(3) have run: "newHandlerUnwrapped E r pre post b s = (Ret (hr_body resp, StatusOK), s')"
    using run(1) by simp
  then obtain mr s1 where auth: "newAuth E r b s = (Ret (Some mr, StatusOK), s1)"
    and h: "newHandler E mr pre post s1 = (Ret (hr_body resp, StatusOK), s')"
    unfolding newHandlerUnwrapped_def by (auto elim!: go_bind_RetE split: if_splits option.splits)
  from h obtain mr' m s2 where p: "(case pre of Some h \<Rightarrow> h mr | None \<Rightarrow> go_return (mr, [], StatusOK)) s1 = (Ret (mr', m, StatusOK), s2)"
    and f: "forward E mr' post s2 = (Ret (hr_body resp, StatusOK), s')"
    unfolding newHandler_def by (auto elim!: go_bind_RetE split: if_splits)
  from forward_OK [OF assms(1) f] obtain w dat code where
    "en_do E (out_of s2 mr') (px_world s2) = (DoResponse code (Inr dat), w)"
    "(case post of None \<Rightarrow> go_return (dat, code) | Some h \<Rightarrow> h mr' dat code) (s2\<lparr>px_world := w\<rparr>) = (Ret (hr_body resp, StatusOK), s')"
    by blast
  with auth p show ?thesis by (rule that)
qed

lemma go_nth_Ret: "go_nth xs i s = (Ret x, s') \<Longrightarrow> s' = s \<and> i < length xs \<and> x = xs ! i"
  by (auto simp: go_nth_def split: option.splits)

lemma newAuth_shape:
  assumes "has_caches s" and "newAuth E r b s = (Ret (Some mr, st), s')"
  shows "mr_targetAddrIndex mr = 0 \<and> mr_targetType mr = NORMAL_INSTANCE_TYPE \<and> mr_targetCidr mr = None \<and>
    (\<exists>i < length (px_caches s). mr_cache mr = Some i)"
proof (cases rule: ReadRequest_cases [of r, case_names bad good])
  case bad
  then show ?thesis using assms(2) by (simp add: newAuth_def)
next
  case (good mr0)
  show ?thesis
    by (rule newAuth_cases [OF assms])
       (use good cache_of_less [OF assms(1)] in \<open>auto simp: as_instance_def\<close>)
qed

lemma preInstanceCallHandler_OK:
  assumes "preInstanceCallHandler E mr s = (Ret (mr', m, StatusOK), s')" and "mr_targetAddrIndex mr = 0"
  obtains ip l p where "2 < length (mr_vals mr)" "ParseIPNew (mr_vals mr ! 2) = (ip, l, p, StatusOK)"
    "mr' = with_target mr ip l p" "s' = s" "in_charge mr ip l p"
proof -
  from assms obtain target s0 where n: "go_nth (mr_vals mr) 2 s = (Ret target, s0)"
    and a: "authzControl E mr target False s0 = (Ret (mr', StatusOK), s')"
    by (auto simp: preInstanceCallHandler_def Let_def elim!: go_bind_RetE split: if_splits)
  from go_nth_Ret [OF n] have "s0 = s" "2 < length (mr_vals mr)" "target = mr_vals mr ! 2" by auto
  with authzControl_OK [OF a] that show ?thesis by metis
qed

section \<open>Registration\<close>

definition new_instance :: "MetadataRequest \<Rightarrow> IP \<Rightarrow> int \<Rightarrow> int \<Rightarrow> CachedInstance" where
  "new_instance mr ip l p =
     \<lparr>ci_Ip = ip, ci_Lport = l, ci_Rport = p,
      ci_ID = \<lparr>ic_Pid = mr_vals mr ! 0, ic_PPid = mr_Principal mr, ic_Cidr = mr_targetCidr mr, ic_Type = mr_targetType mr\<rparr>\<rparr>"

lemma with_cache_put:
  assumes "is_v4 (ci_Ip inst)" and "i < length (px_caches s)"
  obtains st cid w where "inst_cid inst = Some cid" "st = StatusOK \<or> st = StatusInternalServerError"
    "with_cache i (PutInstance T conn inst) s =
       (Ret st, s\<lparr>px_caches := (px_caches s)[i := put_result T inst cid (px_caches s ! i)], px_world := w\<rparr>)"
proof -
  obtain cid where cid: "inst_cid inst = Some cid" using inst_cid_v4 [OF assms(1)] by blast
  let ?c = "\<lparr>cs_pmap = px_caches s ! i, cs_world = px_world s\<rparr>"
  obtain st w where "PutInstance T conn inst ?c =
      (Ret st, ?c\<lparr>cs_pmap := put_result T inst cid (cs_pmap ?c), cs_world := w\<rparr>)"
    and "st = StatusOK \<or> st = StatusInternalServerError"
    using PutInstance_v4 [OF cid, of T conn ?c] by blast
  then show ?thesis using assms(2) cid by (intro that [of cid st w]) (simp_all add: with_cache_def)
qed

lemma postCreation_run:
  assumes "mr_cache mr = Some i" and "0 < length (mr_vals mr)"
    and "with_cache i (PutInstance (en_tree E) (en_conn E) (new_instance mr ip l p)) s = (Ret st, s')"
  shows "postInstanceCreationHandler E (with_target mr ip l p) dat StatusOK s =
    (Ret (done_message (mr_vals mr ! 0), StatusOK), s')"
  using assms
  by (simp add: postInstanceCreationHandler_def go_bind_def go_nth_def mr_with_cache_def Let_def new_instance_def)

lemma postCreation_OK:
  assumes "postInstanceCreationHandler E (with_target mr ip l p) dat code s = (Ret (msg, StatusOK), s')"
    and "mr_cache mr = Some i" and "i < length (px_caches s)" and "is_v4 ip"
  shows "code = StatusOK \<and> 0 < length (mr_vals mr) \<and> msg = done_message (mr_vals mr ! 0) \<and>
    pm_PidMap (px_caches s' ! i) (mr_vals mr ! 0) = Some (new_instance mr ip l p)"
proof (cases "code = StatusOK")
  case False
  then show ?thesis using assms(1) by (simp add: postInstanceCreationHandler_def)
next
  case True
  let ?inst = "new_instance mr ip l p"
  have v4: "is_v4 (ci_Ip ?inst)" using assms(4) by (simp add: new_instance_def)
  obtain st cid w where put: "with_cache i (PutInstance (en_tree E) (en_conn E) ?inst) s =
      (Ret st, s\<lparr>px_caches := (px_caches s)[i := put_result (en_tree E) ?inst cid (px_caches s ! i)], px_world := w\<rparr>)"
    by (rule with_cache_put [OF v4 assms(3), of "en_tree E" "en_conn E"])
  from assms(1) True have "0 < length (mr_vals mr)"
    by (cases "mr_vals mr") (auto simp: postInstanceCreationHandler_def go_nth_def go_bind_def)
  note run = postCreation_run [OF assms(2) this put, of dat]
  have "ic_Pid (ci_ID ?inst) = mr_vals mr ! 0" by (simp add: new_instance_def)
  with assms(1,3) True run \<open>0 < length (mr_vals mr)\<close> show ?thesis by auto
qed

text \<open>C1: createInstance answers 200 only if the speaker was authenticated, the address in the third
  parameter parses and the speaker is in charge of it, and SAFE answered the forwarded request
  with 200; and then the instance (its id the first parameter, its parent the speaker) is known
  in the cache of the request.\<close>

theorem create_authorized:
  assumes "do_documented E" and "has_caches s"
    and "run_handler E CreateInstance r s = (Ret resp, s')" and "hr_status resp = StatusOK"
  shows "\<exists>mr s1 ip l p i dat w.
    newAuth E r True s = (Ret (Some mr, StatusOK), s1) \<and>
    2 < length (mr_vals mr) \<and> ParseIPNew (mr_vals mr ! 2) = (ip, l, p, StatusOK) \<and> in_charge mr ip l p \<and>
    en_do E (out_of s1 mr) (px_world s1) = (DoResponse StatusOK (Inr dat), w) \<and>
    mr_cache mr = Some i \<and> i < length (px_caches s') \<and>
    pm_PidMap (px_caches s' ! i) (mr_vals mr ! 0) = Some (new_instance mr ip l p)"
proof -
  have run: "go_bind (newHandlerUnwrapped E r (Some (preInstanceCallHandler E)) (Some (postInstanceCreationHandler E)) True)
      respond s = (Ret resp, s')" using assms(3) by (simp add: createInstance_def)
  obtain mr s1 mr' m s2 w dat code where st: "newAuth E r True s = (Ret (Some mr, StatusOK), s1)"
    "preInstanceCallHandler E mr s1 = (Ret (mr', m, StatusOK), s2)"
    "en_do E (out_of s2 mr') (px_world s2) = (DoResponse code (Inr dat), w)"
    "postInstanceCreationHandler E mr' dat code (s2\<lparr>px_world := w\<rparr>) = (Ret (hr_body resp, StatusOK), s')"
    by (rule handler_OK [OF assms(1) run assms(4)]) (simp only: option.case)
  from newAuth_shape [OF assms(2) st(1)] obtain i where sh: "mr_targetAddrIndex mr = 0" "mr_cache mr = Some i"
    and i: "i < length (px_caches s)" by blast
  from preInstanceCallHandler_OK [OF st(2) sh(1)] obtain ip l p where t: "2 < length (mr_vals mr)"
    "ParseIPNew (mr_vals mr ! 2) = (ip, l, p, StatusOK)" "mr' = with_target mr ip l p" "s2 = s1" "in_charge mr ip l p" .
  have "same_frame s s" by (simp add: same_frame_def)
  from keepsD [OF frame.newAuth_keeps this st(1)] i have i1: "i < length (px_caches (s1\<lparr>px_world := w\<rparr>))"
    by (simp add: same_frame_def)
  have "same_frame s s" by (simp add: same_frame_def)
  from keepsD [OF frame.creator_keeps this assms(3)] i have i': "i < length (px_caches s')" by (simp add: same_frame_def)
  have "is_v4 ip" using ParseIPNew_OK [OF t(2)] by simp
  from postCreation_OK [OF st(4) [unfolded t(3,4)] sh(2) i1 this] st(1,3) t sh i' show ?thesis by auto
qed

text \<open>A creation by the instance web, inside its own range.\<close>

abbreviation demo_vals :: "string list" where
  "demo_vals \<equiv> [''app'', ''x'', ''10.0.0.1:110-130'']"

lemma ParseIPNew_110_130: "ParseIPNew ''10.0.0.1:110-130'' = (IPv4 10 0 0 1, 110, 130, StatusOK)"
proof -
  have "addr_range_text (IPv4 10 0 0 1) 110 130 = ''10.0.0.1:110-130''"
    by (simp add: addr_range_text_def dotted_def int_dec_def nat_dec.simps digit_char_def char_of_def bit_iff_odd)
  then show ?thesis using ParseIPNew_range_text [of "IPv4 10 0 0 1" 110 130] by simp
qed

lemma demo_vals_ascii: "list_all ascii demo_vals"
  by (simp add: ascii_def in_byte_def)

lemma demo_create_OK:
  "\<exists>resp s'. run_handler demo_env CreateInstance (demo_request ''web'' demo_vals) demo_proxy = (Ret resp, s') \<and>
     hr_status resp = StatusOK"
proof -
  let ?mr = "as_instance (opened demo_proxy (demo_request ''web'' demo_vals) (demo_mr ''web'' demo_vals))
      (demo_instance 100 200 ''web'')"
  have fields: "mr_Principal ?mr = ''web''" "mr_instance ?mr = Some (demo_instance 100 200 ''web'')"
    "mr_ip ?mr = IPv4 10 0 0 1" "mr_lport ?mr = 100" "mr_rport ?mr = 200" "mr_vals ?mr = demo_vals"
    "mr_cache ?mr = Some 0" "mr_targetAddrIndex ?mr = 0"
    by (simp_all add: as_instance_def mr_vals_def)
  have "in_charge ?mr (IPv4 10 0 0 1) 110 130" using fields by (simp add: in_charge_def)
  then have authz: "authzControl demo_env ?mr ''10.0.0.1:110-130'' False s =
      (Ret (with_target ?mr (IPv4 10 0 0 1) 110 130, StatusOK), s)" for s
    by (simp add: authzControl_address [OF ParseIPNew_110_130] authz_target_spec fields(2))
  have pre: "preInstanceCallHandler demo_env ?mr demo_proxy =
      (Ret (with_target ?mr (IPv4 10 0 0 1) 110 130, [], StatusOK), demo_proxy)"
    by (simp add: preInstanceCallHandler_def go_bind_def go_nth_def fields(6,8) authz)
  let ?inst = "new_instance ?mr (IPv4 10 0 0 1) 110 130"
  have v4: "is_v4 (ci_Ip ?inst)" by (simp add: new_instance_def)
  have i: "0 < length (px_caches (demo_proxy\<lparr>px_world := w\<rparr>))" for w by simp
  have len: "0 < length (mr_vals ?mr)" by (simp add: fields(6))
  have "\<exists>s'. postInstanceCreationHandler demo_env (with_target ?mr (IPv4 10 0 0 1) 110 130) dat StatusOK
      (demo_proxy\<lparr>px_world := w\<rparr>) = (Ret (done_message ''app'', StatusOK), s')" for w dat
  proof -
    obtain st s' where "with_cache 0 (PutInstance (en_tree demo_env) (en_conn demo_env) ?inst) (demo_proxy\<lparr>px_world := w\<rparr>) = (Ret st, s')"
      by (rule with_cache_put [OF v4 i, of "en_tree demo_env" "en_conn demo_env"]) blast
    from postCreation_run [OF fields(7) len this, of dat] show ?thesis unfolding fields(6) nth_Cons_0 by blast
  qed
  then obtain s' where "forward demo_env (with_target ?mr (IPv4 10 0 0 1) 110 130) (Some (postInstanceCreationHandler demo_env)) demo_proxy =
      (Ret (done_message ''app'', StatusOK), s')"
    by (fastforce simp: forward_def)
  then show ?thesis
    by (simp add: createInstance_def newHandlerUnwrapped_def newHandler_def go_bind_def newAuth_web [OF demo_vals_ascii] pre respond_def)
qed

theorem create_authorized_witness:
  "\<exists>resp s' inst i. run_handler demo_env CreateInstance (demo_request ''web'' demo_vals) demo_proxy = (Ret resp, s') \<and>
     hr_status resp = StatusOK \<and> i < length (px_caches s') \<and> (\<exists>pid. pm_PidMap (px_caches s' ! i) pid = Some inst)"
proof -
  obtain resp s' where run: "run_handler demo_env CreateInstance (demo_request ''web'' demo_vals) demo_proxy = (Ret resp, s')"
    "hr_status resp = StatusOK" using demo_create_OK by blast
  have "do_documented demo_env" by (simp add: do_documented_def)
  from create_authorized [OF this demo_has_caches run] run show ?thesis by blast
qed

end
