(* ===== verification/ConfigSpec.thy ===== *)
theory ConfigSpec
  imports HandlerSpec
begin

text \<open>
  What the configuration handlers send to SAFE: every value exactly once and in order, in
  requests of at most five pairs, and only for the parent of an instance.
\<close>

section \<open>Sequences of requests\<close>

text \<open>A sequence of requests SAFE answers with 200 and a readable body, and the world after it.\<close>

fun do_all :: "('t, 'w) env \<Rightarrow> out_request list \<Rightarrow> 'w \<Rightarrow> 'w option" where
  "do_all E [] w = Some w"
| "do_all E (q # qs) w =
     (case en_do E q w of
        (DoResponse code (Inr dat), w') \<Rightarrow> if code = StatusOK then do_all E qs w' else None
      | _ \<Rightarrow> None)"

lemma do_all_Cons_Some:
  "do_all E (q # qs) w = Some w2 \<Longrightarrow>
   \<exists>dat w1. en_do E q w = (DoResponse StatusOK (Inr dat), w1) \<and> do_all E qs w1 = Some w2"
  by (auto split: prod.splits do_result.splits sum.splits if_splits)

text \<open>The request of a chunk of values for an instance, and the last one.\<close>

definition chunk_request :: "('t, 'w) proxy \<Rightarrow> MetadataRequest \<Rightarrow> string \<Rightarrow> string list \<Rightarrow> out_request" where
  "chunk_request s mr name vals = out_of s (copy_request mr (name # vals) ''/postInstanceConfig5'')"

definition last_request :: "('t, 'w) proxy \<Rightarrow> MetadataRequest \<Rightarrow> string \<Rightarrow> string \<Rightarrow> string list \<Rightarrow> out_request" where
  "last_request s mr base name vals =
     out_of s (mr\<lparr>mr_OtherValues := Some (name # vals), mr_method := ''POST'', mr_url := base @ nat_dec (length vals div 2)\<rparr>)"

lemma out_of_world [simp]: "out_of (s\<lparr>px_world := w\<rparr>) mr = out_of s mr"
  by (simp add: out_of_def)

lemma chunk_request_frame [simp]:
  "chunk_request (s\<lparr>px_world := w\<rparr>) mr n = chunk_request s mr n"
  "chunk_request s (mr\<lparr>mr_OtherValues := v\<rparr>) n = chunk_request s mr n"
  by (rule ext, simp add: chunk_request_def copy_request_def out_of_def)+

lemma forward_sent:
  assumes "\<forall>m u. en_newreq E m u = None" and "en_do E (out_of s mr) (px_world s) = (DoResponse code (Inr dat), w)"
  shows "forward E mr None s = (Ret (dat, code), s\<lparr>px_world := w\<rparr>)"
  using assms by (simp add: forward_def out_of_def Let_def)

lemma newHandler_sent:
  assumes "\<forall>m u. en_newreq E m u = None" and "en_do E (out_of s mr) (px_world s) = (DoResponse code (Inr dat), w)"
  shows "newHandler E mr None None s = (Ret (dat, code), s\<lparr>px_world := w\<rparr>)"
  by (simp add: newHandler_def go_bind_def forward_sent [OF assms])

section \<open>Chunks\<close>

lemma post_chunks_sends:
  assumes "\<forall>m u. en_newreq E m u = None" and "mr_vals mr = name # pre @ concat cs @ rest"
    and "\<forall>c \<in> set cs. length c = 10" and "length rest \<le> 10" and "cs \<noteq> [] \<longrightarrow> rest \<noteq> []"
    and "do_all E (map (chunk_request s mr name) cs) (px_world s) = Some w"
  shows "post_chunks E mr (Suc (length pre)) (length (concat cs @ rest)) s =
    (Ret (Inr (Suc (length (pre @ concat cs)), length rest)), s\<lparr>px_world := w\<rparr>)"
  using assms(2-)
proof (induction cs arbitrary: pre s)
  case Nil
  then show ?case by (simp add: post_chunks.simps)
next
  case (Cons c cs)
  let ?q = "chunk_request s mr name c"
  from Cons.prems(5) obtain dat w1 where sent: "en_do E ?q (px_world s) = (DoResponse StatusOK (Inr dat), w1)"
    and more: "do_all E (map (chunk_request s mr name) cs) w1 = Some w"
    by (auto dest!: do_all_Cons_Some simp del: do_all.simps)
  have len: "length c = 10" "rest \<noteq> []" using Cons.prems(2,4) by auto
  have "concat cs @ rest \<noteq> []" using len(2) by simp
  then have big: "10 < length (concat (c # cs) @ rest)" using len by (cases "concat cs @ rest") auto
  have ten: "take 10 (drop (Suc (length pre)) (mr_vals mr)) = c" using Cons.prems(1) len by simp
  have enough: "Suc (length pre) + 10 \<le> length (mr_vals mr)" using Cons.prems(1) len by simp
  have run: "newHandler E (copy_request mr (name # c) ''/postInstanceConfig5'') None None s =
      (Ret (dat, StatusOK), s\<lparr>px_world := w1\<rparr>)"
    by (rule newHandler_sent [OF assms(1)]) (use sent in \<open>simp add: chunk_request_def\<close>)
  have IH: "post_chunks E mr (Suc (length (pre @ c))) (length (concat cs @ rest)) (s\<lparr>px_world := w1\<rparr>) =
      (Ret (Inr (Suc (length ((pre @ c) @ concat cs)), length rest)), s\<lparr>px_world := w1\<rparr>\<lparr>px_world := w\<rparr>)"
  proof (rule Cons.IH)
    show "cs \<noteq> [] \<longrightarrow> rest \<noteq> []" using len(2) by blast
    show "do_all E (map (chunk_request (s\<lparr>px_world := w1\<rparr>) mr name) cs) (px_world (s\<lparr>px_world := w1\<rparr>)) = Some w"
      using more by simp
  qed (use Cons.prems in simp_all)
  have "go_nth (mr_vals mr) 0 s = (Ret name, s)" using Cons.prems(1) by (simp add: go_nth_def)
  then have "post_chunks E mr (Suc (length pre)) (length (concat (c # cs) @ rest)) s =
      post_chunks E mr (Suc (length pre) + 10) (length (concat (c # cs) @ rest) - 10) (s\<lparr>px_world := w1\<rparr>)"
    using big enough by (subst post_chunks.simps) (simp add: ten go_bind_def run)
  then show ?case using IH len by (simp add: add.commute)
qed

text \<open>The hook of both configuration handlers, and the request that follows it.\<close>

lemma post_config_sends:
  assumes "\<forall>m u. en_newreq E m u = None" and "mr_vals mr = name # concat cs @ rest"
    and "\<forall>c \<in> set cs. length c = 10" and "length rest \<le> 10" and "cs \<noteq> [] \<longrightarrow> rest \<noteq> []"
    and "do_all E (map (chunk_request s mr name) cs) (px_world s) = Some w"
  shows "post_config E base mr s =
    (Ret (mr\<lparr>mr_OtherValues := Some (name # rest), mr_method := ''POST'', mr_url := base mr @ nat_dec (length rest div 2)\<rparr>,
       [], StatusOK), s\<lparr>px_world := w\<rparr>)"
  using post_chunks_sends [where pre = "[]", OF assms(1) _ assms(3-6)] assms(2)
  by (simp add: post_config_def go_bind_def)

lemma do_all_append:
  "do_all E (qs @ [q]) w = Some w2 \<Longrightarrow>
   \<exists>w1 dat. do_all E qs w = Some w1 \<and> en_do E q w1 = (DoResponse StatusOK (Inr dat), w2)"
  by (induction qs arbitrary: w) (auto split: prod.splits do_result.splits sum.splits if_splits)

text \<open>C20: createSelfConfig sends every value once and in order. When SAFE accepts them, the requests
  sent are, in this order: one with the name of the speaker and ten values to postInstanceConfig5
  for every full chunk, and then one with the name and the rest, at least one and at most ten of
  them, to the method for that number of pairs; the answer is 200. Any list of values splits in
  this way, so the loop ends with all values sent, however many there are.\<close>

theorem self_config_sends_all:
  assumes "\<forall>m u. en_newreq E m u = None" and "mr_vals mr = concat cs @ rest"
    and "\<forall>c \<in> set cs. length c = 10" and "length rest \<le> 10" and "cs \<noteq> [] \<longrightarrow> rest \<noteq> []"
    and "do_all E (map (chunk_request s mr (mr_Principal mr)) cs @
        [last_request s mr ''/postInstanceConfig'' (mr_Principal mr) rest]) (px_world s) = Some w"
  shows "\<exists>msg. newHandler E mr (Some (preSelfConfig E)) None s = (Ret (msg, StatusOK), s\<lparr>px_world := w\<rparr>)"
proof -
  let ?mr = "mr\<lparr>mr_OtherValues := Some (mr_Principal mr # mr_vals mr)\<rparr>"
  let ?last = "?mr\<lparr>mr_OtherValues := Some (mr_Principal mr # rest), mr_method := ''POST'',
      mr_url := ''/postInstanceConfig'' @ nat_dec (length rest div 2)\<rparr>"
  obtain w1 dat where chunks: "do_all E (map (chunk_request s mr (mr_Principal mr)) cs) (px_world s) = Some w1"
    and l: "en_do E (last_request s mr ''/postInstanceConfig'' (mr_Principal mr) rest) w1 = (DoResponse StatusOK (Inr dat), w)"
    using do_all_append [OF assms(6)] by blast
  have "preSelfConfig E mr s = (Ret (?last, [], StatusOK), s\<lparr>px_world := w1\<rparr>)"
    unfolding preSelfConfig_def
    by (rule post_config_sends [OF assms(1) _ assms(3-5)]) (use assms(2) chunks in \<open>simp_all\<close>)
  moreover have "forward E ?last None (s\<lparr>px_world := w1\<rparr>) = (Ret (dat, StatusOK), s\<lparr>px_world := w1\<rparr>\<lparr>px_world := w\<rparr>)"
    by (rule forward_sent [OF assms(1)]) (use l in \<open>simp add: last_request_def\<close>)
  ultimately show ?thesis by (simp add: newHandler_def go_bind_def)
qed

lemma do_all_demo: "do_all demo_env qs w = Some (fst w @ qs, snd w)"
  by (induction qs arbitrary: w) simp_all

theorem self_config_sends_all_witness:
  "\<exists>msg. newHandler demo_env (demo_mr ''web'' (replicate 24 ''v'')) (Some (preSelfConfig demo_env)) None demo_proxy =
     (Ret (msg, StatusOK), demo_proxy\<lparr>px_world :=
        (replicate 2 (chunk_request demo_proxy (demo_mr ''web'' (replicate 24 ''v'')) ''web'' (replicate 10 ''v'')) @
         [last_request demo_proxy (demo_mr ''web'' (replicate 24 ''v'')) ''/postInstanceConfig'' ''web'' (replicate 4 ''v'')], 0)\<rparr>)"
proof -
  have vals: "mr_vals (demo_mr ''web'' (replicate 24 ''v'')) = concat (replicate 2 (replicate 10 ''v'')) @ replicate 4 ''v''"
    by (simp add: numeral_eq_Suc)
  have "\<forall>m u. en_newreq demo_env m u = None" by simp
  from self_config_sends_all [OF this vals, of demo_proxy] show ?thesis
    by (simp add: do_all_demo numeral_2_eq_2)
qed

section \<open>Configurations of another instance\<close>

text \<open>The handlers whose pre hook is \<open>parent_only\<close>; they are the only ones with this check.\<close>

definition parent_handlers :: "handler set" where
  "parent_handlers = {CreateInstanceConfig, CreateInstanceKvConfig}"

lemma parent_handler:
  assumes "h \<in> parent_handlers"
  obtains rest where "run_handler E h r = go_bind (newHandlerUnwrapped E r (Some (parent_only E rest)) None True) respond"
  using assms
  by (auto simp: parent_handlers_def createInstanceConfig_def createInstanceKvConfig_def preInstanceConfig_def
      preInstanceKvConfig_def)

text \<open>A value the outside world shows, unless the speaker is found to be the parent.\<close>

lemma parent_only_silent:
  assumes "unseen E view" and "parent_only E rest mr s = (out, s')" and "view (px_world s') \<noteq> view (px_world s) \<or> (\<exists>mr' m. out = Ret (mr', m, StatusOK))"
  obtains inst s1 where "0 < length (mr_vals mr)" "authenticate E mr (mr_vals mr ! 0) s = (Ret (Some inst, StatusOK), s1)"
    "ic_PPid (ci_ID inst) = mr_Principal mr"
proof -
  obtain x s1 where a: "authenticate E mr (mr_vals mr ! 0) s = (x, s1)" by fastforce
  have "view (px_world s1) = view (px_world s)"
    using keepsD [OF unseen_world.authenticate_keeps [where v = "view (px_world s)"] _ a] assms(1) by simp
  then show ?thesis
    using assms(2,3) a that
    by (cases "mr_vals mr")
       (auto simp: parent_only_def go_nth_def go_bind_def split: outcome.splits prod.splits if_splits option.splits)
qed

text \<open>C19: the check of createInstanceConfig and createInstanceKvConfig (the routes postInstanceConfig
  and postInstanceKV). If a request to one of these two handlers changes what SAFE sees, or is
  answered 200, then the speaker was authenticated, the first value was authenticated as an instance,
  and the parent of that instance is the speaker. Other routes have no such check, see
  \<open>config_check_bypassed\<close>.\<close>

theorem config_only_by_parent:
  assumes "unseen E view" and "h \<in> parent_handlers" and "run_handler E h r s = (out, s')"
    and "view (px_world s') \<noteq> view (px_world s) \<or> (\<exists>resp. out = Ret resp \<and> hr_status resp = StatusOK)"
  shows "\<exists>mr s1 inst s2. newAuth E r True s = (Ret (Some mr, StatusOK), s1) \<and> 0 < length (mr_vals mr) \<and>
    authenticate E mr (mr_vals mr ! 0) s1 = (Ret (Some inst, StatusOK), s2) \<and> ic_PPid (ci_ID inst) = mr_Principal mr"
proof -
  obtain rest where run: "run_handler E h r = go_bind (newHandlerUnwrapped E r (Some (parent_only E rest)) None True) respond"
    using parent_handler [OF assms(2)] .
  obtain x s1 where auth: "newAuth E r True s = (x, s1)" by fastforce
  have same: "view (px_world s1) = view (px_world s)"
    using keepsD [OF unseen_world.newAuth_keeps [where v = "view (px_world s)"] _ auth] assms(1) by simp
  obtain out1 t where u: "newHandlerUnwrapped E r (Some (parent_only E rest)) None True s = (out1, t)" by fastforce
  have resp: "s' = t" "(\<exists>resp. out = Ret resp \<and> hr_status resp = StatusOK) \<Longrightarrow> \<exists>m. out1 = Ret (m, StatusOK)"
    using assms(3) u unfolding run
    by (auto simp: go_bind_def respond_def split: outcome.splits prod.splits if_splits)
  from assms(4) resp have seen: "view (px_world t) \<noteq> view (px_world s1) \<or> (\<exists>m. out1 = Ret (m, StatusOK))"
    using same by auto
  then obtain mr where mr: "x = Ret (Some mr, StatusOK)" and h: "newHandler E mr (Some (parent_only E rest)) None s1 = (out1, t)"
    using u auth unfolding newHandlerUnwrapped_def
    by (auto simp: go_bind_def split: outcome.splits prod.splits if_splits option.splits)
  obtain out2 s2 where p: "parent_only E rest mr s1 = (out2, s2)" by fastforce
  have "view (px_world s2) \<noteq> view (px_world s1) \<or> (\<exists>mr' m. out2 = Ret (mr', m, StatusOK))"
    using seen h p unfolding newHandler_def
    by (auto simp: go_bind_def split: outcome.splits prod.splits if_splits)
  from parent_only_silent [OF assms(1) p this] obtain inst s3 where
    "0 < length (mr_vals mr)" "authenticate E mr (mr_vals mr ! 0) s1 = (Ret (Some inst, StatusOK), s3)"
    "ic_PPid (ci_ID inst) = mr_Principal mr" .
  with auth mr show ?thesis by blast
qed

text \<open>The parent of web publishes a configuration for it.\<close>

theorem config_only_by_parent_witness:
  "\<exists>mr s1 inst s2. newAuth demo_env (demo_request ''host'' [''web'', ''k'', ''v'']) True demo_family = (Ret (Some mr, StatusOK), s1) \<and>
     authenticate demo_env mr (mr_vals mr ! 0) s1 = (Ret (Some inst, StatusOK), s2) \<and> ic_PPid (ci_ID inst) = mr_Principal mr"
proof -
  let ?r = "demo_request ''host'' [''web'', ''k'', ''v'']"
  let ?mr = "speaks_as ''host'' [''web'', ''k'', ''v''] (demo_instance 1 1000 ''host'')"
  have auth: "newAuth demo_env ?r True demo_family = (Ret (Some ?mr, StatusOK), demo_family)"
    by (rule newAuth_family) (simp_all add: ascii_def in_byte_def)
  have "authenticate demo_env ?mr ''web'' demo_family = (Ret (Some (demo_instance 100 200 ''web''), StatusOK), demo_family)"
    by (rule authenticate_known [where i = 0]) simp_all
  moreover have "ic_PPid (ci_ID (demo_instance 100 200 ''web'')) = ''host''" by (simp add: demo_instance_def)
  ultimately have pre: "preInstanceConfig demo_env ?mr demo_family = post_config demo_env mr_url (set_val ?mr 0 ''web'') demo_family"
    by (simp add: preInstanceConfig_def parent_only_def go_bind_def go_nth_def)
  have "\<forall>m u. en_newreq demo_env m u = None" by simp
  from post_config_sends [OF this, of "set_val ?mr 0 ''web''" "''web''" "[]" "[''k'', ''v'']" demo_family _ mr_url]
  obtain mr' where "preInstanceConfig demo_env ?mr demo_family = (Ret (mr', [], StatusOK), demo_family\<lparr>px_world := ([], 0)\<rparr>)"
    unfolding pre by (simp add: set_val_def)
  then obtain resp s' where run: "run_handler demo_env CreateInstanceConfig ?r demo_family = (Ret resp, s')"
    "hr_status resp = StatusOK"
    by (simp add: createInstanceConfig_def newHandlerUnwrapped_def go_bind_def auth newHandler_def forward_def Let_def respond_def)
  have "unseen demo_env fst" "CreateInstanceConfig \<in> parent_handlers" by (simp_all add: unseen_def parent_handlers_def)
  from config_only_by_parent [OF this run(1)] run(2) show ?thesis by blast
qed

section \<open>Key-value lists\<close>

lemma kv_pairs_exact:
  "kv_pairs (pre @ concat (map (\<lambda>(k, v). [k, v]) kvs)) (length pre) = Some (map (\<lambda>(k, v). kv_text k v) kvs)"
proof (induction kvs arbitrary: pre)
  case Nil
  then show ?case by (simp add: kv_pairs.simps)
next
  case (Cons kv kvs)
  obtain k v where kv: "kv = (k, v)" by (cases kv)
  from Cons.IH [of "pre @ [k, v]"] show ?case
    by (subst kv_pairs.simps) (simp add: kv nth_append)
qed

text \<open>C29: createInstanceKvConfig with a name and at least one key and value posts one request to
  postInstanceConfig1 with the list of all pairs as one value, in order; and then, since the hook
  leaves the request to be forwarded, sends the original request too, with the first key
  overwritten by that list (the append into the slice of its own values), to the url it came by.\<close>

theorem kv_config_sends_twice:
  assumes "\<forall>m u. en_newreq E m u = None" and "kvs \<noteq> []"
    and "mr_vals mr = [pid, name] @ concat (map (\<lambda>(k, v). [k, v]) kvs)"
    and "text = kv_list (map (\<lambda>(k, v). kv_text k v) kvs)"
    and "do_all E [out_of s (copy_request mr [pid, name, text] ''/postInstanceConfig1''), out_of s (set_val mr 2 text)]
      (px_world s) = Some w"
  shows "\<exists>msg. newHandler E mr (Some (postKvConfig E inst)) None s = (Ret (msg, StatusOK), s\<lparr>px_world := w\<rparr>)"
proof -
  have len: "length (concat (map (\<lambda>(k, v). [k, v]) xs)) = 2 * length xs" for xs :: "(string \<times> string) list"
    by (induction xs) auto
  obtain n where n: "length kvs = Suc n" using assms(2) by (cases kvs) auto
  have vals: "length (mr_vals mr) - Suc 0 = 2 * n + 3" "take 2 (mr_vals mr) = [pid, name]"
    using n by (simp_all add: assms(3) len)
  have pairs: "kv_pairs (mr_vals mr) 2 = Some (map (\<lambda>(k, v). kv_text k v) kvs)"
    using kv_pairs_exact [of "[pid, name]" kvs] by (simp add: assms(3) numeral_2_eq_2)
  let ?mr = "set_val mr 2 text"
  have copy: "copy_request ?mr args url = copy_request mr args url" for args url
    by (simp add: copy_request_def set_val_def)
  from assms(5) obtain d1 w1 d2 where
    q1: "en_do E (out_of s (copy_request mr [pid, name, text] ''/postInstanceConfig1'')) (px_world s) = (DoResponse StatusOK (Inr d1), w1)"
    and q2: "en_do E (out_of s ?mr) w1 = (DoResponse StatusOK (Inr d2), w)"
    by (auto dest!: do_all_Cons_Some simp del: do_all.simps(2))
  have "postKvConfig E inst mr s = (Ret (?mr, [], StatusOK), s\<lparr>px_world := w1\<rparr>)"
    using newHandler_sent [OF assms(1) q1]
    by (simp add: postKvConfig_def vals pairs assms(4) [symmetric] copy go_bind_def Let_def)
  moreover have "forward E ?mr None (s\<lparr>px_world := w1\<rparr>) = (Ret (d2, StatusOK), s\<lparr>px_world := w1\<rparr>\<lparr>px_world := w\<rparr>)"
    by (rule forward_sent [OF assms(1)]) (use q2 in simp)
  ultimately show ?thesis by (simp add: newHandler_def go_bind_def)
qed

theorem kv_config_sends_twice_witness:
  "\<exists>msg. newHandler demo_env (demo_mr ''host'' [''web'', ''conf'', ''a'', ''1''])
      (Some (postKvConfig demo_env (demo_instance 100 200 ''web''))) None demo_proxy =
     (Ret (msg, StatusOK), demo_proxy\<lparr>px_world :=
        ([out_of demo_proxy (copy_request (demo_mr ''host'' [''web'', ''conf'', ''a'', ''1''])
            [''web'', ''conf'', kv_list [kv_text ''a'' ''1'']] ''/postInstanceConfig1''),
          out_of demo_proxy (set_val (demo_mr ''host'' [''web'', ''conf'', ''a'', ''1'']) 2 (kv_list [kv_text ''a'' ''1'']))], 0)\<rparr>)"
proof -
  have "\<forall>m u. en_newreq demo_env m u = None" by simp
  from kv_config_sends_twice [OF this, of "[(''a'', ''1'')]" "demo_mr ''host'' [''web'', ''conf'', ''a'', ''1'']" "''web''" "''conf''" _
      demo_proxy] show ?thesis
    by (simp add: do_all_demo del: do_all.simps)
qed

section \<open>Configurations without a check\<close>

text \<open>The methods of SAFE that createInstanceConfig sends to, which are routes of the proxy as well.\<close>

definition numbered_configs :: "string list" where
  "numbered_configs =
     [''/postInstanceConfig1'', ''/postInstanceConfig2'', ''/postInstanceConfig3'', ''/postInstanceConfig4'',
      ''/postInstanceConfig5'', ''/postInstanceConfigList'']"

lemma numbered_routes: "m \<in> set numbered_configs \<Longrightarrow> route m = Some HandleOther"
proof -
  have "list_all (\<lambda>m. route m = Some HandleOther) numbered_configs" by code_simp
  then show "m \<in> set numbered_configs \<Longrightarrow> route m = Some HandleOther" by (simp add: list_all_iff)
qed

lemma newAuth_target:
  assumes "has_caches s" and "newAuth E r b s = (Ret (Some mr, StatusOK), s')"
  shows "mr_url mr = rq_RequestURI r"
  by (rule newAuth_cases [OF assms]) (simp_all add: as_instance_def)

lemma parent_only_refuses:
  assumes "mr_vals mr = pid # rest" and "plain_name pid" and "mr_cache mr = Some i" and "known_in s i pid inst"
    and "ic_PPid (ci_ID inst) \<noteq> mr_Principal mr"
  shows "\<exists>msg. parent_only E f mr s = (Ret (mr, msg, StatusUnauthorized), s)"
  using assms authenticate_known [OF assms(2-4), of E]
  by (simp add: parent_only_def go_bind_def go_nth_def)

text \<open>C34: the check of the parent is bypassed by the routes postInstanceConfig1 to postInstanceConfig5
  and postInstanceConfigList, the very methods of SAFE that createInstanceConfig sends to. For an
  instance whose parent is not the speaker createInstanceConfig answers 401 and SAFE hears nothing;
  the same request under one of these paths goes to handleOther, which sends it to the method of
  SAFE of that name, in the name of the speaker, and answers what SAFE answers.\<close>

theorem config_check_bypassed:
  assumes "has_caches s" and "\<forall>m u. en_newreq E m u = None"
    and "newAuth E r True s = (Ret (Some mr, StatusOK), s1)" and "mr_vals mr = pid # rest" and "plain_name pid"
    and "mr_cache mr = Some i" and "known_in s1 i pid inst" and "ic_PPid (ci_ID inst) \<noteq> mr_Principal mr"
    and "rq_RequestURI r \<in> set numbered_configs"
    and "en_do E \<lparr>or_Method = mr_method mr, or_Url = getUrl (px_addr s1) (rq_RequestURI r),
           or_Body = EncodingMetadataRequest mr\<rparr> (px_world s1) = (DoResponse code (Inr dat), w)"
    and "100 \<le> code" and "code \<le> 999"
  shows "(\<exists>msg. run_handler E CreateInstanceConfig r s =
      (Ret \<lparr>hr_status = StatusUnauthorized, hr_ContentType = ''application/json'', hr_body = msg\<rparr>, s1)) \<and>
    route (rq_RequestURI r) = Some HandleOther \<and>
    run_handler E HandleOther r s =
      (Ret \<lparr>hr_status = code, hr_ContentType = ''application/json'', hr_body = dat\<rparr>, s1\<lparr>px_world := w\<rparr>)"
proof -
  from parent_only_refuses [OF assms(4-8), of E "\<lambda>inst. post_config E mr_url"] obtain msg where
    "preInstanceConfig E mr s1 = (Ret (mr, msg, StatusUnauthorized), s1)" unfolding preInstanceConfig_def ..
  then have "run_handler E CreateInstanceConfig r s =
      (Ret \<lparr>hr_status = StatusUnauthorized, hr_ContentType = ''application/json'', hr_body = msg\<rparr>, s1)"
    by (simp add: createInstanceConfig_def newHandlerUnwrapped_def go_bind_def assms(3) newHandler_def respond_def)
  moreover have "en_do E (out_of s1 mr) (px_world s1) = (DoResponse code (Inr dat), w)"
    using assms(10) newAuth_target [OF assms(1,3)] by (simp add: out_of_def)
  from newHandler_sent [OF assms(2) this] have "run_handler E HandleOther r s =
      (Ret \<lparr>hr_status = code, hr_ContentType = ''application/json'', hr_body = dat\<rparr>, s1\<lparr>px_world := w\<rparr>)"
    using assms(11,12) by (simp add: handleOther_def newHandlerUnwrapped_def go_bind_def assms(3) respond_def)
  ultimately show ?thesis using numbered_routes [OF assms(9)] by blast
qed

text \<open>The instance app configures web, whose parent is host.\<close>

theorem config_check_bypassed_witness:
  "\<exists>resp s'. run_handler demo_env HandleOther
       ((demo_request ''app'' [''web'', ''k'', ''v''])\<lparr>rq_RequestURI := ''/postInstanceConfig1''\<rparr>) demo_family = (Ret resp, s') \<and>
     hr_status resp = StatusOK \<and> length (fst (px_world s')) = 1"
proof -
  let ?r = "(demo_request ''app'' [''web'', ''k'', ''v''])\<lparr>rq_RequestURI := ''/postInstanceConfig1''\<rparr>"
  let ?m = "demo_mr ''app'' [''web'', ''k'', ''v'']"
  let ?mr = "as_instance (opened demo_family ?r ?m) (demo_instance 110 130 ''app'')"
  have "ReadRequest (demo_request ''app'' [''web'', ''k'', ''v'']) = (Some ?m, StatusOK)"
    by (rule ReadRequest_demo) (simp_all add: ascii_def in_byte_def)
  then have rd: "ReadRequest ?r = (Some ?m, StatusOK)" by (simp add: ReadRequest_def)
  have addr: "ParseIPNew (rq_RemoteAddr ?r) = (IPv4 10 0 0 1, 150, - 1, StatusOK)"
    by (simp add: ParseIPNew_port_text)
  have auth: "newAuth demo_env ?r True demo_family = (Ret (Some ?mr, StatusOK), demo_family)"
    by (rule newAuth_known [OF rd _ _ _ addr]) simp_all
  have vals: "mr_vals ?mr = ''web'' # [''k'', ''v'']" by (simp add: as_instance_def mr_vals_def)
  have rest: "plain_name ''web''" "mr_cache ?mr = Some 0" "known_in demo_family 0 ''web'' (demo_instance 100 200 ''web'')"
    "ic_PPid (ci_ID (demo_instance 100 200 ''web'')) \<noteq> mr_Principal ?mr" "rq_RequestURI ?r \<in> set numbered_configs"
    by (simp_all add: as_instance_def numbered_configs_def) (simp add: demo_instance_def)
  have req: "\<forall>m u. en_newreq demo_env m u = None" by simp
  from config_check_bypassed [OF demo_family_simps(1) req auth vals rest, of StatusOK "''ok''"]
  show ?thesis by simp
qed

end
