(* ===== verification/JsonFuel.thy ===== *)
theory JsonFuel
  imports Json
begin

text \<open>
  The JSON parser of the model has fuel where the code has a loop over its input. The parser
  always consumes input before it calls itself on a rest, so the fuel it is given never runs
  out: a body is rejected because of its syntax and for no other reason.
\<close>

section \<open>What the parsers consume\<close>

lemma skip_ws_length: "length (skip_ws s) \<le> length s"
  by (simp add: skip_ws_def length_dropWhile_le)

lemma skip_ws_Cons: "skip_ws s = c # r \<Longrightarrow> length r < length s"
  using skip_ws_length [of s] by simp

lemma get_u4_length: "get_u4 s = Some (n, r) \<Longrightarrow> length r < length s"
  by (auto simp: get_u4_def split: list.splits option.splits)

lemma low_surrogate_length: "low_surrogate s = Some (n, r) \<Longrightarrow> length r < length s"
  by (auto simp: low_surrogate_def split: list.splits option.splits if_splits dest!: get_u4_length)

lemma unescape_length:
  assumes "unescape s = Some (u, r)" shows "length r < length s"
proof (cases s)
  case (Cons c cs)
  show ?thesis
  proof (cases "c = CHR ''u''")
    case True
    with assms Cons obtain n r1 where g: "get_u4 cs = Some (n, r1)"
      and "r = r1 \<or> (\<exists>m. low_surrogate r1 = Some (m, r))"
      by (fastforce simp: unescape_def quote_def backslash_def split: option.splits prod.splits if_splits)
    then show ?thesis using get_u4_length [OF g] low_surrogate_length [of r1 _ r] Cons by fastforce
  qed (use assms Cons in \<open>auto simp: unescape_def split: if_splits\<close>)
qed (use assms in \<open>simp add: unescape_def\<close>)

text \<open>The parser of strings by its cases, with what is left of the input.\<close>

lemma parse_str_Suc:
  obtains (stop) x where "\<And>k. parse_str (Suc k) s = x" "\<And>t r. x = Some (t, r) \<Longrightarrow> length r < length s"
  | (call) u s' where "length s' < length s"
      "\<And>k. parse_str (Suc k) s = map_option (\<lambda>(t, r). (u @ t, r)) (parse_str k s')"
proof (cases s)
  case Nil
  then show ?thesis by (intro stop [of None]) (simp_all add: parse_str.simps(2))
next
  case (Cons c cs)
  consider "c = quote" | "c = backslash" | "c \<noteq> quote" "c \<noteq> backslash" "in_byte 0 31 c"
    | "c \<noteq> quote" "c \<noteq> backslash" "\<not> in_byte 0 31 c" by blast
  then show ?thesis
  proof cases
    case 1
    then show ?thesis using Cons by (intro stop [of "Some ([], cs)"]) (simp_all add: parse_str.simps(2))
  next
    case 2
    show ?thesis
    proof (cases "unescape cs")
      case None
      then show ?thesis using 2 Cons by (intro stop [of None]) (simp_all add: parse_str.simps(2))
    next
      case (Some y)
      then obtain u s' where u: "unescape cs = Some (u, s')" by (cases y) auto
      then show ?thesis using 2 Cons unescape_length [OF u] by (intro call [of s' u]) (simp_all add: parse_str.simps(2))
    qed
  next
    case 3
    then show ?thesis using Cons by (intro stop [of None]) (simp_all add: parse_str.simps(2))
  next
    case 4
    show ?thesis
    proof (cases "rune_size (c # cs)")
      case 0
      then show ?thesis using 4 Cons by (intro call [of cs replacement]) (simp_all add: parse_str.simps(2))
    next
      case (Suc n)
      then show ?thesis using 4 Cons
        by (intro call [of "drop n cs" "take (Suc n) (c # cs)"]) (simp_all add: parse_str.simps(2) Let_def)
    qed
  qed
qed

lemma parse_str_length: "parse_str k s = Some (t, r) \<Longrightarrow> length r < length s"
proof (induction k arbitrary: s t)
  case (Suc k)
  show ?case
  proof (cases s rule: parse_str_Suc)
    case (stop x)
    then show ?thesis using Suc.prems by simp
  next
    case (call u s')
    then show ?thesis using Suc.prems Suc.IH [of s'] by fastforce
  qed
qed simp

lemma parse_str_fuel:
  assumes "length s < j" and "length s < k"
  shows "parse_str j s = parse_str k s"
  using assms
proof (induction j arbitrary: s k)
  case (Suc j)
  obtain k' where k: "k = Suc k'" using Suc.prems by (cases k) auto
  show ?case
  proof (cases s rule: parse_str_Suc)
    case (call u s')
    then show ?thesis using Suc.prems Suc.IH [of s' k'] k by simp
  qed (simp add: k)
qed simp

lemma span_digits_length: "span_digits s = (d, r) \<Longrightarrow> length s = length d + length r"
  by (auto simp: span_digits_def simp flip: length_append)

text \<open>The parts of a number: sign, integer part, fraction and exponent never give input back.\<close>

lemma parse_number_length:
  assumes "parse_number s0 = Some (t, s4)" shows "length s4 < length s0"
proof -
  obtain sign s1 where s1: "(case s0 of c # r \<Rightarrow> if c = CHR ''-'' then ([c], r) else ([], s0) | [] \<Rightarrow> ([], s0)) = (sign, s1)"
    by fastforce
  obtain ip s2 where s2: "span_digits s1 = (ip, s2)" by fastforce
  obtain fp s3 where s3: "(case s2 of c # r \<Rightarrow> if c = CHR ''.'' then (let (d, r') = span_digits r in (c # d, r')) else ([], s2)
      | [] \<Rightarrow> ([], s2)) = (fp, s3)" by fastforce
  obtain ep s5 where s5: "(case s3 of
        c # r \<Rightarrow> if c = CHR ''e'' \<or> c = CHR ''E'' then
                   (let (sg, r1) = (case r of x # y \<Rightarrow> if x = CHR ''+'' \<or> x = CHR ''-'' then ([x], y) else ([], r) | [] \<Rightarrow> ([], r));
                        (d, r2) = span_digits r1
                    in (c # sg @ (if d = [] then ''?'' else d), r2))
                 else ([], s3)
      | [] \<Rightarrow> ([], s3)) = (ep, s5)" by fastforce
  have "ip \<noteq> []" "s4 = s5"
    using assms unfolding parse_number_def Let_def s1 s2 s3 [unfolded Let_def] s5 [unfolded Let_def] prod.case
    by (auto split: if_splits)
  moreover have "length s1 \<le> length s0" using s1 by (auto split: list.splits if_splits)
  moreover have "length s3 \<le> length s2"
    using s3 by (auto simp: Let_def split: list.splits if_splits prod.splits dest: span_digits_length)
  moreover have "length s5 \<le> length s3"
    using s5 by (auto simp: Let_def split: list.splits if_splits prod.splits dest!: span_digits_length)
  ultimately show ?thesis using span_digits_length [OF s2] by (cases ip) auto
qed

section \<open>Values\<close>

text \<open>The parsers of values, elements and members, with the calls they make.\<close>

lemma parse_value_Suc:
  obtains (stop) x where "\<And>k. parse_value (Suc k) s = x" "\<And>v r. x = Some (v, r) \<Longrightarrow> length r < length s"
  | (object) s' where "length s' < length s"
      "\<And>k. parse_value (Suc k) s = map_option (\<lambda>(ms, t). (JObj ms, t)) (parse_members k s')"
  | (array) s' where "length s' < length s"
      "\<And>k. parse_value (Suc k) s = map_option (\<lambda>(vs, t). (JArr vs, t)) (parse_elems k s')"
proof (cases "skip_ws s")
  case Nil
  then show ?thesis by (intro stop [of None]) simp_all
next
  case (Cons c r)
  note len = skip_ws_Cons [OF Cons]
  have lit: "length (drop n (c # r)) < length s" if "0 < n" for n
    using len that by (cases n) auto
  consider "c = CHR ''{''" | "c \<noteq> CHR ''{''" "c = CHR ''[''" | "c \<noteq> CHR ''{''" "c \<noteq> CHR ''[''" by blast
  then show ?thesis
  proof cases
    case 1
    show ?thesis
    proof (cases "skip_ws r")
      case (Cons d r')
      then show ?thesis
        using 1 \<open>skip_ws s = c # r\<close> len skip_ws_Cons [OF Cons]
        by (cases "d = CHR ''}''") (intro stop [of "Some (JObj [], r')"] object [of r]; simp)+
    qed (use 1 Cons in \<open>intro stop [of None]; simp\<close>)
  next
    case 2
    show ?thesis
    proof (cases "skip_ws r")
      case (Cons d r')
      then show ?thesis
        using 2 \<open>skip_ws s = c # r\<close> len skip_ws_Cons [OF Cons]
        by (cases "d = CHR '']''") (intro stop [of "Some (JArr [], r')"] array [of r]; simp)+
    qed (use 2 Cons in \<open>intro stop [of None]; simp\<close>)
  next
    case 3
    define x where "x = parse_value (Suc 0) s"
    have "parse_value (Suc k) s = x" for k using 3 Cons by (simp add: x_def)
    moreover have "length t < length s" if "x = Some (v, t)" for v t
      using that 3 Cons len lit [of 4] lit [of 5]
      by (auto simp: x_def split: if_splits prod.splits dest!: parse_str_length parse_number_length)
    ultimately show ?thesis by (rule stop)
  qed
qed

lemma parse_elems_rest:
  assumes "parse_elems (Suc k) s = Some (vs, r)"
  obtains v r1 where "parse_value k s = Some (v, r1)" "length r < length r1 \<or>
    (\<exists>c r' vs'. skip_ws r1 = c # r' \<and> parse_elems k r' = Some (vs', r))"
proof -
  from assms obtain v r1 c r' where v: "parse_value k s = Some (v, r1)" and c: "skip_ws r1 = c # r'"
    by (auto split: option.splits list.splits)
  then have "(vs, r) = ([v], r') \<or> (\<exists>vs'. parse_elems k r' = Some (vs', r))"
    using assms by (auto split: if_splits)
  with v c skip_ws_Cons [OF c] show ?thesis by (intro that [of v r1]) auto
qed

text \<open>The head of a member: its name, the colon, and the input of its value.\<close>

definition member_head :: "string \<Rightarrow> (string \<times> string) option" where
  "member_head s =
     (case skip_ws s of
        [] \<Rightarrow> None
      | q # r \<Rightarrow>
          if q \<noteq> quote then None
          else (case parse_str (Suc (length r)) r of
                  None \<Rightarrow> None
                | Some (name, r1) \<Rightarrow>
                    (case skip_ws r1 of [] \<Rightarrow> None | c # r2 \<Rightarrow> if c \<noteq> CHR '':'' then None else Some (name, r2))))"

lemma member_head_length: "member_head s = Some (n, r) \<Longrightarrow> length r < length s"
  by (auto simp: member_head_def split: list.splits if_splits option.splits prod.splits
      dest!: skip_ws_Cons parse_str_length)

lemma parse_members_head:
  "parse_members (Suc k) s =
     (case member_head s of
        None \<Rightarrow> None
      | Some (name, r2) \<Rightarrow>
          (case parse_value k r2 of
             None \<Rightarrow> None
           | Some (v, r3) \<Rightarrow>
               (case skip_ws r3 of
                  [] \<Rightarrow> None
                | d # r4 \<Rightarrow>
                    if d = CHR ''}'' then Some ([(name, v)], r4)
                    else if d = CHR '','' then map_option (\<lambda>(ms, t). ((name, v) # ms, t)) (parse_members k r4)
                    else None)))"
  by (simp add: member_head_def split: list.splits option.splits)

lemma parse_members_rest:
  assumes "parse_members (Suc k) s = Some (ms, r)"
  obtains n r2 v r3 where "member_head s = Some (n, r2)" "parse_value k r2 = Some (v, r3)" "length r < length r3 \<or>
    (\<exists>c r' ms'. skip_ws r3 = c # r' \<and> parse_members k r' = Some (ms', r))"
proof -
  from assms obtain n r2 v r3 d r4 where h: "member_head s = Some (n, r2)" and v: "parse_value k r2 = Some (v, r3)"
    and d: "skip_ws r3 = d # r4"
    unfolding parse_members_head by (auto split: option.splits list.splits)
  then have "(ms, r) = ([(n, v)], r4) \<or> (\<exists>ms'. parse_members k r4 = Some (ms', r))"
    using assms unfolding parse_members_head by (auto split: if_splits)
  with h v d skip_ws_Cons [OF d] show ?thesis by (intro that [of n r2 v r3]) auto
qed

lemma parse_length:
  "(parse_value k s = Some (v, r) \<longrightarrow> length r < length s) \<and>
   (parse_elems k s = Some (vs, r) \<longrightarrow> length r < length s) \<and>
   (parse_members k s = Some (ms, r) \<longrightarrow> length r < length s)"
proof (induction k arbitrary: s v r vs ms)
  case (Suc k)
  have elems: "parse_elems k s = Some (vs, r) \<Longrightarrow> length r < length s" for s vs r using Suc by blast
  have members: "parse_members k s = Some (ms, r) \<Longrightarrow> length r < length s" for s ms r using Suc by blast
  have val: "parse_value k s = Some (v, r) \<Longrightarrow> length r < length s" for s v r using Suc by blast
  have "length r < length s" if "parse_value (Suc k) s = Some (v, r)"
    using that by (cases s rule: parse_value_Suc) (auto dest!: elems members)
  moreover have "length r < length s" if e: "parse_elems (Suc k) s = Some (vs, r)"
    using parse_elems_rest [OF e] by (metis val elems skip_ws_Cons order.strict_trans)
  moreover have "length r < length s" if m: "parse_members (Suc k) s = Some (ms, r)"
    using parse_members_rest [OF m] by (metis val members member_head_length skip_ws_Cons order.strict_trans)
  ultimately show ?case by blast
qed simp

section \<open>Enough fuel\<close>

text \<open>A value needs twice the length of its input and one more, a rest of an array or object one more than that.\<close>

definition fuel_stable :: "nat \<Rightarrow> bool" where
  "fuel_stable n \<longleftrightarrow> (\<forall>s. length s \<le> n \<longrightarrow>
     (\<forall>j k. 2 * length s < j \<longrightarrow> 2 * length s < k \<longrightarrow> parse_value j s = parse_value k s) \<and>
     (\<forall>j k. 2 * length s + 1 < j \<longrightarrow> 2 * length s + 1 < k \<longrightarrow>
        parse_elems j s = parse_elems k s \<and> parse_members j s = parse_members k s))"

lemma fuel_stable_value:
  assumes IH: "\<And>m. m < length s \<Longrightarrow> fuel_stable m" and "2 * length s < j" "2 * length s < k"
  shows "parse_value j s = parse_value k s"
proof -
  obtain j' k' where jk: "j = Suc j'" "k = Suc k'" using assms(2,3) by (cases j; cases k) auto
  have sub: "parse_elems j' t = parse_elems k' t" "parse_members j' t = parse_members k' t" if "length t < length s" for t
    using IH [OF that] that assms(2,3) jk by (simp_all add: fuel_stable_def)
  show ?thesis by (cases s rule: parse_value_Suc) (simp_all add: jk sub)
qed

lemma fuel_stable_elems:
  assumes val: "\<And>j k. 2 * length s < j \<Longrightarrow> 2 * length s < k \<Longrightarrow> parse_value j s = parse_value k s"
    and IH: "\<And>m. m < length s \<Longrightarrow> fuel_stable m" and "2 * length s + 1 < j" "2 * length s + 1 < k"
  shows "parse_elems j s = parse_elems k s"
proof -
  obtain j' k' where jk: "j = Suc j'" "k = Suc k'" using assms(3,4) by (cases j; cases k) auto
  have v: "parse_value j' s = parse_value k' s" by (rule val) (use assms(3,4) jk in simp_all)
  have sub: "parse_elems j' t = parse_elems k' t" if "length t < length s" for t
    using IH [OF that] that assms(3,4) jk by (simp add: fuel_stable_def)
  have "parse_elems j' t = parse_elems k' t" if "parse_value k' s = Some (x, r)" "skip_ws r = c # t" for x r c t
    using sub parse_length [of k' s x r] skip_ws_Cons [OF that(2)] that(1) by fastforce
  then show ?thesis by (simp add: jk v split: option.splits list.splits)
qed

lemma fuel_stable_members:
  assumes IH: "\<And>m. m < length s \<Longrightarrow> fuel_stable m" and "2 * length s + 1 < j" "2 * length s + 1 < k"
  shows "parse_members j s = parse_members k s"
proof -
  obtain j' k' where jk: "j = Suc j'" "k = Suc k'" using assms(2,3) by (cases j; cases k) auto
  have sub: "parse_value j' t = parse_value k' t" "parse_members j' t = parse_members k' t" if "length t < length s" for t
    using IH [OF that] that assms(2,3) jk by (simp_all add: fuel_stable_def)
  have v: "parse_value j' t = parse_value k' t" if "member_head s = Some (n, t)" for n t
    using member_head_length [OF that] sub(1) by blast
  have "parse_members j' t = parse_members k' t"
    if "member_head s = Some (n, r)" "parse_value k' r = Some (x, r3)" "skip_ws r3 = c # t" for n r x r3 c t
    using sub(2) member_head_length [OF that(1)] parse_length [of k' r x r3] skip_ws_Cons [OF that(3)] that(2) by fastforce
  then show ?thesis by (simp add: jk parse_members_head v del: parse_members.simps split: option.splits list.splits)
qed

lemma fuel_stable: "fuel_stable n"
proof (induction n rule: less_induct)
  case (less n)
  show ?case
    unfolding fuel_stable_def
  proof (intro allI impI)
    fix s :: string assume "length s \<le> n"
    then have IH: "fuel_stable m" if "m < length s" for m using less that by simp
    note val = fuel_stable_value [OF IH]
    show "(\<forall>j k. 2 * length s < j \<longrightarrow> 2 * length s < k \<longrightarrow> parse_value j s = parse_value k s) \<and>
      (\<forall>j k. 2 * length s + 1 < j \<longrightarrow> 2 * length s + 1 < k \<longrightarrow>
        parse_elems j s = parse_elems k s \<and> parse_members j s = parse_members k s)"
      using val fuel_stable_elems [OF val IH] fuel_stable_members [OF IH] by blast
  qed
qed

lemma parse_value_fuel:
  "2 * length body < fuel \<Longrightarrow> parse_value (2 * length body + 2) body = parse_value fuel body"
  by (rule fuel_stable_value [OF fuel_stable]) simp_all

end
