(* ===== verification/Decoding.thy ===== *)
theory Decoding
  imports Demo JsonFuel
begin

text \<open>
  Requests through their encoding: what a proxy sends to SAFE is read back as it was, and what
  it accepts does not depend on the bound in the model of the parser.
\<close>

section \<open>Encoding and decoding a request\<close>

text \<open>C28: the body a proxy forwards for a request whose strings are UTF-8 is read back, by whoever
  decodes it as ReadRequest does (another proxy in a chain, for one), with status 200 and with
  the speaker, the bearer, the parameters (nil and empty told apart) and the auth it was made
  from: quotes, backslashes, control bytes, angle brackets and line separators included.\<close>

theorem forwarded_request_roundtrip:
  assumes "utf8_request mr" and "rq_Body r = Some (EncodingMetadataRequest mr)"
  shows "\<exists>mr'. ReadRequest r = (Some mr', StatusOK) \<and> mr_Principal mr' = mr_Principal mr \<and>
    mr_ParentBear mr' = mr_ParentBear mr \<and> mr_OtherValues mr' = mr_OtherValues mr \<and> mr_Auth mr' = mr_Auth mr"
  by (rule exI) (rule conjI [OF ReadRequest_encoded [OF assms]], simp)

definition odd_mr :: MetadataRequest where
  "odd_mr = zero_MetadataRequest\<lparr>mr_Principal := ''a<b&'', mr_OtherValues := Some [[quote, backslash, CHR 10], []]\<rparr>"

theorem forwarded_request_roundtrip_witness:
  "\<exists>mr'. ReadRequest (demo_request ''web'' []\<lparr>rq_Body := Some (EncodingMetadataRequest odd_mr)\<rparr>) = (Some mr', StatusOK) \<and>
     mr_OtherValues mr' = Some [[quote, backslash, CHR 10], []]"
proof -
  have "valid_utf8 ''a<b&''" "valid_utf8 [quote, backslash, CHR 10]"
    by (rule valid_utf8_ascii; simp add: in_byte_def quote_def backslash_def)+
  then have "utf8_request odd_mr"
    by (simp add: utf8_request_def odd_mr_def zero_MetadataRequest_def)
  then obtain mr' where "ReadRequest (demo_request ''web'' []\<lparr>rq_Body := Some (EncodingMetadataRequest odd_mr)\<rparr>) = (Some mr', StatusOK)"
    "mr_OtherValues mr' = mr_OtherValues odd_mr"
    using forwarded_request_roundtrip [of odd_mr] by (metis http_request.select_convs(4) http_request.surjective http_request.update_convs(4))
  then show ?thesis by (simp add: odd_mr_def)
qed

section \<open>Fuel\<close>

definition request_names :: "string list" where
  "request_names = [''principal'', ''bearerRef'', ''methodParams'', ''auth'']"

definition fresh_request :: MetadataRequest where
  "fresh_request = zero_MetadataRequest\<lparr>mr_targetType := NORMAL_INSTANCE_TYPE\<rparr>"

text \<open>The bound in the model of the parser is never the reason for an answer of ReadRequest.\<close>

lemma ReadRequest_any_fuel:
  assumes "rq_Body r = Some body" and "2 * length body < fuel"
  shows "ReadRequest r =
    (case parse_value fuel body of
       Some (JObj ms, _) \<Rightarrow>
         (case dec_members request_names upd_MetadataRequest ms (fresh_request, []) of
            ((mr, _), ok) \<Rightarrow> if ok then (Some mr, StatusOK) else (None, StatusBadRequest))
     | Some (JNull, _) \<Rightarrow> (Some fresh_request, StatusOK)
     | _ \<Rightarrow> (None, StatusBadRequest))"
proof -
  have init: "zero_MetadataRequest\<lparr>mr_targetType := NORMAL_INSTANCE_TYPE, mr_targetCidr := None\<rparr> = fresh_request"
    by (simp add: fresh_request_def zero_MetadataRequest_def)
  show ?thesis
    unfolding ReadRequest_def assms(1) option.case dec_MetadataRequest_def dec_struct_def parse_json_def
      parse_value_fuel [OF assms(2)] init request_names_def [symmetric]
    by (cases "parse_value fuel body") (simp_all add: Let_def split: json.splits prod.splits)
qed

text \<open>A null decodes into an empty request, also when other bytes follow it.\<close>

lemma ReadRequest_null:
  assumes "rq_Body r = Some (''null'' @ junk)"
  shows "ReadRequest r = (Some fresh_request, StatusOK)"
proof -
  have "parse_value (Suc (2 * length (''null'' @ junk))) (''null'' @ junk) = Some (JNull, junk)"
    by (simp add: skip_ws_def is_ws_def HasPrefix_def quote_def)
  with ReadRequest_any_fuel [OF assms, of "Suc (2 * length (''null'' @ junk))"] show ?thesis by simp
qed

end
