(* ===== verification/InstanceSpec.thy ===== *)
theory InstanceSpec
  imports ConfigSpec Decoding
begin

text \<open>
  More of the handlers of instances: the legacy creation that never succeeds, deletions, the
  creation of virtual machines, and checks, which are asked about the id and the parent of an
  instance.
\<close>

section \<open>The legacy creation\<close>

lemma legacy_hook_refuses:
  assumes "mr_targetAddrIndex mr = 0" and "preLegacyInstanceCallHandler E mr s = (out, s')"
  shows "s' = s \<and> (\<forall>mr' m. out \<noteq> Ret (mr', m, StatusOK))"
  using assms
  by (auto simp: preLegacyInstanceCallHandler_def preInstanceCallHandler_def go_nth_def go_bind_def Let_def
      split: if_splits option.splits)

text \<open>C32: createInstanceLegacy never succeeds: it cuts the parameters to two and then reads the
  address from the third. Whatever the request, it is never answered 200, and neither Riak nor
  SAFE is written to or asked (beside the lookup of the speaker in Riak).\<close>

theorem legacy_never_registers:
  assumes "has_caches s" and "unseen E view" and "run_handler E CreateInstanceLegacy r s = (out, s')"
  shows "view (px_world s') = view (px_world s) \<and> (\<forall>resp. out = Ret resp \<longrightarrow> hr_status resp \<noteq> StatusOK)"
proof -
  obtain x s1 where auth: "newAuth E r True s = (x, s1)" by fastforce
  have same: "view (px_world s1) = view (px_world s)"
    using keepsD [OF unseen_world.newAuth_keeps [where v = "view (px_world s)"] _ auth] assms(2) by simp
  obtain out1 t where u: "newHandlerUnwrapped E r (Some (preLegacyInstanceCallHandler E))
      (Some (postInstanceCreationHandler E)) True s = (out1, t)" by fastforce
  have "t = s1 \<and> (\<forall>m. out1 \<noteq> Ret (m, StatusOK))"
  proof (cases "\<exists>mr. x = Ret (Some mr, StatusOK)")
    case True
    then obtain mr where x: "x = Ret (Some mr, StatusOK)" ..
    obtain y s2 where pre: "preLegacyInstanceCallHandler E mr s1 = (y, s2)" by fastforce
    have "mr_targetAddrIndex mr = 0" using newAuth_shape [OF assms(1)] auth x by blast
    from legacy_hook_refuses [OF this pre] u auth x pre show ?thesis
      by (auto simp: newHandlerUnwrapped_def newHandler_def go_bind_def split: outcome.splits prod.splits if_splits)
  next
    case False
    with u auth show ?thesis
      by (auto simp: newHandlerUnwrapped_def go_bind_def split: outcome.splits prod.splits if_splits option.splits)
  qed
  with u assms(3) same show ?thesis
    by (auto simp: createInstanceLegacy_def go_bind_def respond_def split: outcome.splits prod.splits if_splits)
qed

theorem legacy_never_registers_witness:
  "snd (px_world (snd (run_handler demo_env CreateInstanceLegacy (demo_request ''web'' demo_vals) demo_proxy))) = 0"
proof -
  obtain out s' where run: "run_handler demo_env CreateInstanceLegacy (demo_request ''web'' demo_vals) demo_proxy = (out, s')"
    by fastforce
  have "unseen demo_env snd" by (simp add: unseen_def)
  from legacy_never_registers [OF demo_has_caches this run] run show ?thesis by simp
qed

section \<open>Deletions\<close>

lemma postDeletion_OK:
  assumes "itree_ok (en_tree E)"
    and "postInstanceDeletionHandler E (with_target mr ip l p) dat code s = (Ret (msg, StatusOK), s')"
    and "mr_cache mr = Some i" and "i < length (px_caches s)" and "is_v4 ip"
  shows "code = StatusOK \<and> 0 < length (mr_vals mr) \<and>
    pm_PidMap (px_caches s' ! i) = (pm_PidMap (px_caches s ! i))(mr_vals mr ! 0 := None)"
proof (cases "code = StatusOK \<and> 0 < length (mr_vals mr)")
  case False
  then show ?thesis using assms(2)
    by (cases "mr_vals mr") (auto simp: postInstanceDeletionHandler_def go_nth_def go_bind_def split: if_splits)
next
  case True
  let ?c = "\<lparr>cs_pmap = px_caches s ! i, cs_world = px_world s\<rparr>"
  obtain st m w where del: "DelInstance (en_tree E) (en_conn E) ip l p (mr_vals mr ! 0) ?c =
      (Ret st, ?c\<lparr>cs_pmap := m, cs_world := w\<rparr>)"
    "DelCachedInstanceAlt (en_tree E) ip l p (mr_vals mr ! 0) (cs_pmap ?c) = (Ret (), m)"
    by (rule DelInstance_v4 [OF assms(5)])
  from DelCachedInstanceAlt_result(2) [OF assms(1) del(2)]
  have "pm_PidMap m = (pm_PidMap (px_caches s ! i))(mr_vals mr ! 0 := None)" by simp
  with True del(1) assms(2-4) show ?thesis
    by (auto simp: postInstanceDeletionHandler_def go_bind_def go_nth_def mr_with_cache_def with_cache_def)
qed

text \<open>C13: deleteInstance answers 200 only if the speaker was authenticated and is in charge of the
  address in the third parameter and SAFE consented; and then the cache of the request forgets
  the id in the first parameter, and no other. Nothing ties that id to the address: a speaker
  that names an address of its own can make the proxy forget any instance.\<close>

theorem delete_authorized:
  assumes "do_documented E" and "has_caches s" and "itree_ok (en_tree E)"
    and "run_handler E DeleteInstance r s = (Ret resp, s')" and "hr_status resp = StatusOK"
  shows "\<exists>mr s1 ip l p i dat w.
    newAuth E r True s = (Ret (Some mr, StatusOK), s1) \<and> 2 < length (mr_vals mr) \<and>
    ParseIPNew (mr_vals mr ! 2) = (ip, l, p, StatusOK) \<and> in_charge mr ip l p \<and>
    en_do E (out_of s1 mr) (px_world s1) = (DoResponse StatusOK (Inr dat), w) \<and> mr_cache mr = Some i \<and>
    pm_PidMap (px_caches s' ! i) = (pm_PidMap (px_caches s1 ! i))(mr_vals mr ! 0 := None)"
proof -
  have run: "go_bind (newHandlerUnwrapped E r (Some (preInstanceCallHandler E)) (Some (postInstanceDeletionHandler E)) True)
      respond s = (Ret resp, s')" using assms(4) by (simp add: deleteInstance_def)
  obtain mr s1 mr' m s2 w dat code where st: "newAuth E r True s = (Ret (Some mr, StatusOK), s1)"
    "preInstanceCallHandler E mr s1 = (Ret (mr', m, StatusOK), s2)"
    "en_do E (out_of s2 mr') (px_world s2) = (DoResponse code (Inr dat), w)"
    "postInstanceDeletionHandler E mr' dat code (s2\<lparr>px_world := w\<rparr>) = (Ret (hr_body resp, StatusOK), s')"
    by (rule handler_OK [OF assms(1) run assms(5)]) (simp only: option.case)
  from newAuth_shape [OF assms(2) st(1)] obtain i where sh: "mr_targetAddrIndex mr = 0" "mr_cache mr = Some i"
    and i: "i < length (px_caches s)" by blast
  from preInstanceCallHandler_OK [OF st(2) sh(1)] obtain ip l p where t: "2 < length (mr_vals mr)"
    "ParseIPNew (mr_vals mr ! 2) = (ip, l, p, StatusOK)" "mr' = with_target mr ip l p" "s2 = s1" "in_charge mr ip l p" .
  have "same_frame s s" by (simp add: same_frame_def)
  from keepsD [OF frame.newAuth_keeps this st(1)] i have i1: "i < length (px_caches (s1\<lparr>px_world := w\<rparr>))"
    by (simp add: same_frame_def)
  have "is_v4 ip" using ParseIPNew_OK [OF t(2)] by simp
  from postDeletion_OK [OF assms(3) st(4) [unfolded t(3,4)] sh(2) i1 this] st(1,3) t sh show ?thesis by auto
qed

text \<open>The instance web deletes its parent, naming an address of its own.\<close>

abbreviation steal_vals :: "string list" where
  "steal_vals \<equiv> [''host'', ''x'', ''10.0.0.1:110-130'']"

lemma demo_delete_OK:
  "\<exists>resp s'. run_handler demo_env DeleteInstance (demo_request ''web'' steal_vals) demo_family = (Ret resp, s') \<and>
     hr_status resp = StatusOK"
proof -
  let ?mr = "speaks_as ''web'' steal_vals (demo_instance 100 200 ''web'')"
  have auth: "newAuth demo_env (demo_request ''web'' steal_vals) True demo_family = (Ret (Some ?mr, StatusOK), demo_family)"
    by (rule newAuth_family) (simp_all add: ascii_def in_byte_def)
  have "in_charge ?mr (IPv4 10 0 0 1) 110 130" by (simp add: in_charge_def)
  then have authz: "authzControl demo_env ?mr ''10.0.0.1:110-130'' False s =
      (Ret (with_target ?mr (IPv4 10 0 0 1) 110 130, StatusOK), s)" for s
    by (simp add: authzControl_address [OF ParseIPNew_110_130] authz_target_spec)
  then have pre: "preInstanceCallHandler demo_env ?mr demo_family =
      (Ret (with_target ?mr (IPv4 10 0 0 1) 110 130, [], StatusOK), demo_family)"
    by (simp add: preInstanceCallHandler_def go_bind_def go_nth_def)
  have "\<exists>s'. postInstanceDeletionHandler demo_env (with_target ?mr (IPv4 10 0 0 1) 110 130) dat StatusOK
      (demo_family\<lparr>px_world := w\<rparr>) = (Ret (done_message ''host'', StatusOK), s')" for w dat
  proof -
    let ?c = "\<lparr>cs_pmap = px_caches demo_family ! 0, cs_world = w\<rparr>"
    obtain st m w' where "DelInstance list_tree demo_conn (IPv4 10 0 0 1) 110 130 ''host'' ?c =
        (Ret st, ?c\<lparr>cs_pmap := m, cs_world := w'\<rparr>)"
      by (rule DelInstance_v4 [OF is_v4_IPv4, of list_tree demo_conn])
    then show ?thesis
      by (simp add: postInstanceDeletionHandler_def go_bind_def go_nth_def mr_with_cache_def with_cache_def demo_family_def)
  qed
  then obtain s' where "forward demo_env (with_target ?mr (IPv4 10 0 0 1) 110 130) (Some (postInstanceDeletionHandler demo_env)) demo_family =
      (Ret (done_message ''host'', StatusOK), s')"
    by (fastforce simp: forward_def)
  then show ?thesis
    by (simp add: deleteInstance_def newHandlerUnwrapped_def newHandler_def go_bind_def auth pre respond_def)
qed

theorem delete_authorized_witness:
  "\<exists>resp s'. run_handler demo_env DeleteInstance (demo_request ''web'' steal_vals) demo_family = (Ret resp, s') \<and>
     hr_status resp = StatusOK \<and>
     pm_PidMap (px_caches s' ! 0) = (pm_PidMap (px_caches demo_family ! 0))(''host'' := None)"
proof -
  obtain resp s' where run: "run_handler demo_env DeleteInstance (demo_request ''web'' steal_vals) demo_family = (Ret resp, s')"
    "hr_status resp = StatusOK" using demo_delete_OK by blast
  have auth: "newAuth demo_env (demo_request ''web'' steal_vals) True demo_family =
      (Ret (Some (speaks_as ''web'' steal_vals (demo_instance 100 200 ''web'')), StatusOK), demo_family)"
    by (rule newAuth_family) (simp_all add: ascii_def in_byte_def)
  have "do_documented demo_env" "itree_ok (en_tree demo_env)" by (simp_all add: do_documented_def)
  from delete_authorized [OF this(1) demo_family_simps(1) this(2) run] auth have
    "pm_PidMap (px_caches s' ! 0) = (pm_PidMap (px_caches demo_family ! 0))(''host'' := None)" by auto
  with run show ?thesis by blast
qed

section \<open>Virtual machines\<close>

lemma preVM_OK:
  assumes "preVMInstanceCallHandler E mr s = (Ret (mr', m, StatusOK), s')"
  obtains cidr ip l p where "mr_Principal mr = IaaSProvider" "4 < length (mr_vals mr)"
    "ParseCIDR (mr_vals mr ! 4) = Some cidr" "ParseIPNew (mr_vals mr ! 3) = (ip, l, p, StatusOK)" "s' = s"
    "mr' = with_target (mr\<lparr>mr_targetCidr := Some cidr, mr_targetType := VM_INSTANCE_TYPE, mr_targetAddrIndex := 3\<rparr>) ip l p"
proof -
  from assms obtain t s0 where prov: "mr_Principal mr = IaaSProvider" and n: "go_nth (mr_vals mr) 4 s = (Ret t, s0)"
    by (auto simp: preVMInstanceCallHandler_def elim!: go_bind_RetE split: if_splits)
  from go_nth_Ret [OF n] have v: "s0 = s" "4 < length (mr_vals mr)" "t = mr_vals mr ! 4" by auto
  with assms prov obtain cidr where c: "ParseCIDR (mr_vals mr ! 4) = Some cidr"
    and pre: "preInstanceCallHandler E (mr\<lparr>mr_targetCidr := Some cidr, mr_targetType := VM_INSTANCE_TYPE,
        mr_targetAddrIndex := 3\<rparr>) s = (Ret (mr', m, StatusOK), s')"
    by (auto simp: preVMInstanceCallHandler_def go_bind_def go_nth_def split: option.splits)
  let ?mr = "mr\<lparr>mr_targetCidr := Some cidr, mr_targetType := VM_INSTANCE_TYPE, mr_targetAddrIndex := 3\<rparr>"
  have "mr_vals ?mr = mr_vals mr" by (simp add: mr_vals_def)
  with pre v(2) have "authzControl E ?mr (mr_vals mr ! 3) False s = (Ret (mr', StatusOK), s')"
    by (auto simp: preInstanceCallHandler_def go_bind_def go_nth_def split: outcome.splits prod.splits if_splits)
  from authzControl_OK [OF this] c prov v(2) that show ?thesis by metis
qed

text \<open>C26: createVMInstance answers 200 only for the provider, with a CIDR in the fifth parameter that
  parses, an address in the fourth that parses, and the consent of SAFE; the instance registered
  is then of the type of virtual machines, with that network and the provider as its parent.\<close>

theorem vm_creation_by_provider:
  assumes "do_documented E" and "has_caches s"
    and "run_handler E CreateVMInstance r s = (Ret resp, s')" and "hr_status resp = StatusOK"
  shows "\<exists>mr s1 cidr ip l p i inst. newAuth E r True s = (Ret (Some mr, StatusOK), s1) \<and> mr_Principal mr = IaaSProvider \<and>
    ParseCIDR (mr_vals mr ! 4) = Some cidr \<and> ParseIPNew (mr_vals mr ! 3) = (ip, l, p, StatusOK) \<and>
    mr_cache mr = Some i \<and> pm_PidMap (px_caches s' ! i) (mr_vals mr ! 0) = Some inst \<and>
    ci_Ip inst = ip \<and> ci_Lport inst = l \<and> ci_Rport inst = p \<and>
    ci_ID inst = \<lparr>ic_Pid = mr_vals mr ! 0, ic_PPid = IaaSProvider, ic_Cidr = Some cidr, ic_Type = VM_INSTANCE_TYPE\<rparr>"
proof -
  have run: "go_bind (newHandlerUnwrapped E r (Some (preVMInstanceCallHandler E)) (Some (postInstanceCreationHandler E)) True)
      respond s = (Ret resp, s')" using assms(3) by (simp add: createVMInstance_def)
  obtain mr s1 mr' m s2 w dat code where st: "newAuth E r True s = (Ret (Some mr, StatusOK), s1)"
    "preVMInstanceCallHandler E mr s1 = (Ret (mr', m, StatusOK), s2)"
    "postInstanceCreationHandler E mr' dat code (s2\<lparr>px_world := w\<rparr>) = (Ret (hr_body resp, StatusOK), s')"
    by (rule handler_OK [OF assms(1) run assms(4)]) (simp only: option.case)
  from newAuth_shape [OF assms(2) st(1)] obtain i where c: "mr_cache mr = Some i" and i: "i < length (px_caches s)" by blast
  from preVM_OK [OF st(2)] obtain cidr ip l p where t: "mr_Principal mr = IaaSProvider" "ParseCIDR (mr_vals mr ! 4) = Some cidr"
    "ParseIPNew (mr_vals mr ! 3) = (ip, l, p, StatusOK)" "s2 = s1"
    "mr' = with_target (mr\<lparr>mr_targetCidr := Some cidr, mr_targetType := VM_INSTANCE_TYPE, mr_targetAddrIndex := 3\<rparr>) ip l p" .
  let ?mr = "mr\<lparr>mr_targetCidr := Some cidr, mr_targetType := VM_INSTANCE_TYPE, mr_targetAddrIndex := 3\<rparr>"
  have "same_frame s s" by (simp add: same_frame_def)
  from keepsD [OF frame.newAuth_keeps this st(1)] i have i1: "i < length (px_caches (s1\<lparr>px_world := w\<rparr>))"
    by (simp add: same_frame_def)
  have v4: "is_v4 ip" using ParseIPNew_OK [OF t(3)] by simp
  have "mr_cache ?mr = Some i" using c by simp
  from postCreation_OK [OF st(3) [unfolded t(4,5)] this i1 v4]
  have "pm_PidMap (px_caches s' ! i) (mr_vals mr ! 0) = Some (new_instance ?mr ip l p)" by (simp add: mr_vals_def)
  with st(1) t c show ?thesis by (auto simp: new_instance_def mr_vals_def)
qed

text \<open>The provider makes a machine.\<close>

abbreviation vm_vals :: "string list" where
  "vm_vals \<equiv> [''vm'', ''x'', ''y'', ''10.0.0.1:110-130'', ''10.0.0.0/24'']"

lemma ParseCIDR_24: "\<exists>n. ParseCIDR ''10.0.0.0/24'' = Some n"
proof -
  have "dotted 10 0 0 0 = ''10.0.0.0''"
    by (simp add: dotted_def nat_dec.simps digit_char_def char_of_def bit_iff_odd)
  then have ip: "parseIPv4 ''10.0.0.0'' = IPv4 10 0 0 0" using parseIPv4_dotted [of 10 0 0 0] by simp
  have "nat_dec 24 = ''24''" by (simp add: nat_dec.simps digit_char_def char_of_def bit_iff_odd)
  then have n: "\<exists>k. dtoi ''24'' = Some (24, k, [])" using dtoi_nat_dec [of "[]" 24] by auto
  have "IPv4 10 0 0 0 \<noteq> nil_IP" by (simp add: IPv4_def nil_IP_def v4InV6Prefix_def)
  with ip n show ?thesis by (auto simp: ParseCIDR_def Let_def)
qed

lemma demo_vm_OK:
  "\<exists>resp s'. run_handler demo_env CreateVMInstance (demo_request IaaSProvider vm_vals) demo_proxy = (Ret resp, s') \<and>
     hr_status resp = StatusOK"
proof -
  have rd: "ReadRequest (demo_request IaaSProvider vm_vals) = (Some (demo_mr IaaSProvider vm_vals), StatusOK)"
    by (rule ReadRequest_demo) (simp_all add: ascii_def in_byte_def IaaSProvider_def)
  let ?mr = "opened demo_proxy (demo_request IaaSProvider vm_vals) (demo_mr IaaSProvider vm_vals)"
  have prov: "mr_Principal ?mr = IaaSProvider" by (simp add: IaaSProvider_def)
  from prov have auth: "newAuth demo_env (demo_request IaaSProvider vm_vals) True demo_proxy = (Ret (Some ?mr, StatusOK), demo_proxy)"
    by (simp only: newAuth_opened [OF rd demo_has_caches] Let_def if_True refl)
  obtain cidr where cidr: "ParseCIDR ''10.0.0.0/24'' = Some cidr" using ParseCIDR_24 ..
  let ?vm = "?mr\<lparr>mr_targetCidr := Some cidr, mr_targetType := VM_INSTANCE_TYPE, mr_targetAddrIndex := 3\<rparr>"
  have vals: "mr_vals ?mr = vm_vals" "mr_vals ?vm = vm_vals" by (simp_all add: mr_vals_def)
  have "in_charge ?vm (IPv4 10 0 0 1) 110 130" using prov by (simp add: in_charge_def)
  then have "authzControl demo_env ?vm ''10.0.0.1:110-130'' False s = (Ret (with_target ?vm (IPv4 10 0 0 1) 110 130, StatusOK), s)" for s
    using prov by (simp add: authzControl_address [OF ParseIPNew_110_130] authz_target_spec)
  then have pre: "preVMInstanceCallHandler demo_env ?mr demo_proxy =
      (Ret (with_target ?vm (IPv4 10 0 0 1) 110 130, [], StatusOK), demo_proxy)"
    using prov by (simp add: preVMInstanceCallHandler_def preInstanceCallHandler_def go_bind_def go_nth_def vals cidr
        del: opened_simps)
  have i: "0 < length (px_caches (demo_proxy\<lparr>px_world := w\<rparr>))" for w by simp
  have v4: "is_v4 (ci_Ip (new_instance ?vm (IPv4 10 0 0 1) 110 130))" by (simp add: new_instance_def)
  have "\<exists>s'. postInstanceCreationHandler demo_env (with_target ?vm (IPv4 10 0 0 1) 110 130) dat StatusOK
      (demo_proxy\<lparr>px_world := w\<rparr>) = (Ret (done_message ''vm'', StatusOK), s')" for w dat
  proof -
    obtain st s' where "with_cache 0 (PutInstance (en_tree demo_env) (en_conn demo_env) (new_instance ?vm (IPv4 10 0 0 1) 110 130))
        (demo_proxy\<lparr>px_world := w\<rparr>) = (Ret st, s')"
      by (rule with_cache_put [OF v4 i, of "en_tree demo_env" "en_conn demo_env"]) blast
    moreover have "mr_cache ?vm = Some 0" "0 < length (mr_vals ?vm)" by (simp_all add: vals)
    ultimately show ?thesis using postCreation_run [of ?vm 0 demo_env "IPv4 10 0 0 1" 110 130] unfolding vals nth_Cons_0 by blast
  qed
  then obtain s' where "forward demo_env (with_target ?vm (IPv4 10 0 0 1) 110 130) (Some (postInstanceCreationHandler demo_env)) demo_proxy =
      (Ret (done_message ''vm'', StatusOK), s')"
    by (fastforce simp: forward_def)
  then show ?thesis
    by (simp add: createVMInstance_def newHandlerUnwrapped_def newHandler_def go_bind_def auth pre respond_def)
qed

theorem vm_creation_by_provider_witness:
  "\<exists>resp s' i inst. run_handler demo_env CreateVMInstance (demo_request IaaSProvider vm_vals) demo_proxy = (Ret resp, s') \<and>
     hr_status resp = StatusOK \<and> pm_PidMap (px_caches s' ! i) (ic_Pid (ci_ID inst)) = Some inst \<and>
     ic_Type (ci_ID inst) = VM_INSTANCE_TYPE"
proof -
  obtain resp s' where run: "run_handler demo_env CreateVMInstance (demo_request IaaSProvider vm_vals) demo_proxy = (Ret resp, s')"
    "hr_status resp = StatusOK" using demo_vm_OK by blast
  have "do_documented demo_env" by (simp add: do_documented_def)
  from vm_creation_by_provider [OF this demo_has_caches run] obtain i inst pid where
    "pm_PidMap (px_caches s' ! i) pid = Some inst" "ic_Pid (ci_ID inst) = pid" "ic_Type (ci_ID inst) = VM_INSTANCE_TYPE"
    by fastforce
  with run show ?thesis by blast
qed

section \<open>Checks\<close>

text \<open>The request a check sends when its object is the instance.\<close>

definition check_request :: "MetadataRequest \<Rightarrow> CachedInstance \<Rightarrow> MetadataRequest" where
  "check_request mr inst = (set_val mr 0 (ic_Pid (ci_ID inst)))\<lparr>mr_ParentBear := ic_PPid (ci_ID inst)\<rparr>"

text \<open>C21: a check whose first parameter is authenticated as an instance (by its id, or by an address
  in its range) asks SAFE about the id of that instance, with its parent as the bearer: SAFE reads
  a request with the speaker's name, that parent, and the parameters with the first replaced by
  the id. The answer of SAFE is handed back as it is.\<close>

theorem check_asks_about_instance:
  assumes "\<forall>m u. en_newreq E m u = None" and "mr_vals mr = who # rest" and "who \<noteq> IaaSProvider"
    and "authenticate E mr who s = (Ret (Some inst, StatusOK), s1)"
    and "utf8_request mr" and "valid_utf8 (ic_Pid (ci_ID inst))" and "valid_utf8 (ic_PPid (ci_ID inst))"
    and "en_do E (out_of s1 (check_request mr inst)) (px_world s1) = (DoResponse code (Inr dat), w)"
    and "rq_Body r = Some (or_Body (out_of s1 (check_request mr inst)))"
  shows "newHandler E mr (Some (preCheckInstance E)) None s = (Ret (dat, code), s1\<lparr>px_world := w\<rparr>) \<and>
    (\<exists>m. ReadRequest r = (Some m, StatusOK) \<and> mr_Principal m = mr_Principal mr \<and>
      mr_ParentBear m = ic_PPid (ci_ID inst) \<and> mr_OtherValues m = Some (ic_Pid (ci_ID inst) # rest))"
proof
  have "preCheckInstance E mr s = (Ret (check_request mr inst, [], StatusOK), s1)"
    using assms(2-4) by (simp add: preCheckInstance_def go_bind_def go_nth_def check_request_def)
  then show "newHandler E mr (Some (preCheckInstance E)) None s = (Ret (dat, code), s1\<lparr>px_world := w\<rparr>)"
    by (simp add: newHandler_def go_bind_def forward_sent [OF assms(1,8)])
  have vals: "mr_OtherValues (check_request mr inst) = Some (ic_Pid (ci_ID inst) # rest)"
    by (simp add: check_request_def set_val_def assms(2))
  have "utf8_request (check_request mr inst)"
    using assms(2,5-7) by (simp add: utf8_request_def vals) (simp add: check_request_def set_val_def)
  moreover have "rq_Body r = Some (EncodingMetadataRequest (check_request mr inst))"
    using assms(9) by (simp add: out_of_def)
  ultimately show "\<exists>m. ReadRequest r = (Some m, StatusOK) \<and> mr_Principal m = mr_Principal mr \<and>
      mr_ParentBear m = ic_PPid (ci_ID inst) \<and> mr_OtherValues m = Some (ic_Pid (ci_ID inst) # rest)"
    using ReadRequest_encoded vals by (fastforce simp: check_request_def set_val_def)
qed

theorem check_asks_about_instance_witness:
  "\<exists>s. newHandler demo_env (demo_mr ''web'' [''10.0.0.1:150'']\<lparr>mr_cache := Some 0\<rparr>) (Some (preCheckInstance demo_env)) None demo_proxy =
     (Ret (''ok'', StatusOK), s)"
proof -
  let ?mr = "demo_mr ''web'' [''10.0.0.1:150'']\<lparr>mr_cache := Some 0\<rparr>"
  let ?inst = "demo_instance 100 200 ''web''"
  let ?q = "out_of demo_proxy (check_request ?mr ?inst)"
  have "\<forall>m u. en_newreq demo_env m u = None" by simp
  moreover have vals: "mr_vals ?mr = [''10.0.0.1:150'']" by (simp add: mr_vals_def)
  moreover have "''10.0.0.1:150'' \<noteq> IaaSProvider" by (simp add: IaaSProvider_def)
  moreover have "authenticate demo_env ?mr ''10.0.0.1:150'' demo_proxy = (Ret (Some ?inst, StatusOK), demo_proxy)"
    by (rule authenticate_150) simp
  moreover have utf: "valid_utf8 ''web''" "valid_utf8 ''host''" "valid_utf8 ''10.0.0.1:150''" "valid_utf8 []"
    by (rule valid_utf8_ascii; simp add: in_byte_def)+
  have "utf8_request ?mr" using utf by (simp add: utf8_request_def vals)
  moreover have "valid_utf8 (ic_Pid (ci_ID ?inst))" "valid_utf8 (ic_PPid (ci_ID ?inst))"
    using utf by (simp_all add: demo_instance_def)
  moreover have "en_do demo_env ?q (px_world demo_proxy) = (DoResponse StatusOK (Inr ''ok''), ([?q], 0))" by simp
  moreover have "rq_Body (demo_request ''web'' []\<lparr>rq_Body := Some (or_Body ?q)\<rparr>) = Some (or_Body ?q)" by simp
  ultimately have "newHandler demo_env ?mr (Some (preCheckInstance demo_env)) None demo_proxy =
      (Ret (''ok'', StatusOK), demo_proxy\<lparr>px_world := ([?q], 0)\<rparr>)"
    by (rule check_asks_about_instance [THEN conjunct1])
  then show ?thesis by blast
qed

end
