(* ===== verification/LazySpec.thy ===== *)
theory LazySpec
  imports InstanceSpec
begin

text \<open>
  The lazy deletion (\<open>proxy/newapi.go\<close>: lazyDeleteInstance), which takes the id of an instance and
  looks up where the instance is. Other than deleteInstance it deletes what it has authorized.
\<close>

lemma authzControl_id:
  assumes "ParseIPNew pid = (a, b, c, st)" and "st \<noteq> StatusOK" and "mr_cache mr = Some i" and "known_in s i pid inst"
  shows "authzControl E mr pid True s = authz_target (with_target mr (ci_Ip inst) (ci_Lport inst) (ci_Rport inst)) s"
proof -
  have "with_cache i (GetInstanceFromID (en_tree E) (en_conn E) pid) s = (Ret (Some inst, StatusOK), s)"
    using assms(4) by (simp add: with_cache_def known_in_def GetInstanceFromID_def GetCachedInstance_def)
  with assms(1-3) show ?thesis
    by (simp add: authzControl_def mr_with_cache_def go_bind_def with_target_def Let_def)
qed

text \<open>The request as preLazyDelete hands it on.\<close>

definition lazy_request :: "MetadataRequest \<Rightarrow> CachedInstance \<Rightarrow> MetadataRequest" where
  "lazy_request mr inst = (with_target mr (ci_Ip inst) (ci_Lport inst) (ci_Rport inst))
     \<lparr>mr_targetType := NORMAL_INSTANCE_TYPE, mr_targetCidr := None\<rparr>"

lemma lazy_request_simps [simp]:
  "mr_vals (lazy_request mr inst) = mr_vals mr" "mr_cache (lazy_request mr inst) = mr_cache mr"
  "mr_targetIp (lazy_request mr inst) = ci_Ip inst" "mr_targetLport (lazy_request mr inst) = ci_Lport inst"
  "mr_targetRport (lazy_request mr inst) = ci_Rport inst"
  by (simp_all add: lazy_request_def mr_vals_def with_target_def)

lemma out_of_lazy [simp]: "out_of s (lazy_request mr inst) = out_of s mr"
  by (simp add: out_of_def lazy_request_def EncodingMetadataRequest_def with_target_def)

lemma preLazyDelete_OK:
  assumes "preLazyDelete E mr s = (Ret (mr', m, StatusOK), s')" and "mr_vals mr = pid # rest"
    and "ParseIPNew pid = (a, b, c, st)" and "st \<noteq> StatusOK" and "mr_cache mr = Some i" and "known_in s i pid inst"
  shows "mr' = lazy_request mr inst \<and> s' = s \<and> in_charge mr (ci_Ip inst) (ci_Lport inst) (ci_Rport inst)"
proof -
  let ?t = "with_target mr (ci_Ip inst) (ci_Lport inst) (ci_Rport inst)"
  note authz = authzControl_id [OF assms(3-6), of E]
  obtain x s1 where t: "authz_target ?t s = (x, s1)" by fastforce
  with assms(1,2) authz obtain mr1 where "x = Ret (mr1, StatusOK)"
    "mr' = mr1\<lparr>mr_targetType := NORMAL_INSTANCE_TYPE, mr_targetCidr := None\<rparr>" "s' = s1"
    by (auto simp: preLazyDelete_def go_bind_def go_nth_def split: outcome.splits prod.splits if_splits)
  with authz_target_OK [of mr "ci_Ip inst" "ci_Lport inst" "ci_Rport inst" s mr1 s1] t show ?thesis
    by (simp add: lazy_request_def)
qed

text \<open>The end of the deletion, when the address and the range are those of the instance.\<close>

lemma postDeletion_exact:
  assumes "itree_ok (en_tree E)" and "caches_sound E s" and "i < length (px_caches s)" and "mr_cache mr = Some i"
    and "mr_vals mr = pid # rest" and "is_v4 (mr_targetIp mr)" and "is_port (mr_targetRport mr)"
    and "0 \<le> mr_targetLport mr" and "mr_targetLport mr \<le> mr_targetRport mr"
    and "only_at (en_tree E) (px_caches s ! i) pid (IP_String (mr_targetIp mr)) (mr_targetLport mr) (mr_targetRport mr)"
    and "postInstanceDeletionHandler E mr dat code s = (Ret (msg, StatusOK), s')"
  shows "code = StatusOK \<and> caches_sound E s' \<and>
    pm_PidMap (px_caches s' ! i) = (pm_PidMap (px_caches s ! i))(pid := None) \<and>
    pm_tree (en_tree E) (px_caches s' ! i) (IP_String (mr_targetIp mr)) =
      {x \<in> pm_tree (en_tree E) (px_caches s ! i) (IP_String (mr_targetIp mr)).
         \<not> (ix_Pmin (fst x) = mr_targetLport mr \<and> ix_Pmax (fst x) = mr_targetRport mr + 1)}"
proof -
  let ?c = "\<lparr>cs_pmap = px_caches s ! i, cs_world = px_world s\<rparr>"
  have code: "code = StatusOK" using assms(11) by (auto simp: postInstanceDeletionHandler_def split: if_splits)
  obtain out c' where del: "DelInstance (en_tree E) (en_conn E) (mr_targetIp mr) (mr_targetLport mr) (mr_targetRport mr) pid ?c = (out, c')"
    by fastforce
  have "cache_inv (en_tree E) ?c" using assms(2,3) by (simp add: caches_sound_def cache_inv_def)
  from DelInstance_spec [OF assms(1) this assms(6-9) _ del] assms(10)
  have d: "out \<noteq> Panic" "cache_inv (en_tree E) c'" "known_instance c' pid = None"
    "\<forall>p. p \<noteq> pid \<longrightarrow> known_instance c' p = known_instance ?c p"
    "pm_tree (en_tree E) (cs_pmap c') (IP_String (mr_targetIp mr)) =
      {x \<in> pm_tree (en_tree E) (px_caches s ! i) (IP_String (mr_targetIp mr)).
         \<not> (ix_Pmin (fst x) = mr_targetLport mr \<and> ix_Pmax (fst x) = mr_targetRport mr + 1)}" by simp_all
  have s': "s' = s\<lparr>px_caches := (px_caches s)[i := cs_pmap c'], px_world := cs_world c'\<rparr>"
    using assms(11) code d(1) del assms(3-5)
    by (auto simp: postInstanceDeletionHandler_def go_bind_def go_nth_def mr_with_cache_def with_cache_def split: outcome.splits)
  have "pm_PidMap (cs_pmap c') = (pm_PidMap (px_caches s ! i))(pid := None)"
    using d(3,4) by (auto simp: fun_eq_iff known_instance_def)
  moreover have "caches_sound E s'"
    using assms(2) d(2) by (auto simp: s' caches_sound_def cache_inv_def dest!: set_update_subset_insert [THEN subsetD])
  ultimately show ?thesis using code d(5) assms(3) by (simp add: s')
qed

text \<open>C14: lazyDeleteInstance with the id of an instance that the cache knows at one range: a 200 means
  that the speaker is in charge of the address and the range of that very instance and that SAFE
  consented; and then exactly this instance is gone, its id and the index of its range, and every
  cache is as sound as before. So, other than deleteInstance, it deletes what it has authorized.\<close>

theorem lazy_delete_exact:
  assumes "do_documented E" and "has_caches s" and "itree_ok (en_tree E)"
    and "run_handler E LazyDeleteInstance r s = (Ret resp, s')" and "hr_status resp = StatusOK"
    and "newAuth E r True s = (Ret (Some mr, StatusOK), s1)" and "mr_vals mr = pid # rest" and "mr_cache mr = Some i"
    and "ParseIPNew pid = (a, b, c, st)" and "st \<noteq> StatusOK" and "known_in s1 i pid inst" and "caches_sound E s1"
    and "is_v4 (ci_Ip inst)" and "is_port (ci_Rport inst)" and "0 \<le> ci_Lport inst" and "ci_Lport inst \<le> ci_Rport inst"
    and "only_at (en_tree E) (px_caches s1 ! i) pid (IP_String (ci_Ip inst)) (ci_Lport inst) (ci_Rport inst)"
  shows "in_charge mr (ci_Ip inst) (ci_Lport inst) (ci_Rport inst) \<and>
    (\<exists>dat w. en_do E (out_of s1 mr) (px_world s1) = (DoResponse StatusOK (Inr dat), w)) \<and>
    caches_sound E s' \<and> pm_PidMap (px_caches s' ! i) = (pm_PidMap (px_caches s1 ! i))(pid := None) \<and>
    pm_tree (en_tree E) (px_caches s' ! i) (IP_String (ci_Ip inst)) =
      {x \<in> pm_tree (en_tree E) (px_caches s1 ! i) (IP_String (ci_Ip inst)).
         \<not> (ix_Pmin (fst x) = ci_Lport inst \<and> ix_Pmax (fst x) = ci_Rport inst + 1)}"
proof -
  have run: "go_bind (newHandlerUnwrapped E r (Some (preLazyDelete E)) (Some (postInstanceDeletionHandler E)) True)
      respond s = (Ret resp, s')" using assms(4) by (simp add: lazyDeleteInstance_def)
  obtain mr0 s0 mr' m s2 w dat code where h: "newAuth E r True s = (Ret (Some mr0, StatusOK), s0)"
    "preLazyDelete E mr0 s0 = (Ret (mr', m, StatusOK), s2)"
    "en_do E (out_of s2 mr') (px_world s2) = (DoResponse code (Inr dat), w)"
    "postInstanceDeletionHandler E mr' dat code (s2\<lparr>px_world := w\<rparr>) = (Ret (hr_body resp, StatusOK), s')"
    by (rule handler_OK [OF assms(1) run assms(5)]) (simp only: option.case)
  have same: "mr0 = mr" "s0 = s1" using h(1) assms(6) by simp_all
  from preLazyDelete_OK [OF h(2) [unfolded same] assms(7,9,10,8,11)] have
    p: "mr' = lazy_request mr inst" "s2 = s1" "in_charge mr (ci_Ip inst) (ci_Lport inst) (ci_Rport inst)" by simp_all
  let ?s = "s1\<lparr>px_world := w\<rparr>"
  have "caches_sound E ?s" "i < length (px_caches ?s)" using assms(11,12) by (simp_all add: caches_sound_def known_in_def)
  from postDeletion_exact [OF assms(3) this, of "lazy_request mr inst" pid rest dat code "hr_body resp" s'] h(4) p assms(7,8,13-17)
  show ?thesis using h(3) by auto
qed

theorem lazy_delete_exact_witness:
  "\<exists>resp s'. run_handler demo_env LazyDeleteInstance (demo_request ''web'' [''web'']) demo_proxy = (Ret resp, s') \<and>
     hr_status resp = StatusOK \<and> pm_PidMap (px_caches s' ! 0) = Map.empty \<and>
     pm_tree list_tree (px_caches s' ! 0) (dotted 10 0 0 1) = {}"
proof -
  let ?inst = "demo_instance 100 200 ''web''" and ?r = "demo_request ''web'' [''web'']"
  let ?mr = "as_instance (opened demo_proxy ?r (demo_mr ''web'' [''web''])) ?inst"
  have auth: "newAuth demo_env ?r True demo_proxy = (Ret (Some ?mr, StatusOK), demo_proxy)"
    by (rule newAuth_web) (simp add: ascii_def in_byte_def)
  have vals: "mr_vals ?mr = [''web'']" "mr_cache ?mr = Some 0" by (simp_all add: as_instance_def mr_vals_def)
  have p: "ParseIPNew ''web'' = (nil_IP, - 1, - 1, StatusBadRequest)" by (rule ParseIPNew_no_colon) simp
  have known: "known_in demo_proxy 0 ''web'' ?inst" by (simp add: known_in_def demo_known)
  have charge: "in_charge ?mr (ci_Ip ?inst) (ci_Lport ?inst) (ci_Rport ?inst)" by (simp add: in_charge_def as_instance_def)
  have "authz_target (with_target ?mr (ci_Ip ?inst) (ci_Lport ?inst) (ci_Rport ?inst)) demo_proxy =
      (Ret (with_target ?mr (ci_Ip ?inst) (ci_Lport ?inst) (ci_Rport ?inst), StatusOK), demo_proxy)"
    using charge by (subst authz_target_spec) (simp_all add: as_instance_def)
  then have pre: "preLazyDelete demo_env ?mr demo_proxy = (Ret (lazy_request ?mr ?inst, [], StatusOK), demo_proxy)"
    using authzControl_id [OF p _ vals(2) known, of demo_env] vals(1)
    by (simp add: preLazyDelete_def go_bind_def go_nth_def lazy_request_def)
  let ?w = "([out_of demo_proxy (lazy_request ?mr ?inst)], 0) :: demo_world"
  obtain st m w' where del: "DelInstance list_tree demo_conn (IPv4 10 0 0 1) 100 200 ''web'' \<lparr>cs_pmap = demo_pmap, cs_world = ?w\<rparr> =
      (Ret st, \<lparr>cs_pmap = m, cs_world = w'\<rparr>)"
  proof (rule DelInstance_v4 [of "IPv4 10 0 0 1" list_tree demo_conn 100 200 "''web''" "\<lparr>cs_pmap = demo_pmap, cs_world = ?w\<rparr>"])
    fix st m w'
    assume "DelInstance list_tree demo_conn (IPv4 10 0 0 1) 100 200 ''web'' \<lparr>cs_pmap = demo_pmap, cs_world = ?w\<rparr> =
        (Ret st, \<lparr>cs_pmap = demo_pmap, cs_world = ?w\<rparr>\<lparr>cs_pmap := m, cs_world := w'\<rparr>)"
    then show thesis using that by (simp del: out_of_lazy)
  qed simp
  have "newHandler demo_env ?mr (Some (preLazyDelete demo_env)) (Some (postInstanceDeletionHandler demo_env)) demo_proxy =
      (Ret (done_message ''web'', StatusOK), demo_proxy\<lparr>px_caches := [m], px_world := w'\<rparr>)"
    using vals del
    by (simp add: newHandler_def go_bind_def pre forward_def Let_def postInstanceDeletionHandler_def go_nth_def mr_with_cache_def
        with_cache_def out_of_def del: out_of_lazy)
  then obtain resp s' where run: "run_handler demo_env LazyDeleteInstance ?r demo_proxy = (Ret resp, s')" "hr_status resp = StatusOK"
    by (simp add: lazyDeleteInstance_def newHandlerUnwrapped_def go_bind_def auth respond_def)
  have doc: "do_documented demo_env" by (simp add: do_documented_def)
  obtain i where i: "pm_tree list_tree demo_pmap (dotted 10 0 0 1) = {(i, 0)}" "ix_Pmin i = 100" "ix_Pmax i = 201"
    using demo_pmap_tree by auto
  have "pm_PidMap (px_caches s' ! 0) = (pm_PidMap demo_pmap)(''web'' := None) \<and> pm_tree list_tree (px_caches s' ! 0) (dotted 10 0 0 1) =
      {x \<in> {(i, 0)}. \<not> (ix_Pmin (fst x) = 100 \<and> ix_Pmax (fst x) = 201)}"
    using lazy_delete_exact [OF doc demo_has_caches _ run auth vals p _ known] demo_pmap_only i by (simp add: is_port_def)
  with run i show ?thesis by (auto simp: demo_known)
qed

end
