(* ===== verification/RiakSpec.thy ===== *)
theory RiakSpec
  imports Cache
begin

text \<open>
  The Riak store as a net map. An object of the bucket type of the proxy, written by
  PutNetIDMap, holds the credential of a range of ports of an address; the operations of
  riakConn read and write this map. The contract of Riak (with allow\_mult=false, as
  \<open>riak-image/start.sh\<close> creates the bucket type) is a hypothesis; a failed write may or may not
  have been made, a search sees the index, which lags behind the objects, and returns at most ten
  documents, the default of its rows parameter.
\<close>

section \<open>Credentials as bytes and as documents\<close>

definition good_cidr :: "IPNet option \<Rightarrow> bool" where
  "good_cidr c \<longleftrightarrow>
     (case c of None \<Rightarrow> True
      | Some n \<Rightarrow> IPNet_String n \<noteq> [] \<and> valid_utf8 (IPNet_String n) \<and> ParseCIDR (IPNet_String n) = Some n)"

definition good_cred :: "InstanceCred \<Rightarrow> bool" where
  "good_cred c \<longleftrightarrow> ic_Pid c \<noteq> [] \<and> ic_PPid c \<noteq> [] \<and> ic_Type c \<noteq> [] \<and>
     valid_utf8 (ic_Pid c) \<and> valid_utf8 (ic_PPid c) \<and> valid_utf8 (ic_Type c) \<and> good_cidr (ic_Cidr c)"

definition cred_members :: "InstanceCred \<Rightarrow> (string \<times> json) list" where
  "cred_members c =
     [(NETMAP_ID, JStr (ic_Pid c)), (NETMAP_PID, JStr (ic_PPid c)), (NETMAP_CIDR, JStr (cidr_text (ic_Cidr c))),
      (NETMAP_TYPE, JStr (ic_Type c))]"

lemma netmap_names [simp]:
  "NETMAP_ID \<noteq> NETMAP_PID" "NETMAP_ID \<noteq> NETMAP_CIDR" "NETMAP_ID \<noteq> NETMAP_TYPE" "NETMAP_PID \<noteq> NETMAP_CIDR"
  "NETMAP_PID \<noteq> NETMAP_TYPE" "NETMAP_CIDR \<noteq> NETMAP_TYPE" "NETMAP_PID \<noteq> NETMAP_ID" "NETMAP_CIDR \<noteq> NETMAP_ID"
  "NETMAP_TYPE \<noteq> NETMAP_ID" "NETMAP_CIDR \<noteq> NETMAP_PID" "NETMAP_TYPE \<noteq> NETMAP_PID" "NETMAP_TYPE \<noteq> NETMAP_CIDR"
  by (simp_all add: NETMAP_ID_def NETMAP_PID_def NETMAP_CIDR_def NETMAP_TYPE_def)

lemma netmap_names_utf8 [simp]:
  "valid_utf8 NETMAP_ID" "valid_utf8 NETMAP_PID" "valid_utf8 NETMAP_CIDR" "valid_utf8 NETMAP_TYPE"
  by (rule valid_utf8_ascii; simp add: in_byte_def NETMAP_ID_def NETMAP_PID_def NETMAP_CIDR_def NETMAP_TYPE_def)+

lemma parse_cred:
  assumes "good_cred c"
  shows "parse_json (InstanceCred_Bytes c) = Some (JObj (cred_members c))"
proof -
  let ?ms = "[(NETMAP_ID, enc_string (ic_Pid c), JStr (ic_Pid c)), (NETMAP_PID, enc_string (ic_PPid c), JStr (ic_PPid c)),
      (NETMAP_CIDR, enc_string (cidr_text (ic_Cidr c)), JStr (cidr_text (ic_Cidr c))),
      (NETMAP_TYPE, enc_string (ic_Type c), JStr (ic_Type c))]"
  have "\<forall>(n, e, j) \<in> set ?ms. valid_utf8 n \<and> encodes e j"
    using assms by (auto simp: good_cred_def good_cidr_def cidr_text_def encodes_string split: option.splits)
  from parse_json_enc_struct [OF _ this] show ?thesis by (simp add: InstanceCred_Bytes_def cred_members_def)
qed

lemma cred_roundtrip:
  assumes "good_cred c"
  shows "InstanceCredFromBytes (InstanceCred_Bytes c) = Some c"
proof -
  have "dec_NetMapObj (InstanceCred_Bytes c) =
      (\<lparr>nm_Pid = ic_Pid c, nm_PPid = ic_PPid c, nm_Cidr = cidr_text (ic_Cidr c), nm_Type = ic_Type c\<rparr>, True)"
    by (simp add: dec_NetMapObj_def dec_struct_def parse_cred [OF assms] cred_members_def find_field_def upd_NetMapObj_def
        dec_string_def)
  then show ?thesis
    using assms by (auto simp: InstanceCredFromBytes_def good_cred_def good_cidr_def cidr_text_def split: option.splits)
qed

text \<open>The document of an object: bucket and key, and the string members of its value as fields.\<close>

definition is_doc :: "SearchDoc \<Rightarrow> string \<Rightarrow> string \<Rightarrow> string \<Rightarrow> bool" where
  "is_doc d b k v \<longleftrightarrow> sd_Bucket d = b \<and> sd_Key d = k \<and>
     (\<forall>ms f x. parse_json v = Some (JObj ms) \<longrightarrow> f \<in> set search_fields \<longrightarrow> map_of ms f = Some (JStr x) \<longrightarrow>
        (if x \<noteq> [] then sd_Fields d f = Some [x] else sd_Fields d f \<in> {None, Some [], Some [[]]}))"

definition as_CachedInstance :: "IP \<Rightarrow> int \<Rightarrow> int \<Rightarrow> InstanceCred \<Rightarrow> CachedInstance" where
  "as_CachedInstance ip l r c = \<lparr>ci_Ip = ip, ci_Lport = l, ci_Rport = r, ci_ID = c\<rparr>"

lemma as_CachedInstance_simps [simp]:
  "ci_Ip (as_CachedInstance ip l r c) = ip" "ci_ID (as_CachedInstance ip l r c) = c"
  "ci_Lport (as_CachedInstance ip l r c) = l" "ci_Rport (as_CachedInstance ip l r c) = r"
  by (simp_all add: as_CachedInstance_def)

lemma ParseIP_v4 [simp]: "is_v4 ip \<Longrightarrow> ParseIP (IP_String ip) = ip"
  by (auto simp: is_v4_def)

lemma genCachedInstance_doc:
  assumes "is_doc d (IP_String ip) (NetMapKey l r) (InstanceCred_Bytes c)" and "good_cred c" and "is_v4 ip"
    and "is_goint l" and "is_goint r"
  shows "genCachedInstance d = Some (as_CachedInstance ip l r c)"
proof -
  have "sd_Bucket d = IP_String ip" "sd_Key d = NetMapKey l r"
    and "\<forall>ms f x. parse_json (InstanceCred_Bytes c) = Some (JObj ms) \<longrightarrow> f \<in> set search_fields \<longrightarrow> map_of ms f = Some (JStr x) \<longrightarrow>
      (if x \<noteq> [] then sd_Fields d f = Some [x] else sd_Fields d f \<in> {None, Some [], Some [[]]})"
    using assms(1) unfolding is_doc_def by blast+
  then have field: "f \<in> set search_fields \<Longrightarrow> map_of (cred_members c) f = Some (JStr x) \<Longrightarrow>
      (if x \<noteq> [] then sd_Fields d f = Some [x] else sd_Fields d f \<in> {None, Some [], Some [[]]})" for f x
    using parse_cred [OF assms(2)] by blast
  have id: "first_field d NETMAP_ID = Some (ic_Pid c)" and pid: "first_field d NETMAP_PID = Some (ic_PPid c)"
    and ty: "first_field d NETMAP_TYPE = Some (ic_Type c)"
    using field [of NETMAP_ID "ic_Pid c"] field [of NETMAP_PID "ic_PPid c"] field [of NETMAP_TYPE "ic_Type c"] assms(2)
    by (simp_all add: search_fields_def cred_members_def good_cred_def first_field_def)
  have cidr: "(case first_field d NETMAP_CIDR of None \<Rightarrow> None | Some x \<Rightarrow> if x = [] then None else ParseCIDR x) = ic_Cidr c"
    using field [of NETMAP_CIDR "cidr_text (ic_Cidr c)"] assms(2)
    by (auto simp: search_fields_def cred_members_def good_cred_def good_cidr_def cidr_text_def first_field_def split: option.splits)
  have "Sscanf_pair (sd_Key d) = Some (l, r)"
    using Sscanf_pair_int_dec [of l r] assms(4,5) \<open>sd_Key d = _\<close> by (simp add: NetMapKey_def is_goint_def)
  then show ?thesis
    using id pid ty cidr \<open>sd_Bucket d = _\<close> assms(3) by (simp add: genCachedInstance_def as_CachedInstance_def)
qed

section \<open>The contract of Riak\<close>

text \<open>
  The objects, and what the index of Riak Search knows of them. The index follows the objects with a
  delay, and its replicas may lag behind by different amounts: \<open>riak_index\<close> is the set of the versions
  of every object (None: it is not there) that a search may still go by, and a search goes by any
  choice of them.
\<close>

type_synonym riak_objects = "string \<times> string \<times> string \<Rightarrow> string option"

type_synonym riak_index = "string \<times> string \<times> string \<Rightarrow> string option set"

definition index_views :: "riak_index \<Rightarrow> riak_objects set" where
  "index_views S = {v. \<forall>K. v K \<in> S K}"

text \<open>A term of a query that stands for itself.\<close>

definition solr_term :: "string \<Rightarrow> bool" where
  "solr_term s \<longleftrightarrow> s \<noteq> [] \<and> list_all (\<lambda>c. is_digit c \<or> in_byte 65 90 c \<or> in_byte 97 122 c \<or> c = CHR ''_'' \<or> c = CHR ''.'') s"

text \<open>The objects of the bucket type that a query of the proxy matches.\<close>

definition has_id :: "string \<Rightarrow> string \<Rightarrow> bool" where
  "has_id u v \<longleftrightarrow> (\<exists>ms. parse_json v = Some (JObj ms) \<and> map_of ms NETMAP_ID = Some (JStr u))"

definition query_hits :: "riak_objects \<Rightarrow> string \<Rightarrow> (string \<times> string \<times> string) set" where
  "query_hits objs q = {(b, k, v). objs (RIAK_BUCKET_TYPE, b, k) = Some v \<and>
     ((solr_term b \<and> q = net_query QUERY_BUCKET b) \<or> (\<exists>u. solr_term u \<and> q = net_query NETMAP_ID u \<and> has_id u v))}"

definition default_rows :: nat where "default_rows = 10"

text \<open>What a search returns: documents of hits, all of them when they are no more than ten.\<close>

definition answers :: "(string \<times> string \<times> string) set \<Rightarrow> SearchDoc list \<Rightarrow> bool" where
  "answers hits ds \<longleftrightarrow>
     (\<forall>d \<in> set ds. \<exists>(b, k, v) \<in> hits. is_doc d b k v) \<and> length ds \<le> default_rows \<and>
     (finite hits \<and> card hits \<le> default_rows \<longrightarrow> (\<forall>(b, k, v) \<in> hits. \<exists>d \<in> set ds. is_doc d b k v)) \<and>
     (hits \<noteq> {} \<longrightarrow> ds \<noteq> [])"

text \<open>
  The commands: a store and a deletion change one object, and one that failed may have been made;
  a fetch reads the object; a search changes nothing and returns documents of a view of the index.
  Whatever is done, the index only ever gains the version the object has now.
\<close>

definition riak_documented :: "('w, 'z) riak_client_scheme \<Rightarrow> ('w \<Rightarrow> riak_objects) \<Rightarrow> ('w \<Rightarrow> riak_index) \<Rightarrow> bool" where
  "riak_documented R objs idx \<longleftrightarrow>
     (\<forall>w K. objs w K \<in> idx w K) \<and>
     (\<forall>c w r w' K. run_cmd R c w = (r, w') \<longrightarrow> idx w' K \<subseteq> insert (objs w' K) (idx w K)) \<and>
     (\<forall>ob w r w'. run_cmd R (StoreValue ob) w = (r, w') \<longrightarrow>
        objs w' = (objs w)((ro_BucketType ob, ro_Bucket ob, ro_Key ob) \<mapsto> ro_Value ob) \<or> r = None \<and> objs w' = objs w) \<and>
     (\<forall>t b k w r w'. run_cmd R (DeleteValue t b k) w = (r, w') \<longrightarrow>
        objs w' = (objs w)((t, b, k) := None) \<or> r = None \<and> objs w' = objs w) \<and>
     (\<forall>t b k w r w'. run_cmd R (FetchValue t b k) w = (r, w') \<longrightarrow> objs w' = objs w \<and>
        (r = None \<or> r = Some (RespValues (case objs w (t, b, k) of None \<Rightarrow> [] | Some v \<Rightarrow> [v])))) \<and>
     (\<forall>q w r w'. run_cmd R (Search RIAK_INDEX_NAME q search_fields) w = (r, w') \<longrightarrow> objs w' = objs w \<and>
        (r = None \<or> (\<exists>ds. r = Some (RespDocs ds) \<and>
           ((\<exists>b. solr_term b \<and> q = net_query QUERY_BUCKET b) \<or> (\<exists>u. solr_term u \<and> q = net_query NETMAP_ID u) \<longrightarrow>
              (\<exists>v \<in> index_views (idx w). answers (query_hits v q) ds)))))"

text \<open>The index has caught up with the objects; time passes, while nobody writes.\<close>

definition caught_up :: "('w \<Rightarrow> riak_objects) \<Rightarrow> ('w \<Rightarrow> riak_index) \<Rightarrow> 'w \<Rightarrow> bool" where
  "caught_up objs idx w \<longleftrightarrow> (\<forall>K. idx w K = {objs w K})"

definition settles :: "('w \<Rightarrow> riak_objects) \<Rightarrow> ('w \<Rightarrow> riak_index) \<Rightarrow> 'w \<Rightarrow> 'w \<Rightarrow> bool" where
  "settles objs idx w w' \<longleftrightarrow> objs w' = objs w \<and> (\<forall>K. objs w' K \<in> idx w' K \<and> idx w' K \<subseteq> idx w K)"

lemma caught_up_views: "caught_up objs idx w \<Longrightarrow> index_views (idx w) = {objs w}"
  by (auto simp: caught_up_def index_views_def fun_eq_iff)

section \<open>The net map\<close>

text \<open>The abstract state: the credential of a range of an address. Only the proxies write the bucket type.\<close>

type_synonym netmap = "string \<Rightarrow> int \<Rightarrow> int \<Rightarrow> InstanceCred option"

definition net_abs :: "riak_objects \<Rightarrow> netmap" where
  "net_abs objs b l r = (case objs (RIAK_BUCKET_TYPE, b, NetMapKey l r) of None \<Rightarrow> None | Some v \<Rightarrow> InstanceCredFromBytes v)"

definition net_put :: "netmap \<Rightarrow> string \<Rightarrow> int \<Rightarrow> int \<Rightarrow> InstanceCred option \<Rightarrow> netmap" where
  "net_put n b l r c = (\<lambda>b' l' r'. if b' = b \<and> l' = l \<and> r' = r then c else n b' l' r')"

definition net_wf :: "riak_objects \<Rightarrow> bool" where
  "net_wf objs \<longleftrightarrow> (\<forall>b k v. objs (RIAK_BUCKET_TYPE, b, k) = Some v \<longrightarrow>
     (\<exists>ip l r c. is_v4 ip \<and> b = IP_String ip \<and> is_goint l \<and> is_goint r \<and> k = NetMapKey l r \<and>
        good_cred c \<and> v = InstanceCred_Bytes c))"

text \<open>The views of an index that has gained only versions of the objects.\<close>

definition catching_up :: "netmap \<Rightarrow> netmap set \<Rightarrow> netmap set \<Rightarrow> bool" where
  "catching_up n V V' \<longleftrightarrow> n \<in> V' \<and> (\<forall>v' \<in> V'. \<exists>v \<in> V. \<forall>b l r. v' b l r = v b l r \<or> v' b l r = n b l r)"

definition index_wf :: "riak_index \<Rightarrow> bool" where
  "index_wf S \<longleftrightarrow> (\<forall>v \<in> index_views S. net_wf v)"

lemma index_view_split:
  assumes "v' \<in> index_views S'" and "\<And>K. S' K \<subseteq> insert (n K) (S K)" and "ob \<in> index_views S"
  obtains v where "v \<in> index_views S" and "\<And>K. v' K = v K \<or> v' K = n K"
proof
  let ?v = "\<lambda>K. if v' K \<in> S K then v' K else ob K"
  show "?v \<in> index_views S" using assms(3) by (simp add: index_views_def)
  show "v' K = ?v K \<or> v' K = n K" for K
  proof -
    have "v' K \<in> S' K" using assms(1) unfolding index_views_def by blast
    with assms(2) [of K] show ?thesis by auto
  qed
qed

lemma index_wf_step:
  assumes "index_wf S" and "\<And>K. S' K \<subseteq> insert (n K) (S K)" and "ob \<in> index_views S" and "net_wf n"
  shows "index_wf S'"
  unfolding index_wf_def
proof
  fix v' assume "v' \<in> index_views S'"
  then obtain v where v: "v \<in> index_views S" "\<And>K. v' K = v K \<or> v' K = n K" using index_view_split assms(2,3) by blast
  from v(1) assms(1) have "net_wf v" by (simp add: index_wf_def)
  with assms(4) v(2) show "net_wf v'" unfolding net_wf_def by metis
qed

lemma catching_up_views:
  assumes "\<And>K. S' K \<subseteq> insert (n K) (S K)" and "ob \<in> index_views S" and "n \<in> index_views S'"
  shows "catching_up (net_abs n) (net_abs ` index_views S) (net_abs ` index_views S')"
  unfolding catching_up_def
proof (intro conjI ballI)
  fix m assume "m \<in> net_abs ` index_views S'"
  then obtain v' where m: "m = net_abs v'" "v' \<in> index_views S'" by blast
  from index_view_split [OF m(2) assms(1,2)] obtain v where v: "v \<in> index_views S" "\<And>K. v' K = v K \<or> v' K = n K" by blast
  have "m b l r = net_abs v b l r \<or> m b l r = net_abs n b l r" for b l r
    using v(2) [of "(RIAK_BUCKET_TYPE, b, NetMapKey l r)"] by (auto simp: m net_abs_def)
  with v(1) show "\<exists>v \<in> net_abs ` index_views S. \<forall>b l r. m b l r = v b l r \<or> m b l r = net_abs n b l r" by blast
qed (use assms(3) in blast)

text \<open>An instance the net map holds.\<close>

definition net_instance :: "netmap \<Rightarrow> CachedInstance \<Rightarrow> bool" where
  "net_instance n i \<longleftrightarrow> is_v4 (ci_Ip i) \<and> is_goint (ci_Lport i) \<and> is_goint (ci_Rport i) \<and>
     n (IP_String (ci_Ip i)) (ci_Lport i) (ci_Rport i) = Some (ci_ID i)"

lemma IP_String_inj:
  assumes "is_v4 a" and "is_v4 b" and "IP_String a = IP_String b"
  shows "a = b"
proof -
  have "a = ParseIP (IP_String a)" by (rule ParseIP_v4 [OF assms(1), symmetric])
  also have "\<dots> = b" unfolding assms(3) by (rule ParseIP_v4 [OF assms(2)])
  finally show ?thesis .
qed

lemma int_dec_inj: "int_dec a = int_dec b \<Longrightarrow> a = b"
proof -
  have minus: "CHR ''-'' # x \<noteq> nat_dec n" for x n
    using set_nat_dec [of "CHR ''-''" n] by (metis list.set_intros(1) not_digits(1))
  show "int_dec a = int_dec b \<Longrightarrow> a = b"
    using minus minus [symmetric] by (auto simp: int_dec_def split: if_splits)
qed

lemma no_colon_int_dec: "CHR '':'' \<notin> set (int_dec a)"
  by (auto simp: int_dec_def is_digit_def dest!: set_nat_dec)

lemma NetMapKey_eq: "NetMapKey l r = NetMapKey l' r' \<longleftrightarrow> l = l' \<and> r = r'"
proof
  assume "NetMapKey l r = NetMapKey l' r'"
  then have eq: "int_dec l @ CHR '':'' # int_dec r = int_dec l' @ CHR '':'' # int_dec r'" by (simp add: NetMapKey_def)
  have cut: "takeWhile (\<lambda>c. c \<noteq> CHR '':'') (int_dec l @ CHR '':'' # int_dec r) = int_dec l" for l r
    using no_colon_int_dec [of l] by (subst takeWhile_append2) auto
  from eq have "int_dec l = int_dec l'" by (metis cut)
  with eq show "l = l' \<and> r = r'" by (auto dest: int_dec_inj)
qed simp

lemma net_abs_put:
  "net_abs (objs((RIAK_BUCKET_TYPE, b, NetMapKey l r) := x)) =
   net_put (net_abs objs) b l r (case x of None \<Rightarrow> None | Some v \<Rightarrow> InstanceCredFromBytes v)"
  by (intro ext) (simp add: net_abs_def net_put_def NetMapKey_eq)

lemma net_wf_store:
  "net_wf objs \<Longrightarrow> is_v4 ip \<Longrightarrow> is_goint l \<Longrightarrow> is_goint r \<Longrightarrow> good_cred c \<Longrightarrow>
   net_wf (objs((RIAK_BUCKET_TYPE, IP_String ip, NetMapKey l r) \<mapsto> InstanceCred_Bytes c))"
  unfolding net_wf_def by auto

lemma net_wf_delete: "net_wf objs \<Longrightarrow> net_wf (objs(k := None))"
  unfolding net_wf_def by (cases k) auto

text \<open>What a hit of a query is, in a well-formed store.\<close>

lemma hit_instance:
  assumes "net_wf objs" and "objs (RIAK_BUCKET_TYPE, b, k) = Some v" and "is_doc d b k v"
  obtains i where "genCachedInstance d = Some i" "net_instance (net_abs objs) i" "b = IP_String (ci_Ip i)"
    "k = NetMapKey (ci_Lport i) (ci_Rport i)" "v = InstanceCred_Bytes (ci_ID i)" "good_cred (ci_ID i)"
proof -
  from assms(1,2) obtain ip l r c where o: "is_v4 ip" "b = IP_String ip" "is_goint l" "is_goint r" "k = NetMapKey l r"
    "good_cred c" "v = InstanceCred_Bytes c" unfolding net_wf_def by blast
  have "genCachedInstance d = Some (as_CachedInstance ip l r c)"
    using genCachedInstance_doc [OF _ o(6,1,3,4)] assms(3) o by simp
  moreover have "net_abs objs (IP_String ip) l r = Some c"
    using assms(2) o by (simp add: net_abs_def cred_roundtrip)
  ultimately show ?thesis using o by (intro that [of "as_CachedInstance ip l r c"]) (simp_all add: net_instance_def)
qed

lemma has_id_cred: "good_cred c \<Longrightarrow> has_id u (InstanceCred_Bytes c) \<longleftrightarrow> ic_Pid c = u"
  by (simp add: has_id_def parse_cred cred_members_def)

lemma solr_term_v4: "is_v4 ip \<Longrightarrow> solr_term (IP_String ip)"
  by (auto simp: is_v4_def solr_term_def dotted_def list_all_iff dest: set_nat_dec)

lemma net_query_inj [simp]: "net_query f u = net_query f v \<longleftrightarrow> u = v"
  by (simp add: net_query_def)

lemma net_query_fields [simp]: "net_query QUERY_BUCKET u \<noteq> net_query NETMAP_ID v" "net_query NETMAP_ID v \<noteq> net_query QUERY_BUCKET u"
  by (simp_all add: net_query_def QUERY_BUCKET_def NETMAP_ID_def)

lemma gen_instances_set: "set (gen_instances ds) = {i. \<exists>d \<in> set ds. genCachedInstance d = Some i}"
  by (induction ds) (auto split: option.splits)

text \<open>The instances made from the answer to a query are hits, and there are some when there is a hit.\<close>

lemma answers_instances:
  assumes wf: "net_wf objs" and ans: "answers (query_hits objs q) ds"
  shows "i \<in> set (gen_instances ds) \<Longrightarrow>
      net_instance (net_abs objs) i \<and> (IP_String (ci_Ip i), NetMapKey (ci_Lport i) (ci_Rport i), InstanceCred_Bytes (ci_ID i)) \<in> query_hits objs q \<and>
        good_cred (ci_ID i)"
    and "query_hits objs q \<noteq> {} \<Longrightarrow> gen_instances ds \<noteq> []"
proof -
  have docs: "\<exists>i. genCachedInstance d = Some i \<and> net_instance (net_abs objs) i \<and> good_cred (ci_ID i) \<and>
      (IP_String (ci_Ip i), NetMapKey (ci_Lport i) (ci_Rport i), InstanceCred_Bytes (ci_ID i)) \<in> query_hits objs q"
    if "d \<in> set ds" for d
  proof -
    from ans that obtain b k v where hit: "(b, k, v) \<in> query_hits objs q" and d: "is_doc d b k v"
      unfolding answers_def by blast
    then have "objs (RIAK_BUCKET_TYPE, b, k) = Some v" by (simp add: query_hits_def)
    from hit_instance [OF wf this d] hit show ?thesis by metis
  qed
  show "net_instance (net_abs objs) i \<and> (IP_String (ci_Ip i), NetMapKey (ci_Lport i) (ci_Rport i), InstanceCred_Bytes (ci_ID i)) \<in> query_hits objs q \<and>
      good_cred (ci_ID i)" if "i \<in> set (gen_instances ds)"
    using that docs unfolding gen_instances_set by fastforce
  show "gen_instances ds \<noteq> []" if "query_hits objs q \<noteq> {}"
  proof -
    have "ds \<noteq> []" using ans that unfolding answers_def by blast
    then have "hd ds \<in> set ds" by simp
    from docs [OF this] \<open>hd ds \<in> set ds\<close> have "set (gen_instances ds) \<noteq> {}" unfolding gen_instances_set by blast
    then show ?thesis by auto
  qed
qed

end
