(* ===== verification/RiakRefine.thy ===== *)
theory RiakRefine
  imports RiakSpec
begin

text \<open>
  riakConn implements a net map over any Riak that keeps its contract, and therefore what one
  worker registers another worker finds, each in front of its own cache, as soon as the index of
  Riak Search shows it.
\<close>

section \<open>The interface of a net map\<close>

text \<open>
  \<open>net\<close> is the map itself, which puts, deletions and gets are about; \<open>seen\<close> are the maps that a
  search may answer from, which follow it with a delay. \<open>up\<close>: the backend answers every command.
\<close>

locale netmap_store =
  fixes conn :: "'w RiakConn" and inv :: "'w \<Rightarrow> bool" and net :: "'w \<Rightarrow> netmap" and seen :: "'w \<Rightarrow> netmap set" and up :: bool
  assumes current: "inv w \<Longrightarrow> net w \<in> seen w"
    and put: "inv w \<Longrightarrow> is_v4 ip \<Longrightarrow> is_goint l \<Longrightarrow> is_goint r \<Longrightarrow> good_cred c \<Longrightarrow>
      rc_PutNetIDMap conn ip l r c w = (ok, w') \<Longrightarrow>
      inv w' \<and> catching_up (net w') (seen w) (seen w') \<and>
      (net w' = net_put (net w) (IP_String ip) l r (Some c) \<or> \<not> ok \<and> net w' = net w)"
    and del: "inv w \<Longrightarrow> rc_DelNetIDMap conn ip l r w = (ok, w') \<Longrightarrow>
      inv w' \<and> catching_up (net w') (seen w) (seen w') \<and>
      (net w' = net_put (net w) (IP_String ip) l r None \<or> \<not> ok \<and> net w' = net w)"
    and get: "inv w \<Longrightarrow> rc_GetNetIDMap conn ip l r w = (cred, w') \<Longrightarrow>
      inv w' \<and> net w' = net w \<and> (cred = None \<or> cred = Some (net w (IP_String ip) l r))"
    and all: "inv w \<Longrightarrow> is_v4 ip \<Longrightarrow> rc_GetAllNetID conn ip w = (ra, w') \<Longrightarrow>
      inv w' \<and> net w' = net w \<and> (up \<longrightarrow> ra \<noteq> None) \<and>
      (\<forall>insts. ra = Some insts \<longrightarrow> (\<exists>v \<in> seen w. \<forall>i \<in> set insts. net_instance v i \<and> ci_Ip i = ip))"
    and ids: "inv w \<Longrightarrow> solr_term u \<Longrightarrow> rc_SearchIDNet conn u w = (res, w') \<Longrightarrow>
      inv w' \<and> net w' = net w \<and> (up \<longrightarrow> res \<noteq> None) \<and>
      (\<forall>insts. res = Some insts \<longrightarrow> (\<exists>v \<in> seen w. (\<forall>i \<in> set insts. net_instance v i \<and> ic_Pid (ci_ID i) = u) \<and>
         ((\<exists>i. net_instance v i \<and> ic_Pid (ci_ID i) = u) \<longrightarrow> insts \<noteq> [])))"
begin

text \<open>A reload of an address the net map knows.\<close>

lemma reload_returns:
  assumes "inv w" and "is_v4 ip" and "reloadCache T conn ip \<lparr>cs_pmap = m, cs_world = w\<rparr> = (out, s')"
  shows "out = Ret StatusOK \<or> out = Ret StatusInternalServerError \<and> \<not> up"
proof -
  obtain res w' where q: "rc_GetAllNetID conn ip w = (res, w')" by fastforce
  note law = all [OF assms(1,2) q]
  show ?thesis
  proof (cases res)
    case None
    with q law assms(3) show ?thesis by (auto simp: reloadCache_def)
  next
    case (Some insts)
    with law have "\<forall>i \<in> set insts. is_v4 (ci_Ip i)" using assms(2) by auto
    then have "fst (put_all T insts m) = Ret ()" by (rule put_all_v4)
    then obtain m' where "put_all T insts m = (Ret (), m')" by (cases "put_all T insts m") auto
    with Some q assms(3) show ?thesis by (auto simp: reloadCache_def on_pmap_def go_bind_def)
  qed
qed

text \<open>
  A lookup of an id that every view has at most as one instance, by a cache that does not know it:
  that instance; or none, when a search may still miss it.
\<close>

lemma found_by_id:
  assumes "inv w" and "solr_term u" and "pm_PidMap m u = None"
    and uniq: "\<And>v j. v \<in> seen w \<Longrightarrow> net_instance v j \<Longrightarrow> ic_Pid (ci_ID j) = u \<Longrightarrow> j = inst"
  shows "\<exists>found st s'. GetInstanceFromID T conn u \<lparr>cs_pmap = m, cs_world = w\<rparr> = (Ret (found, st), s') \<and>
    (found = Some inst \<and> st = StatusOK \<or>
     found = None \<and> st = StatusNotFound \<and> (\<exists>v \<in> seen w. \<forall>j. net_instance v j \<longrightarrow> ic_Pid (ci_ID j) \<noteq> u) \<or>
     found = None \<and> st = StatusInternalServerError \<and> \<not> up)"
proof -
  let ?s = "\<lparr>cs_pmap = m, cs_world = w\<rparr>"
  obtain res w' where q: "rc_SearchIDNet conn u w = (res, w')" by fastforce
  note law = ids [OF assms(1,2) q]
  have miss: "GetCachedInstance m u = None" by (simp add: GetCachedInstance_def assms(3))
  show ?thesis
  proof (cases res)
    case None
    with q law miss have "GetInstanceFromID T conn u ?s = (Ret (None, StatusInternalServerError), ?s\<lparr>cs_world := w'\<rparr>)" "\<not> up"
      by (auto simp: GetInstanceFromID_def reloadUUID_def go_bind_def)
    then show ?thesis by blast
  next
    case (Some insts)
    with law obtain v where v: "v \<in> seen w" "\<forall>i \<in> set insts. net_instance v i \<and> ic_Pid (ci_ID i) = u"
      "(\<exists>i. net_instance v i \<and> ic_Pid (ci_ID i) = u) \<longrightarrow> insts \<noteq> []" by blast
    show ?thesis
    proof (cases insts)
      case Nil
      with Some q miss have "GetInstanceFromID T conn u ?s = (Ret (None, StatusNotFound), ?s\<lparr>cs_world := w'\<rparr>)"
        by (simp add: GetInstanceFromID_def reloadUUID_def go_bind_def)
      with v Nil show ?thesis by blast
    next
      case (Cons i rest)
      with v uniq have i: "i = inst" "net_instance v inst" by auto
      obtain out s' where re: "reloadCache T conn (ci_Ip inst) \<lparr>cs_pmap = m, cs_world = w'\<rparr> = (out, s')" by fastforce
      have "is_v4 (ci_Ip inst)" using i(2) by (simp add: net_instance_def)
      with reload_returns [OF _ this re] law obtain st where
        st: "out = Ret st" "st = StatusOK \<or> st = StatusInternalServerError \<and> \<not> up" by blast
      then have "GetInstanceFromID T conn u ?s = (Ret (if st = StatusOK then Some inst else None, st), s')"
        using q Some Cons i miss re by (simp add: GetInstanceFromID_def reloadUUID_def go_bind_def)
      with st(2) show ?thesis by auto
    qed
  qed
qed

text \<open>After a registration, and while the searches catch up, no view has another instance of the id.\<close>

lemma registered_unique:
  assumes "inv w" and "is_v4 (ci_Ip inst)" and "is_goint (ci_Lport inst)" and "is_goint (ci_Rport inst)"
    and "good_cred (ci_ID inst)"
    and before: "\<And>v j. v \<in> seen w \<Longrightarrow> net_instance v j \<Longrightarrow> ic_Pid (ci_ID j) = ic_Pid (ci_ID inst) \<Longrightarrow> j = inst"
    and "rc_PutNetIDMap conn (ci_Ip inst) (ci_Lport inst) (ci_Rport inst) (ci_ID inst) w = (True, w1)"
    and v: "v \<in> seen w1" "net_instance v j" "ic_Pid (ci_ID j) = ic_Pid (ci_ID inst)"
  shows "j = inst"
proof -
  let ?b = "IP_String (ci_Ip inst)"
  from put [OF assms(1-5,7)] have law: "catching_up (net w1) (seen w) (seen w1)"
    "net w1 = net_put (net w) ?b (ci_Lport inst) (ci_Rport inst) (Some (ci_ID inst))" by blast+
  from law(1) v(1) obtain v0 where v0: "v0 \<in> seen w" "\<And>b l r. v b l r = v0 b l r \<or> v b l r = net w1 b l r"
    unfolding catching_up_def by blast
  let ?j = "IP_String (ci_Ip j)"
  from v0(2) [of ?j "ci_Lport j" "ci_Rport j"] v(2)
  consider "net_instance v0 j" | "net_instance (net w1) j" by (auto simp: net_instance_def)
  then show ?thesis
  proof cases
    case 1
    from before [OF v0(1) this v(3)] show ?thesis .
  next
    case 2
    show ?thesis
    proof (cases "?j = ?b \<and> ci_Lport j = ci_Lport inst \<and> ci_Rport j = ci_Rport inst")
      case True
      with 2 have "ci_ID j = ci_ID inst" "is_v4 (ci_Ip j)" by (simp_all add: net_instance_def law(2) net_put_def)
      moreover from this True have "ci_Ip j = ci_Ip inst" using IP_String_inj [OF _ assms(2)] by blast
      ultimately show ?thesis using True by simp
    next
      case False
      with 2 have "net_instance (net w) j" by (auto simp: net_instance_def law(2) net_put_def)
      from before [OF current [OF assms(1)] this v(3)] show ?thesis .
    qed
  qed
qed

end

section \<open>riakConn is a net map\<close>

definition riak_up :: "('w, 'z) riak_client_scheme \<Rightarrow> bool" where
  "riak_up R \<longleftrightarrow> (\<forall>c w. fst (run_cmd R c w) \<noteq> None)"

definition riak_inv :: "('w, 'z) riak_client_scheme \<Rightarrow> ('w \<Rightarrow> riak_objects) \<Rightarrow> ('w \<Rightarrow> riak_index) \<Rightarrow> 'w \<Rightarrow> bool" where
  "riak_inv R objs idx w \<longleftrightarrow> riak_documented R objs idx \<and> index_wf (idx w)"

lemma documentedD:
  assumes "riak_documented R objs idx"
  shows "objs w \<in> index_views (idx w)"
    and "run_cmd R c w = (r, w') \<Longrightarrow> idx w' K \<subseteq> insert (objs w' K) (idx w K)"
    and "run_cmd R (StoreValue ob) w = (r, w') \<Longrightarrow>
      objs w' = (objs w)((ro_BucketType ob, ro_Bucket ob, ro_Key ob) \<mapsto> ro_Value ob) \<or> r = None \<and> objs w' = objs w"
    and "run_cmd R (DeleteValue t b k) w = (r, w') \<Longrightarrow> objs w' = (objs w)((t, b, k) := None) \<or> r = None \<and> objs w' = objs w"
    and "run_cmd R (FetchValue t b k) w = (r, w') \<Longrightarrow> objs w' = objs w \<and>
      (r = None \<or> r = Some (RespValues (case objs w (t, b, k) of None \<Rightarrow> [] | Some v \<Rightarrow> [v])))"
    and "run_cmd R (Search RIAK_INDEX_NAME q search_fields) w = (r, w') \<Longrightarrow> objs w' = objs w \<and>
      (r = None \<or> (\<exists>ds. r = Some (RespDocs ds) \<and>
        ((\<exists>b. solr_term b \<and> q = net_query QUERY_BUCKET b) \<or> (\<exists>u. solr_term u \<and> q = net_query NETMAP_ID u) \<longrightarrow>
           (\<exists>v \<in> index_views (idx w). answers (query_hits v q) ds))))"
proof -
  note doc = assms [unfolded riak_documented_def]
  show "objs w \<in> index_views (idx w)" using doc [THEN conjunct1] by (simp add: index_views_def)
  note doc = doc [THEN conjunct2]
  show "run_cmd R c w = (r, w') \<Longrightarrow> idx w' K \<subseteq> insert (objs w' K) (idx w K)"
    by (rule doc [THEN conjunct1, rule_format])
  note doc = doc [THEN conjunct2]
  show "run_cmd R (StoreValue ob) w = (r, w') \<Longrightarrow>
      objs w' = (objs w)((ro_BucketType ob, ro_Bucket ob, ro_Key ob) \<mapsto> ro_Value ob) \<or> r = None \<and> objs w' = objs w"
    by (rule doc [THEN conjunct1, rule_format])
  note doc = doc [THEN conjunct2]
  show "run_cmd R (DeleteValue t b k) w = (r, w') \<Longrightarrow> objs w' = (objs w)((t, b, k) := None) \<or> r = None \<and> objs w' = objs w"
    by (rule doc [THEN conjunct1, rule_format])
  note doc = doc [THEN conjunct2]
  show "run_cmd R (FetchValue t b k) w = (r, w') \<Longrightarrow> objs w' = objs w \<and>
      (r = None \<or> r = Some (RespValues (case objs w (t, b, k) of None \<Rightarrow> [] | Some v \<Rightarrow> [v])))"
    by (rule doc [THEN conjunct1, THEN spec, THEN spec, THEN spec, THEN spec, THEN spec, THEN spec, THEN mp])
  show "run_cmd R (Search RIAK_INDEX_NAME q search_fields) w = (r, w') \<Longrightarrow> objs w' = objs w \<and>
      (r = None \<or> (\<exists>ds. r = Some (RespDocs ds) \<and>
        ((\<exists>b. solr_term b \<and> q = net_query QUERY_BUCKET b) \<or> (\<exists>u. solr_term u \<and> q = net_query NETMAP_ID u) \<longrightarrow>
           (\<exists>v \<in> index_views (idx w). answers (query_hits v q) ds))))"
    by (rule doc [THEN conjunct2, THEN spec, THEN spec, THEN spec, THEN spec, THEN mp])
qed

text \<open>What every command keeps.\<close>

lemma riak_inv_objs: "riak_inv R objs idx w \<Longrightarrow> net_wf (objs w)"
  using documentedD(1) [of R objs idx w] unfolding riak_inv_def index_wf_def by blast

lemma riak_inv_step:
  assumes "riak_inv R objs idx w" and "run_cmd R c w = (r, w')" and "net_wf (objs w')"
  shows "riak_inv R objs idx w' \<and>
    catching_up (net_abs (objs w')) (net_abs ` index_views (idx w)) (net_abs ` index_views (idx w'))"
proof -
  have doc: "riak_documented R objs idx" and wf: "index_wf (idx w)" using assms(1) by (simp_all add: riak_inv_def)
  note lag = documentedD(2) [OF doc assms(2)]
  from index_wf_step [OF wf lag documentedD(1) [OF doc] assms(3)]
    catching_up_views [OF lag documentedD(1) [OF doc] documentedD(1) [OF doc]] doc
  show ?thesis by (simp add: riak_inv_def)
qed

lemma riak_inv_settles: "riak_inv R objs idx w \<Longrightarrow> settles objs idx w w' \<Longrightarrow> riak_inv R objs idx w'"
  unfolding riak_inv_def settles_def index_wf_def index_views_def by blast

lemma riak_inv_search: "riak_inv R objs idx w \<Longrightarrow> run_cmd R c w = (r, w') \<Longrightarrow> objs w' = objs w \<Longrightarrow> riak_inv R objs idx w'"
  using riak_inv_step riak_inv_objs by metis

text \<open>The two queries, from their answers.\<close>

lemma all_law:
  assumes "riak_inv R objs idx w" and "is_v4 ip" and "GetAllNetID R ip w = (res, w')"
  shows "riak_inv R objs idx w' \<and> objs w' = objs w \<and> (riak_up R \<longrightarrow> res \<noteq> None) \<and>
    (\<forall>insts. res = Some insts \<longrightarrow> (\<exists>v \<in> index_views (idx w). \<exists>ds. net_wf v \<and> insts = gen_instances ds \<and>
       answers (query_hits v (net_query QUERY_BUCKET (IP_String ip))) ds \<and>
       (\<forall>i \<in> set insts. net_instance (net_abs v) i \<and> ci_Ip i = ip)))"
proof -
  let ?q = "net_query QUERY_BUCKET (IP_String ip)"
  have doc: "riak_documented R objs idx" and wf: "index_wf (idx w)" using assms(1) by (simp_all add: riak_inv_def)
  obtain r w1 where run: "run_cmd R (Search RIAK_INDEX_NAME ?q search_fields) w = (r, w1)" by fastforce
  from documentedD(6) [OF doc run] solr_term_v4 [OF assms(2)] have law: "objs w1 = objs w"
    "r = None \<or> (\<exists>ds. r = Some (RespDocs ds) \<and> (\<exists>v \<in> index_views (idx w). answers (query_hits v ?q) ds))" by blast+
  have w1: "w' = w1" using assms(3) run by (auto simp: GetAllNetID_def split: option.splits riak_resp.splits)
  have "riak_up R \<Longrightarrow> res \<noteq> None"
    using assms(3) run law(2) by (auto simp: GetAllNetID_def riak_up_def) (metis fst_conv option.distinct(1))
  moreover have "\<exists>v \<in> index_views (idx w). \<exists>ds. net_wf v \<and> insts = gen_instances ds \<and> answers (query_hits v ?q) ds \<and>
      (\<forall>i \<in> set insts. net_instance (net_abs v) i \<and> ci_Ip i = ip)" if "res = Some insts" for insts
  proof -
    from that assms(3) run law(2) obtain ds v where v: "v \<in> index_views (idx w)" "answers (query_hits v ?q) ds" "insts = gen_instances ds"
      by (auto simp: GetAllNetID_def)
    from v(1) wf have wfv: "net_wf v" by (simp add: index_wf_def)
    have "net_instance (net_abs v) i \<and> ci_Ip i = ip" if "i \<in> set insts" for i
    proof -
      from that v(3) have "i \<in> set (gen_instances ds)" by simp
      from answers_instances(1) [OF wfv v(2) this] have "net_instance (net_abs v) i" "IP_String (ci_Ip i) = IP_String ip"
        by (auto simp: query_hits_def)
      then show ?thesis using IP_String_inj [OF _ assms(2)] by (auto simp: net_instance_def)
    qed
    with v wfv show ?thesis by blast
  qed
  ultimately show ?thesis using riak_inv_search [OF assms(1) run law(1)] law(1) w1 by blast
qed

lemma ids_law:
  assumes "riak_inv R objs idx w" and "solr_term u" and "SearchIDNet R u w = (res, w')"
  shows "riak_inv R objs idx w' \<and> objs w' = objs w \<and> (riak_up R \<longrightarrow> res \<noteq> None) \<and>
    (\<forall>insts. res = Some insts \<longrightarrow> (\<exists>v \<in> index_views (idx w).
       (\<forall>i \<in> set insts. net_instance (net_abs v) i \<and> ic_Pid (ci_ID i) = u) \<and>
       ((\<exists>i. net_instance (net_abs v) i \<and> ic_Pid (ci_ID i) = u) \<longrightarrow> insts \<noteq> [])))"
proof -
  let ?q = "net_query NETMAP_ID u"
  have doc: "riak_documented R objs idx" and wf: "index_wf (idx w)" using assms(1) by (simp_all add: riak_inv_def)
  obtain r w1 where run: "run_cmd R (Search RIAK_INDEX_NAME ?q search_fields) w = (r, w1)" by fastforce
  from documentedD(6) [OF doc run] assms(2) have law: "objs w1 = objs w"
    "r = None \<or> (\<exists>ds. r = Some (RespDocs ds) \<and> (\<exists>v \<in> index_views (idx w). answers (query_hits v ?q) ds))" by blast+
  have w1: "w' = w1" using assms(3) run by (auto simp: SearchIDNet_def split: option.splits riak_resp.splits)
  have "riak_up R \<Longrightarrow> res \<noteq> None"
    using assms(3) run law(2) by (auto simp: SearchIDNet_def riak_up_def) (metis fst_conv option.distinct(1))
  moreover have "\<exists>v \<in> index_views (idx w). (\<forall>i \<in> set insts. net_instance (net_abs v) i \<and> ic_Pid (ci_ID i) = u) \<and>
      ((\<exists>i. net_instance (net_abs v) i \<and> ic_Pid (ci_ID i) = u) \<longrightarrow> insts \<noteq> [])" if "res = Some insts" for insts
  proof -
    from that assms(3) run law(2) obtain ds v where v: "v \<in> index_views (idx w)" "answers (query_hits v ?q) ds" "insts = gen_instances ds"
      by (auto simp: SearchIDNet_def)
    from v(1) wf have wfv: "net_wf v" by (simp add: index_wf_def)
    have "net_instance (net_abs v) i \<and> ic_Pid (ci_ID i) = u" if "i \<in> set insts" for i
    proof -
      have "i \<in> set (gen_instances ds)" using that v(3) by simp
      from answers_instances(1) [OF wfv v(2) this] show ?thesis by (auto simp: query_hits_def has_id_cred)
    qed
    moreover have "insts \<noteq> []" if i: "net_instance (net_abs v) i" "ic_Pid (ci_ID i) = u" for i
    proof -
      from i(1) obtain x where x: "v (RIAK_BUCKET_TYPE, IP_String (ci_Ip i), NetMapKey (ci_Lport i) (ci_Rport i)) = Some x"
        "InstanceCredFromBytes x = Some (ci_ID i)" by (auto simp: net_instance_def net_abs_def split: option.splits)
      from wfv x(1) obtain c where "good_cred c" "x = InstanceCred_Bytes c" unfolding net_wf_def by blast
      with x(2) i(2) have "has_id u x" by (simp add: cred_roundtrip has_id_cred)
      with x(1) assms(2) have "(IP_String (ci_Ip i), NetMapKey (ci_Lport i) (ci_Rport i), x) \<in> query_hits v ?q"
        by (auto simp: query_hits_def)
      then have "query_hits v ?q \<noteq> {}" by blast
      from answers_instances(2) [OF wfv v(2) this] v(3) show ?thesis by simp
    qed
    ultimately show ?thesis using v(1) by blast
  qed
  ultimately show ?thesis using riak_inv_search [OF assms(1) run law(1)] law(1) w1 by blast
qed

interpretation rk: netmap_store "riakConn R" "riak_inv R objs idx" "\<lambda>w. net_abs (objs w)" "\<lambda>w. net_abs ` index_views (idx w)"
  "riak_up R" for R objs idx
proof
  fix w assume "riak_inv R objs idx w"
  then show "net_abs (objs w) \<in> net_abs ` index_views (idx w)" using documentedD(1) [of R objs idx w] unfolding riak_inv_def by blast
next
  fix w w' ip l r c ok
  assume w: "riak_inv R objs idx w" "is_v4 ip" "is_goint l" "is_goint r" "good_cred c"
    and "rc_PutNetIDMap (riakConn R) ip l r c w = (ok, w')"
  then obtain res where run: "run_cmd R (StoreValue (net_object ip l r c)) w = (res, w')" "ok = (res \<noteq> None)"
    by (auto simp: riakConn_def PutNetIDMap_def split: prod.splits)
  have doc: "riak_documented R objs idx" and wf: "net_wf (objs w)" using riak_inv_objs [OF w(1)] w(1) by (simp_all add: riak_inv_def)
  from documentedD(3) [OF doc run(1)] run(2) have put:
    "objs w' = (objs w)((RIAK_BUCKET_TYPE, IP_String ip, NetMapKey l r) \<mapsto> InstanceCred_Bytes c) \<or> \<not> ok \<and> objs w' = objs w"
    by (simp add: net_object_def)
  then have "net_wf (objs w')" using wf net_wf_store [OF wf w(2-5)] by auto
  from riak_inv_step [OF w(1) run(1) this] put
  show "riak_inv R objs idx w' \<and>
      catching_up (net_abs (objs w')) (net_abs ` index_views (idx w)) (net_abs ` index_views (idx w')) \<and>
      (net_abs (objs w') = net_put (net_abs (objs w)) (IP_String ip) l r (Some c) \<or> \<not> ok \<and> net_abs (objs w') = net_abs (objs w))"
    by (auto simp: net_abs_put cred_roundtrip [OF w(5)])
next
  fix w w' ip l r ok
  assume w: "riak_inv R objs idx w" and "rc_DelNetIDMap (riakConn R) ip l r w = (ok, w')"
  then obtain res where run: "run_cmd R (DeleteValue RIAK_BUCKET_TYPE (IP_String ip) (NetMapKey l r)) w = (res, w')" "ok = (res \<noteq> None)"
    by (auto simp: riakConn_def DelNetIDMap_def split: prod.splits)
  have doc: "riak_documented R objs idx" and wf: "net_wf (objs w)" using riak_inv_objs [OF w] w by (simp_all add: riak_inv_def)
  note del = documentedD(4) [OF doc run(1)]
  then have "net_wf (objs w')" using wf net_wf_delete [OF wf] by auto
  from riak_inv_step [OF w run(1) this] del run(2)
  show "riak_inv R objs idx w' \<and>
      catching_up (net_abs (objs w')) (net_abs ` index_views (idx w)) (net_abs ` index_views (idx w')) \<and>
      (net_abs (objs w') = net_put (net_abs (objs w)) (IP_String ip) l r None \<or> \<not> ok \<and> net_abs (objs w') = net_abs (objs w))"
    by (auto simp: net_abs_put)
next
  fix w w' ip l r res
  assume w: "riak_inv R objs idx w" and run: "rc_GetNetIDMap (riakConn R) ip l r w = (res, w')"
  have doc: "riak_documented R objs idx" using w by (simp add: riak_inv_def)
  obtain resp w1 where q: "run_cmd R (FetchValue RIAK_BUCKET_TYPE (IP_String ip) (NetMapKey l r)) w = (resp, w1)" by fastforce
  note got = documentedD(5) [OF doc q]
  have "w' = w1" using run q by (auto simp: riakConn_def GetNetIDMap_def split: option.splits riak_resp.splits list.splits)
  moreover have "riak_inv R objs idx w1" using riak_inv_search [OF w q] got by simp
  ultimately show "riak_inv R objs idx w' \<and> net_abs (objs w') = net_abs (objs w) \<and>
      (res = None \<or> res = Some (net_abs (objs w) (IP_String ip) l r))"
    using got run q by (auto simp: riakConn_def GetNetIDMap_def net_abs_def split: option.splits)
next
  fix w w' ip res
  assume "riak_inv R objs idx w" "is_v4 ip" "rc_GetAllNetID (riakConn R) ip w = (res, w')"
  then show "riak_inv R objs idx w' \<and> net_abs (objs w') = net_abs (objs w) \<and> (riak_up R \<longrightarrow> res \<noteq> None) \<and>
      (\<forall>insts. res = Some insts \<longrightarrow>
         (\<exists>v \<in> net_abs ` index_views (idx w). \<forall>i \<in> set insts. net_instance v i \<and> ci_Ip i = ip))"
    using all_law [of R objs idx w ip res w'] unfolding riakConn_def by fastforce
next
  fix w w' u res
  assume "riak_inv R objs idx w" "solr_term u" "rc_SearchIDNet (riakConn R) u w = (res, w')"
  then show "riak_inv R objs idx w' \<and> net_abs (objs w') = net_abs (objs w) \<and> (riak_up R \<longrightarrow> res \<noteq> None) \<and>
      (\<forall>insts. res = Some insts \<longrightarrow> (\<exists>v \<in> net_abs ` index_views (idx w).
         (\<forall>i \<in> set insts. net_instance v i \<and> ic_Pid (ci_ID i) = u) \<and>
         ((\<exists>i. net_instance v i \<and> ic_Pid (ci_ID i) = u) \<longrightarrow> insts \<noteq> [])))"
    using ids_law [of R objs idx w u res w'] by (simp add: riakConn_def)
qed

section \<open>A Riak in memory\<close>

text \<open>
  For concrete inputs: a list of objects, the newest first, and the list that the index was built
  from, which searches go by. It answers every command and never indexes by itself.
\<close>

type_synonym mem = "((string \<times> string \<times> string) \<times> string) list"

definition mem_fields :: "string \<Rightarrow> string \<Rightarrow> string list option" where
  "mem_fields v f =
     (case parse_json v of
        Some (JObj ms) \<Rightarrow> (case map_of ms f of Some (JStr x) \<Rightarrow> Some [x] | _ \<Rightarrow> None)
      | _ \<Rightarrow> None)"

definition mem_hit :: "string \<Rightarrow> (string \<times> string \<times> string) \<times> string \<Rightarrow> bool" where
  "mem_hit q e =
     (case e of
        ((t, b, k), v) \<Rightarrow> t = RIAK_BUCKET_TYPE \<and>
          (q = net_query QUERY_BUCKET b \<or>
           (case mem_fields v NETMAP_ID of Some [u] \<Rightarrow> q = net_query NETMAP_ID u | _ \<Rightarrow> False)))"

definition mem_doc :: "(string \<times> string \<times> string) \<times> string \<Rightarrow> SearchDoc" where
  "mem_doc e = (case e of ((t, b, k), v) \<Rightarrow> \<lparr>sd_Bucket = b, sd_Key = k, sd_Fields = mem_fields v\<rparr>)"

definition mem_live :: "mem \<Rightarrow> mem" where
  "mem_live w = remdups (filter (\<lambda>(k, v). map_of w k = Some v) w)"

fun mem_execute :: "riak_cmd \<Rightarrow> mem \<times> mem \<Rightarrow> riak_resp option \<times> mem \<times> mem" where
  "mem_execute (StoreValue ob) (m, i) = (Some RespNone, ((ro_BucketType ob, ro_Bucket ob, ro_Key ob), ro_Value ob) # m, i)"
| "mem_execute (DeleteValue t b k) (m, i) = (Some RespNone, filter (\<lambda>(k', v). k' \<noteq> (t, b, k)) m, i)"
| "mem_execute (FetchValue t b k) (m, i) = (Some (RespValues (case map_of m (t, b, k) of None \<Rightarrow> [] | Some v \<Rightarrow> [v])), m, i)"
| "mem_execute (Search ix q fl) (m, i) = (Some (RespDocs (take default_rows (map mem_doc (filter (mem_hit q) (mem_live i))))), m, i)"
| "mem_execute c (m, i) = (Some RespNone, m, i)"

definition mem_riak :: "(mem \<times> mem) riak_client" where
  "mem_riak = \<lparr>rk_build = (\<lambda>c. True), rk_execute = mem_execute\<rparr>"

definition mem_objs :: "mem \<times> mem \<Rightarrow> riak_objects" where
  "mem_objs w = map_of (fst w)"

definition mem_index :: "mem \<times> mem \<Rightarrow> riak_index" where
  "mem_index w K = {map_of (fst w) K, map_of (snd w) K}"

text \<open>Indexing the objects.\<close>

definition mem_commit :: "mem \<times> mem \<Rightarrow> mem \<times> mem" where
  "mem_commit w = (fst w, fst w)"

lemma run_mem [simp]: "run_cmd mem_riak c w = mem_execute c w"
  by (simp add: run_cmd_def mem_riak_def)

lemma mem_live_set: "(k, v) \<in> set (mem_live w) \<longleftrightarrow> map_of w k = Some v"
  by (auto simp: mem_live_def dest: map_of_SomeD)

lemma mem_fields_id: "has_id u v \<longleftrightarrow> mem_fields v NETMAP_ID = Some [u]"
  by (auto simp: has_id_def mem_fields_def split: option.splits json.splits)

lemma map_of_filter_key: "map_of (filter (\<lambda>(k', v). k' \<noteq> k) w) = (map_of w)(k := None)"
  by (induction w) (auto simp: fun_eq_iff)

lemma mem_doc_ok: "is_doc (mem_doc ((t, b, k), v)) b k v"
  by (auto simp: is_doc_def mem_doc_def mem_fields_def)

text \<open>The hits of a query of the proxy are the entries that match it.\<close>

lemma mem_hits:
  assumes "(\<exists>b. solr_term b \<and> q = net_query QUERY_BUCKET b) \<or> (\<exists>u. solr_term u \<and> q = net_query NETMAP_ID u)"
  shows "query_hits (map_of w) q = (\<lambda>((t, b, k), v). (b, k, v)) ` set (filter (mem_hit q) (mem_live w))"
proof -
  have hit: "mem_hit q ((RIAK_BUCKET_TYPE, b, k), v) \<longleftrightarrow>
      solr_term b \<and> q = net_query QUERY_BUCKET b \<or> (\<exists>u. solr_term u \<and> q = net_query NETMAP_ID u \<and> has_id u v)" for b k v
    using assms by (auto simp: mem_hit_def mem_fields_id split: option.splits list.splits)
  have "query_hits (map_of w) q =
      {(b, k, v). ((RIAK_BUCKET_TYPE, b, k), v) \<in> set (mem_live w) \<and> mem_hit q ((RIAK_BUCKET_TYPE, b, k), v)}"
    unfolding query_hits_def hit mem_live_set by (rule refl)
  also have "\<dots> = (\<lambda>((t, b, k), v). (b, k, v)) ` set (filter (mem_hit q) (mem_live w))"
    by (force simp: image_iff mem_hit_def)
  finally show ?thesis .
qed

lemma mem_answers:
  assumes "(\<exists>b. solr_term b \<and> q = net_query QUERY_BUCKET b) \<or> (\<exists>u. solr_term u \<and> q = net_query NETMAP_ID u)"
  shows "answers (query_hits (map_of w) q) (take default_rows (map mem_doc (filter (mem_hit q) (mem_live w))))"
proof -
  let ?es = "filter (mem_hit q) (mem_live w)" and ?f = "\<lambda>((t, b, k), v). (b, k, v) :: string \<times> string \<times> string"
  note hits = mem_hits [OF assms, of w]
  have doc: "is_doc (mem_doc e) b k v" if "?f e = (b, k, v)" for e b k v
    using that mem_doc_ok by (cases e) auto
  have "inj_on ?f (set ?es)" by (auto simp: inj_on_def mem_hit_def)
  moreover have "card (set ?es) = length ?es" by (rule distinct_card) (simp add: mem_live_def)
  ultimately have "card (query_hits (map_of w) q) = length ?es" unfolding hits by (simp only: card_image)
  then have all: "card (query_hits (map_of w) q) \<le> default_rows \<Longrightarrow> take default_rows (map mem_doc ?es) = map mem_doc ?es"
    by simp
  have some: "\<exists>d \<in> set (map mem_doc ?es). is_doc d b k v" if "(b, k, v) \<in> query_hits (map_of w) q" for b k v
  proof -
    from that obtain e where "e \<in> set ?es" "?f e = (b, k, v)" unfolding hits by (auto simp del: set_filter)
    with doc show ?thesis unfolding set_map by blast
  qed
  have from_hit: "\<exists>(b, k, v) \<in> query_hits (map_of w) q. is_doc d b k v" if "d \<in> set (take default_rows (map mem_doc ?es))" for d
  proof -
    from in_set_takeD [OF that] obtain e where e: "e \<in> set ?es" "d = mem_doc e" by (auto simp del: set_filter)
    obtain b k v where f: "?f e = (b, k, v)" by (cases "?f e")
    from imageI [OF e(1), of ?f] have "(b, k, v) \<in> query_hits (map_of w) q" unfolding hits f .
    moreover from doc [OF f] have "is_doc d b k v" unfolding e(2) .
    ultimately show ?thesis by blast
  qed
  have "query_hits (map_of w) q \<noteq> {} \<Longrightarrow> ?es \<noteq> []" unfolding hits by (metis image_empty list.set(1))
  then show ?thesis
    unfolding answers_def using from_hit some all by (auto simp: default_rows_def)
qed

lemma mem_documented: "riak_documented mem_riak mem_objs mem_index"
proof -
  have lag: "mem_index w' K \<subseteq> insert (mem_objs w' K) (mem_index w K)" if "mem_execute c w = (r, w')" for c w r w' K
    using that by (cases "(c, w)" rule: mem_execute.cases) (auto simp: mem_index_def mem_objs_def)
  have view: "map_of i \<in> index_views (mem_index (m, i))" for m i by (simp add: index_views_def mem_index_def)
  have found: "\<exists>v \<in> index_views (mem_index (m, i)). answers (query_hits v q) (take default_rows (map mem_doc (filter (mem_hit q) (mem_live i))))"
    if "(\<exists>b. solr_term b \<and> q = net_query QUERY_BUCKET b) \<or> (\<exists>u. solr_term u \<and> q = net_query NETMAP_ID u)" for m i q
    using mem_answers [OF that] view by blast
  show ?thesis
    unfolding riak_documented_def run_mem
  proof (intro conjI allI impI)
    fix q w r w' assume "mem_execute (Search RIAK_INDEX_NAME q search_fields) w = (r, w')"
    with found show "r = None \<or> (\<exists>ds. r = Some (RespDocs ds) \<and>
        ((\<exists>b. solr_term b \<and> q = net_query QUERY_BUCKET b) \<or> (\<exists>u. solr_term u \<and> q = net_query NETMAP_ID u) \<longrightarrow>
           (\<exists>v \<in> index_views (mem_index w). answers (query_hits v q) ds)))"
      by (cases w) auto
  qed (use lag in \<open>auto simp: mem_objs_def mem_index_def map_of_filter_key\<close>)
qed

lemma mem_up: "riak_up mem_riak"
proof -
  have "fst (mem_execute c w) \<noteq> None" for c w by (cases "(c, w)" rule: mem_execute.cases) auto
  then show ?thesis by (simp add: riak_up_def)
qed

lemma mem_commit_settles: "settles mem_objs mem_index w (mem_commit w)" "caught_up mem_objs mem_index (mem_commit w)"
  by (auto simp: settles_def caught_up_def mem_objs_def mem_index_def mem_commit_def)

lemma mem_new_wf: "index_wf (mem_index ([], []))"
proof -
  have "index_views (mem_index ([], [])) = {\<lambda>x. None}" by (auto simp: index_views_def mem_index_def fun_eq_iff)
  then show ?thesis by (simp add: index_wf_def net_wf_def)
qed

section \<open>Properties\<close>

text \<open>C8: over a Riak that keeps its contract, with a store that only proxies write, riakConn
  implements a net map from ranges of addresses to credentials. A put that reports success stores
  exactly this credential, GetNetIDMap then reads it back, and one that reports an error stored it
  or nothing; a deletion removes at most that entry. GetAllNetID and SearchIDNet change nothing and
  return instances, of that address and with that id, of some view of the index: each object in one
  of the versions a search may still go by. SearchIDNet returns none only if that view has none.
  When the index has caught up, that view is the map itself.\<close>

theorem riakConn_refines_netmap:
  assumes "riak_documented R objs idx" and "index_wf (idx w)" and "is_v4 ip" and "is_goint l" and "is_goint r"
    and "good_cred c" and "solr_term u" and "n = net_abs (objs w)"
    and "PutNetIDMap R ip l r c w = (ok, w1)" and "DelNetIDMap R ip l r w = (dok, w2)"
    and "GetNetIDMap R ip l r w1 = (Some got, w3)" and "GetAllNetID R ip w = (Some insts, w4)"
    and "SearchIDNet R u w = (Some found, w5)"
  shows "index_wf (idx w1) \<and> (net_abs (objs w1) = net_put n (IP_String ip) l r (Some c) \<or> \<not> ok \<and> net_abs (objs w1) = n) \<and>
    index_wf (idx w2) \<and> (net_abs (objs w2) = net_put n (IP_String ip) l r None \<or> \<not> dok \<and> net_abs (objs w2) = n) \<and>
    (ok \<longrightarrow> got = Some c) \<and> net_abs (objs w3) = net_abs (objs w1) \<and>
    net_abs (objs w4) = n \<and> net_abs (objs w5) = n \<and>
    (\<exists>v \<in> net_abs ` index_views (idx w). (caught_up objs idx w \<longrightarrow> v = n) \<and>
       (\<forall>i \<in> set insts. net_instance v i \<and> ci_Ip i = ip)) \<and>
    (\<exists>v \<in> net_abs ` index_views (idx w). (caught_up objs idx w \<longrightarrow> v = n) \<and>
       (\<forall>i \<in> set found. net_instance v i \<and> ic_Pid (ci_ID i) = u) \<and>
       (found = [] \<longrightarrow> (\<forall>i. net_instance v i \<longrightarrow> ic_Pid (ci_ID i) \<noteq> u)))"
proof -
  have inv: "riak_inv R objs idx w" using assms(1,2) by (simp add: riak_inv_def)
  have runs: "rc_PutNetIDMap (riakConn R) ip l r c w = (ok, w1)" "rc_DelNetIDMap (riakConn R) ip l r w = (dok, w2)"
    "rc_GetNetIDMap (riakConn R) ip l r w1 = (Some got, w3)" "rc_GetAllNetID (riakConn R) ip w = (Some insts, w4)"
    "rc_SearchIDNet (riakConn R) u w = (Some found, w5)"
    using assms(9-13) by (simp_all add: riakConn_def)
  note put = rk.put [OF inv assms(3-6) runs(1)] and del = rk.del [OF inv runs(2)]
  have inv1: "riak_inv R objs idx w1" using put by blast
  have wf: "index_wf (idx w1)" "index_wf (idx w2)" using put del unfolding riak_inv_def by blast+
  have writes: "net_abs (objs w1) = net_put n (IP_String ip) l r (Some c) \<or> \<not> ok \<and> net_abs (objs w1) = n"
    "net_abs (objs w2) = net_put n (IP_String ip) l r None \<or> \<not> dok \<and> net_abs (objs w2) = n"
    using put del unfolding assms(8) by blast+
  note got = rk.get [OF inv1 runs(3)]
  have read: "ok \<longrightarrow> got = Some c" "net_abs (objs w3) = net_abs (objs w1)"
    using writes(1) got by (auto simp: net_put_def)
  have view: "v = n" if "caught_up objs idx w" "v \<in> net_abs ` index_views (idx w)" for v
    using that by (simp add: caught_up_views assms(8))
  note all = rk.all [OF inv assms(3) runs(4)] and ids = rk.ids [OF inv assms(7) runs(5)]
  have same: "net_abs (objs w4) = n" "net_abs (objs w5) = n" using all ids unfolding assms(8) by blast+
  from all obtain v where v: "v \<in> net_abs ` index_views (idx w)" "\<forall>i \<in> set insts. net_instance v i \<and> ci_Ip i = ip" by blast
  from ids [THEN conjunct2, THEN conjunct2, THEN conjunct2, THEN spec, THEN mp, OF refl]
  obtain v' where v': "v' \<in> net_abs ` index_views (idx w)" "\<forall>i \<in> set found. net_instance v' i \<and> ic_Pid (ci_ID i) = u"
    "found = [] \<longrightarrow> (\<forall>i. net_instance v' i \<longrightarrow> ic_Pid (ci_ID i) \<noteq> u)" by blast
  have "\<exists>v \<in> net_abs ` index_views (idx w). (caught_up objs idx w \<longrightarrow> v = n) \<and> (\<forall>i \<in> set insts. net_instance v i \<and> ci_Ip i = ip)"
    using v view by blast
  moreover have "\<exists>v \<in> net_abs ` index_views (idx w). (caught_up objs idx w \<longrightarrow> v = n) \<and>
       (\<forall>i \<in> set found. net_instance v i \<and> ic_Pid (ci_ID i) = u) \<and>
       (found = [] \<longrightarrow> (\<forall>i. net_instance v i \<longrightarrow> ic_Pid (ci_ID i) \<noteq> u))"
    using v' view by blast
  ultimately show ?thesis using wf writes read same by (iprover intro: conjI)
qed

definition web_cred :: InstanceCred where
  "web_cred = \<lparr>ic_Pid = ''web'', ic_PPid = ''host'', ic_Cidr = None, ic_Type = NORMAL_INSTANCE_TYPE\<rparr>"

lemma web_cred_good [simp]: "good_cred web_cred"
proof -
  have "valid_utf8 ''web''" "valid_utf8 ''host''" "valid_utf8 ''normal''" by (rule valid_utf8_ascii; simp add: in_byte_def)+
  then show ?thesis by (simp add: good_cred_def good_cidr_def web_cred_def NORMAL_INSTANCE_TYPE_def)
qed

lemma solr_web [simp]: "solr_term ''web''"
  by (simp add: solr_term_def in_byte_def)

text \<open>The entry of the list that a put makes.\<close>

definition web_objects :: mem where
  "web_objects = [((RIAK_BUCKET_TYPE, IP_String (IPv4 10 0 0 1), NetMapKey 100 200), InstanceCred_Bytes web_cred)]"

lemma mem_put: "PutNetIDMap mem_riak (IPv4 10 0 0 1) 100 200 web_cred ([], []) = (True, web_objects, [])"
  by (simp add: PutNetIDMap_def net_object_def web_objects_def)

theorem riakConn_refines_netmap_witness:
  "fst (GetNetIDMap mem_riak (IPv4 10 0 0 1) 100 200 (snd (PutNetIDMap mem_riak (IPv4 10 0 0 1) 100 200 web_cred ([], [])))) =
     Some (Some web_cred)"
proof -
  obtain dok w2 where del: "DelNetIDMap mem_riak (IPv4 10 0 0 1) 100 200 ([], []) = (dok, w2)"
    by (cases "DelNetIDMap mem_riak (IPv4 10 0 0 1) 100 200 ([], [])") auto
  have ints: "is_goint 100" "is_goint 200" by (simp_all add: is_goint_def)
  obtain got where get: "GetNetIDMap mem_riak (IPv4 10 0 0 1) 100 200 (web_objects, []) = (Some got, web_objects, [])"
    by (simp add: GetNetIDMap_def web_objects_def)
  obtain insts where all: "GetAllNetID mem_riak (IPv4 10 0 0 1) ([], []) = (Some insts, [], [])" by (simp add: GetAllNetID_def)
  obtain found where ids: "SearchIDNet mem_riak ''web'' ([], []) = (Some found, [], [])" by (simp add: SearchIDNet_def)
  from riakConn_refines_netmap [OF mem_documented mem_new_wf is_v4_IPv4 ints web_cred_good solr_web refl mem_put del get all ids]
  have "got = Some web_cred" by blast
  with mem_put get show ?thesis by simp
qed



end
