(* ===== verification/AddrRefine.thy ===== *)
theory AddrRefine
  imports RiakRefine
begin

text \<open>
  A lookup by address on a worker that has nothing of the address: it reloads the address from
  Riak, and then finds the inner-most of the ranges that other workers have registered, when the
  index of Riak Search has caught up and as long as Riak returns them all.
\<close>

section \<open>Reloading an address\<close>

text \<open>The map holds exactly the instances of J at the address, each under its id.\<close>

definition holds_at :: "('t, 'z) itree_scheme \<Rightarrow> 't Pmap \<Rightarrow> string \<Rightarrow> CachedInstance set \<Rightarrow> bool" where
  "holds_at T m b J \<longleftrightarrow>
     (\<forall>i c. (i, c) \<in> pm_tree T m b \<longrightarrow>
        (\<exists>j \<in> J. ix_Pmin i = ci_Lport j \<and> ix_Pmax i = goint (ci_Rport j + 1) \<and> pi_P (pm_cells m ! c) = inst_pid j)) \<and>
     (\<forall>j \<in> J. ci_Lport j \<le> goint (ci_Rport j + 1) \<longrightarrow>
        (\<exists>i c. (i, c) \<in> pm_tree T m b \<and> ix_Pmin i = ci_Lport j \<and> ix_Pmax i = goint (ci_Rport j + 1))) \<and>
     (\<forall>j \<in> J. pm_PidMap m (inst_pid j) = Some j)"

lemma put_index_simps [simp]:
  "ix_Pmin (put_index inst cid) = ci_Lport inst" "ix_Pmax (put_index inst cid) = goint (ci_Rport inst + 1)"
  "ix_Id (put_index inst cid) = cid"
  by (simp_all add: put_index_def)

lemma put_inverted: "inverted (put_index inst cid) \<longleftrightarrow> goint (ci_Rport inst + 1) < ci_Lport inst"
  by (simp add: inverted_def IndexRange_def)

lemma put_result_holds:
  assumes T: "itree_ok T" and wf: "pmap_wf T m" and cid: "inst_cid inst = Some cid"
    and h: "holds_at T m (IP_String (ci_Ip inst)) J" and uniq: "\<forall>j \<in> J. inst_pid j = inst_pid inst \<longrightarrow> j = inst"
  shows "holds_at T (put_result T inst cid m) (IP_String (ci_Ip inst)) (insert inst J)"
proof -
  let ?b = "IP_String (ci_Ip inst)" and ?m = "put_result T inst cid m" and ?i = "put_index inst cid"
  have from_tree: "\<exists>j \<in> insert inst J. ix_Pmin i = ci_Lport j \<and> ix_Pmax i = goint (ci_Rport j + 1) \<and> pi_P (pm_cells ?m ! c) = inst_pid j"
    if "(i, c) \<in> pm_tree T ?m ?b" for i c
    using put_result_tree_cases [OF T that]
  proof cases
    case 1
    with h pmap_wfD(1) [OF wf 1] show ?thesis unfolding holds_at_def by (fastforce simp: nth_append)
  qed (simp add: put_cell_def)
  have in_tree: "\<exists>i c. (i, c) \<in> pm_tree T ?m ?b \<and> ix_Pmin i = ci_Lport j \<and> ix_Pmax i = goint (ci_Rport j + 1)"
    if j: "j \<in> insert inst J" "ci_Lport j \<le> goint (ci_Rport j + 1)" for j
  proof (cases "ci_Lport j = ci_Lport inst \<and> goint (ci_Rport j + 1) = goint (ci_Rport inst + 1)")
    case True
    with j have "(?i, length (pm_cells m)) \<in> pm_tree T ?m ?b" by (simp add: put_result_tree [OF T] put_inverted)
    with True show ?thesis by (metis put_index_simps(1,2))
  next
    case False
    then have "j \<in> J" using j(1) by auto
    with h j(2) obtain i c where i: "(i, c) \<in> pm_tree T m ?b" "ix_Pmin i = ci_Lport j" "ix_Pmax i = goint (ci_Rport j + 1)"
      unfolding holds_at_def by blast
    have "\<not> same_key i ?i"
    proof
      assume "same_key i ?i"
      then have "ix_Pmin i = ci_Lport inst" "ix_Id i = cid" by (simp_all add: same_key_def IndexRange_def ID_def)
      with pmap_wfD(4,5) [OF wf i(1)] cid have "ix_Pmax i = goint (ci_Rport inst + 1)"
        by (auto simp: inst_cid_def intro: ComputeID_inj)
      with \<open>ix_Pmin i = ci_Lport inst\<close> i(2,3) False show False by simp
    qed
    with i(1) have "(i, c) \<in> pm_tree T ?m ?b" by (simp add: put_result_tree [OF T])
    with i show ?thesis by blast
  qed
  have "pm_PidMap ?m (inst_pid j) = Some j" if "j \<in> insert inst J" for j
    using that h uniq unfolding holds_at_def by auto
  with from_tree in_tree show ?thesis unfolding holds_at_def by blast
qed

text \<open>Different instances have different ids.\<close>

definition distinct_pids :: "CachedInstance set \<Rightarrow> bool" where
  "distinct_pids J \<longleftrightarrow> inj_on (\<lambda>j. inst_pid j) J"

lemma put_all_holds:
  assumes "itree_ok T" and "is_v4 ip"
  shows "pmap_wf T m \<Longrightarrow> holds_at T m (IP_String ip) J \<Longrightarrow> \<forall>i \<in> set insts. ci_Ip i = ip \<Longrightarrow>
    distinct_pids (J \<union> set insts) \<Longrightarrow> put_all T insts m = (out, m') \<Longrightarrow>
    out = Ret () \<and> pmap_wf T m' \<and> holds_at T m' (IP_String ip) (J \<union> set insts)"
proof (induction insts arbitrary: m J)
  case Nil
  then show ?case by simp
next
  case (Cons i insts)
  have ip: "ci_Ip i = ip" using Cons.prems(3) by simp
  then obtain cid where cid: "inst_cid i = Some cid" using inst_cid_v4 assms(2) by blast
  have J: "J \<union> set (i # insts) = insert i J \<union> set insts" by simp
  have "\<forall>j \<in> J. inst_pid j = inst_pid i \<longrightarrow> j = i"
    using Cons.prems(4) unfolding distinct_pids_def inj_on_def J by blast
  from put_result_holds [OF assms(1) Cons.prems(1) cid _ this] Cons.prems(2)
  have h: "holds_at T (put_result T i cid m) (IP_String ip) (insert i J)" unfolding ip by blast
  have rest: "put_all T insts (put_result T i cid m) = (out, m')"
    using Cons.prems(5) by (simp add: go_bind_def PutCachedInstance_Ret [OF cid])
  have "\<forall>i \<in> set insts. ci_Ip i = ip" using Cons.prems(3) by simp
  from Cons.IH [OF put_result_wf [OF assms(1) Cons.prems(1) cid] h this _ rest] Cons.prems(4)
  show ?case unfolding J by blast
qed

lemma put_index_contains:
  assumes "is_goint (ci_Rport j)" and "is_goint port" and "ci_Lport j \<le> port" and "port < goint (ci_Rport j + 1)"
  shows "goint (ci_Rport j + 1) = ci_Rport j + 1 \<and> port \<le> ci_Rport j"
proof -
  have "ci_Rport j \<noteq> 2 ^ 63 - 1"
  proof
    assume "ci_Rport j = 2 ^ 63 - 1"
    then have "goint (ci_Rport j + 1) = - (2 ^ 63)" by (simp add: goint_def)
    with assms(2,4) show False by (simp add: is_goint_def)
  qed
  with assms(1) have "is_goint (ci_Rport j + 1)" by (simp add: is_goint_def)
  with assms(4) show ?thesis by simp
qed

section \<open>A net map that returns every instance of an address\<close>

text \<open>The ranges registered at an address.\<close>

definition ranges_at :: "netmap \<Rightarrow> string \<Rightarrow> (int \<times> int) set" where
  "ranges_at n b = {(l, r). is_goint l \<and> is_goint r \<and> n b l r \<noteq> None}"

definition instances_at :: "netmap \<Rightarrow> IP \<Rightarrow> CachedInstance set" where
  "instances_at n ip = {i. net_instance n i \<and> ci_Ip i = ip}"

text \<open>The instance is the inner-most one of its address at the port.\<close>

definition innermost_at :: "netmap \<Rightarrow> CachedInstance \<Rightarrow> int \<Rightarrow> bool" where
  "innermost_at n inst port \<longleftrightarrow> ci_Lport inst \<le> port \<and> port \<le> ci_Rport inst \<and>
     (\<forall>j \<in> instances_at n (ci_Ip inst). ci_Lport j \<le> port \<and> port \<le> ci_Rport j \<longrightarrow>
        ci_Lport j \<le> ci_Lport inst \<and> ci_Rport inst \<le> ci_Rport j)"

lemma same_instance:
  "net_instance n i \<Longrightarrow> net_instance n j \<Longrightarrow> ci_Ip i = ci_Ip j \<Longrightarrow> ci_Lport i = ci_Lport j \<Longrightarrow> ci_Rport i = ci_Rport j \<Longrightarrow> i = j"
  by (auto simp: net_instance_def)

text \<open>A map that holds the instances of an address returns the inner-most one.\<close>

lemma holds_lookup:
  assumes T: "itree_ok T" and wf: "pmap_wf T m" and h: "holds_at T m (IP_String (ci_Ip inst)) (instances_at n (ci_Ip inst))"
    and inst: "inst \<in> instances_at n (ci_Ip inst)" and port: "is_port (ci_Rport inst)" "0 \<le> port" and inner: "innermost_at n inst port"
  obtains c where "GetIndex T m (IP_String (ci_Ip inst)) port = Inr (Some c)"
    and "pm_PidMap m (pi_P (pm_cells m ! c)) = Some inst"
proof -
  let ?b = "IP_String (ci_Ip inst)" and ?J = "instances_at n (ci_Ip inst)"
  have range: "ci_Lport inst \<le> port" "port \<le> ci_Rport inst" using inner by (simp_all add: innermost_at_def)
  have p: "is_goint (port + 1)" "is_goint port" using port range by (simp_all add: is_port_def is_goint_def)
  have r: "goint (ci_Rport inst + 1) = ci_Rport inst + 1" using port(1) by simp
  from h inst range r obtain i0 c0 where e0: "(i0, c0) \<in> pm_tree T m ?b" "ix_Pmin i0 = ci_Lport inst" "ix_Pmax i0 = ci_Rport inst + 1"
    unfolding holds_at_def by fastforce
  then have in0: "contains_port (fst (i0, c0)) port" using range by (simp add: contains_port_def)
  from GetIndex_spec [OF T wf p(1), of ?b] e0(1) in0 obtain i c where g: "GetIndex T m ?b port = Inr (Some c)"
    "(i, c) \<in> pm_tree T m ?b" "contains_port i port" "\<not> strictly_inside i0 i" by fastforce
  from h g(2) obtain j where j: "j \<in> ?J" "ix_Pmin i = ci_Lport j" "ix_Pmax i = goint (ci_Rport j + 1)" "pi_P (pm_cells m ! c) = inst_pid j"
    unfolding holds_at_def by blast
  have "is_goint (ci_Rport j)" using j(1) by (simp add: instances_at_def net_instance_def)
  from put_index_contains [OF this p(2)] g(3) j(2,3) have jr: "goint (ci_Rport j + 1) = ci_Rport j + 1" "port \<le> ci_Rport j"
    by (simp_all add: contains_port_def)
  have "ci_Lport j \<le> port" using g(3) j(2) by (simp add: contains_port_def)
  with inner j(1) jr(2) have "ci_Lport j \<le> ci_Lport inst" "ci_Rport inst \<le> ci_Rport j" by (auto simp: innermost_at_def)
  with g(4) e0 j(2,3) jr(1) have "ci_Lport j = ci_Lport inst" "ci_Rport j = ci_Rport inst"
    by (auto simp: strictly_inside_def)
  with same_instance [of n j inst] j(1) inst have "j = inst" by (simp add: instances_at_def)
  with j(1,4) h g(1) show ?thesis by (intro that) (auto simp: holds_at_def)
qed

text \<open>Complete: when the searches have caught up, GetAllNetID returns every instance, up to a number of ranges.\<close>

locale complete_netmap = netmap_store conn inv net seen up
  for conn :: "'w RiakConn" and inv :: "'w \<Rightarrow> bool" and net :: "'w \<Rightarrow> netmap" and seen :: "'w \<Rightarrow> netmap set" and up :: bool +
  fixes rows :: nat
  assumes complete: "inv w \<Longrightarrow> is_v4 ip \<Longrightarrow> rc_GetAllNetID conn ip w = (Some insts, w') \<Longrightarrow> seen w = {net w} \<Longrightarrow>
    finite (ranges_at (net w) (IP_String ip)) \<Longrightarrow> card (ranges_at (net w) (IP_String ip)) \<le> rows \<Longrightarrow>
    instances_at (net w) ip \<subseteq> set insts"
begin

lemma found_by_address:
  assumes w: "inv w" "seen w = {net w}" and T: "itree_ok T" and wf: "pmap_wf T m" and empty: "pm_tree T m (IP_String (ci_Ip inst)) = {}"
    and inst: "inst \<in> instances_at (net w) (ci_Ip inst)" and port: "is_port (ci_Rport inst)" "0 \<le> port"
    and inner: "innermost_at (net w) inst port" and pids: "distinct_pids (instances_at (net w) (ci_Ip inst))"
    and few: "finite (ranges_at (net w) (IP_String (ci_Ip inst)))" "card (ranges_at (net w) (IP_String (ci_Ip inst))) \<le> rows"
  shows "\<exists>st s'. GetInstanceFromNetMap T conn (ci_Ip inst) port \<lparr>cs_pmap = m, cs_world = w\<rparr> =
      (Ret (if st = StatusOK then Some inst else None, st), s') \<and>
    (st = StatusOK \<or> st = StatusInternalServerError \<and> \<not> up)"
proof -
  let ?ip = "ci_Ip inst" and ?s = "\<lparr>cs_pmap = m, cs_world = w\<rparr>"
  have v4: "is_v4 ?ip" using inst by (simp add: instances_at_def net_instance_def)
  have "is_goint (port + 1)" using port inner by (simp add: innermost_at_def is_port_def is_goint_def)
  from GetIndex_spec [OF T wf this, of "IP_String ?ip"] empty
  have miss: "GetIndex T m (IP_String ?ip) port = Inr None" by auto
  obtain res w' where q: "rc_GetAllNetID conn ?ip w = (res, w')" by fastforce
  note law = all [OF w(1) v4 q, unfolded w(2)]
  show ?thesis
  proof (cases res)
    case None
    with q law miss have "GetInstanceFromNetMap T conn ?ip port ?s = (Ret (None, StatusInternalServerError), ?s\<lparr>cs_world := w'\<rparr>)" "\<not> up"
      by (auto simp: GetInstanceFromNetMap_def reloadCache_def go_bind_def)
    then show ?thesis by (intro exI [of _ StatusInternalServerError]) simp
  next
    case (Some insts)
    have set: "set insts = instances_at (net w) ?ip"
      using law complete [OF w(1) v4 q [unfolded Some] w(2) few] Some by (auto simp: instances_at_def)
    obtain out m' where pa: "put_all T insts m = (out, m')" by fastforce
    have "holds_at T m (IP_String ?ip) {}" by (simp add: holds_at_def empty)
    from put_all_holds [OF T v4 wf this _ _ pa] set pids
    have pa': "out = Ret ()" "pmap_wf T m'" "holds_at T m' (IP_String ?ip) (instances_at (net w) ?ip)"
      by (auto simp: instances_at_def)
    obtain c where "GetIndex T m' (IP_String ?ip) port = Inr (Some c)" "pm_PidMap m' (pi_P (pm_cells m' ! c)) = Some inst"
      by (rule holds_lookup [OF T pa'(2,3) inst port inner])
    then have "GetInstanceFromNetMap T conn ?ip port ?s =
        (Ret (Some inst, StatusOK), \<lparr>cs_pmap = m', cs_world = w'\<rparr>)"
      using miss q Some pa pa'(1)
      by (simp add: GetInstanceFromNetMap_def reloadCache_def go_bind_def on_pmap_def copy_indexed_def GetCachedInstance_def)
    then show ?thesis by (intro exI [of _ StatusOK]) simp
  qed
qed

end

section \<open>riakConn returns ten instances\<close>

lemma bucket_hits:
  assumes wf: "net_wf objs"
  shows "query_hits objs (net_query QUERY_BUCKET b) \<subseteq>
    (\<lambda>(l, r). (b, NetMapKey l r, the (objs (RIAK_BUCKET_TYPE, b, NetMapKey l r)))) ` ranges_at (net_abs objs) b"
proof
  fix x assume "x \<in> query_hits objs (net_query QUERY_BUCKET b)"
  then obtain k v where x: "x = (b, k, v)" and v: "objs (RIAK_BUCKET_TYPE, b, k) = Some v"
    by (auto simp: query_hits_def)
  from wf v obtain l r c where k: "k = NetMapKey l r" "is_goint l" "is_goint r" "good_cred c" "v = InstanceCred_Bytes c"
    unfolding net_wf_def by blast
  have "net_abs objs b l r = Some c" using v k by (simp add: net_abs_def cred_roundtrip)
  then have "(l, r) \<in> ranges_at (net_abs objs) b" using k by (simp add: ranges_at_def)
  moreover have "x = (\<lambda>(l, r). (b, NetMapKey l r, the (objs (RIAK_BUCKET_TYPE, b, NetMapKey l r)))) (l, r)"
    using x v k(1) by simp
  ultimately show "x \<in> (\<lambda>(l, r). (b, NetMapKey l r, the (objs (RIAK_BUCKET_TYPE, b, NetMapKey l r)))) ` ranges_at (net_abs objs) b"
    by (rule rev_image_eqI)
qed

lemma GetAllNetID_complete:
  assumes inv: "riak_inv R objs idx w" and v4: "is_v4 ip" and run: "GetAllNetID R ip w = (Some insts, w')"
    and caught: "net_abs ` index_views (idx w) = {n}"
    and few: "finite (ranges_at n (IP_String ip))" "card (ranges_at n (IP_String ip)) \<le> default_rows"
  shows "instances_at n ip \<subseteq> set insts"
proof
  fix i assume i: "i \<in> instances_at n ip"
  let ?b = "IP_String ip" and ?q = "net_query QUERY_BUCKET (IP_String ip)"
  from all_law [OF inv v4 run] obtain v ds where v: "v \<in> index_views (idx w)" and wf: "net_wf v"
    and ans: "answers (query_hits v ?q) ds" and insts: "insts = gen_instances ds" by blast
  from v caught have n: "net_abs v = n" by blast
  note hits = bucket_hits [OF wf, of ?b, unfolded n]
  have "card (query_hits v ?q) \<le> default_rows"
    using card_mono [OF finite_imageI [OF few(1)] hits] card_image_le [OF few(1)] few(2) by (meson le_trans)
  then have all: "\<forall>(b, k, x) \<in> query_hits v ?q. \<exists>d \<in> set ds. is_doc d b k x"
    using ans finite_subset [OF hits finite_imageI [OF few(1)]] unfolding answers_def by blast
  from i obtain x where x: "v (RIAK_BUCKET_TYPE, ?b, NetMapKey (ci_Lport i) (ci_Rport i)) = Some x"
    by (auto simp: instances_at_def net_instance_def n [symmetric] net_abs_def split: option.splits)
  then have "(?b, NetMapKey (ci_Lport i) (ci_Rport i), x) \<in> query_hits v ?q"
    using solr_term_v4 [OF v4] by (simp add: query_hits_def)
  with all obtain d where d: "d \<in> set ds" "is_doc d ?b (NetMapKey (ci_Lport i) (ci_Rport i)) x" by blast
  from hit_instance [OF wf x d(2)] obtain i' where i': "genCachedInstance d = Some i'" "net_instance n i'"
    "?b = IP_String (ci_Ip i')" "NetMapKey (ci_Lport i) (ci_Rport i) = NetMapKey (ci_Lport i') (ci_Rport i')" unfolding n by metis
  have "ci_Ip i' = ip" using IP_String_inj [OF v4, of "ci_Ip i'"] i'(2,3) by (simp add: net_instance_def)
  then have "i' = i" using same_instance [OF i'(2), of i] i i'(4) by (simp add: instances_at_def NetMapKey_eq)
  with d(1) i'(1) show "i \<in> set insts" unfolding insts gen_instances_set by blast
qed

interpretation rka: complete_netmap "riakConn R" "riak_inv R objs idx" "\<lambda>w. net_abs (objs w)"
  "\<lambda>w. net_abs ` index_views (idx w)" "riak_up R" default_rows for R objs idx
proof unfold_locales
  fix w w' ip insts
  assume "riak_inv R objs idx w" "is_v4 ip" "rc_GetAllNetID (riakConn R) ip w = (Some insts, w')"
    "net_abs ` index_views (idx w) = {net_abs (objs w)}" "finite (ranges_at (net_abs (objs w)) (IP_String ip))"
    "card (ranges_at (net_abs (objs w)) (IP_String ip)) \<le> default_rows"
  then show "instances_at (net_abs (objs w)) ip \<subseteq> set insts"
    using GetAllNetID_complete [of R objs idx w ip insts w'] by (simp add: riakConn_def)
qed

section \<open>Property\<close>

text \<open>The net map after a registration.\<close>

lemma instances_at_put:
  assumes "is_v4 (ci_Ip inst)" and "is_goint (ci_Lport inst)" and "is_goint (ci_Rport inst)"
  shows "instances_at (net_put n (IP_String (ci_Ip inst)) (ci_Lport inst) (ci_Rport inst) (Some (ci_ID inst))) (ci_Ip inst) =
    insert inst {j \<in> instances_at n (ci_Ip inst). \<not> (ci_Lport j = ci_Lport inst \<and> ci_Rport j = ci_Rport inst)}"
  using assms by (auto simp: instances_at_def net_instance_def net_put_def)

lemma ranges_at_put:
  "ranges_at (net_put n b l r (Some c)) b \<subseteq> insert (l, r) (ranges_at n b)"
  by (auto simp: ranges_at_def net_put_def)

text \<open>C4: what one worker registers, another worker also finds by its address, once the index of Riak
  Search has caught up. When PutInstance on one cache answers 200 for an IPv4 instance that is then
  the inner-most one of its address at a port, with at most nine other ranges at the address and no
  id used twice there, then at any later time with no writes at which the index has caught up with
  the objects, a lookup of the address and the port on a cache that has nothing of the address
  reloads it from Riak and returns exactly that instance with status 200; only when Riak fails to
  answer is the status 500.\<close>

theorem address_found_by_other_worker:
  assumes "riak_documented R objs idx" and "index_wf (idx w)" and "itree_ok T" and "is_v4 (ci_Ip inst)"
    and "is_goint (ci_Lport inst)" and "is_port (ci_Rport inst)" and "0 \<le> port" and "good_cred (ci_ID inst)"
    and "innermost_at (net_abs (objs w)) inst port" and "distinct_pids (insert inst (instances_at (net_abs (objs w)) (ci_Ip inst)))"
    and "finite (ranges_at (net_abs (objs w)) (IP_String (ci_Ip inst)))"
    and "card (ranges_at (net_abs (objs w)) (IP_String (ci_Ip inst))) < 10"
    and "PutInstance T (riakConn R) inst \<lparr>cs_pmap = m1, cs_world = w\<rparr> = (Ret StatusOK, s1)"
    and "settles objs idx (cs_world s1) w2" and "caught_up objs idx w2"
    and "pmap_wf T m2" and "pm_tree T m2 (IP_String (ci_Ip inst)) = {}"
  shows "\<exists>st s2. GetInstanceFromNetMap T (riakConn R) (ci_Ip inst) port \<lparr>cs_pmap = m2, cs_world = w2\<rparr> =
      (Ret (if st = StatusOK then Some inst else None, st), s2) \<and>
    (st = StatusOK \<or> st = StatusInternalServerError \<and> \<not> riak_up R)"
proof (rule rka.found_by_address)
  let ?b = "IP_String (ci_Ip inst)" and ?n = "net_abs (objs w)" and ?n1 = "net_abs (objs w2)"
  have r: "is_goint (ci_Rport inst)" using assms(6) by simp
  have inv: "riak_inv R objs idx w" using assms(1,2) by (simp add: riak_inv_def)
  obtain ok w1 where q: "rc_PutNetIDMap (riakConn R) (ci_Ip inst) (ci_Lport inst) (ci_Rport inst) (ci_ID inst) w = (ok, w1)" by fastforce
  with assms(13) have s1: "ok" "cs_world s1 = w1"
    by (auto simp: PutInstance_def go_bind_def on_pmap_def split: prod.splits outcome.splits if_splits)
  have now: "objs w2 = objs (cs_world s1)" using assms(14) by (simp add: settles_def)
  from rk.put [OF inv assms(4,5) r assms(8) q] s1 have law: "riak_inv R objs idx (cs_world s1)"
    "?n1 = net_put ?n ?b (ci_Lport inst) (ci_Rport inst) (Some (ci_ID inst))" unfolding now by simp_all
  show "riak_inv R objs idx w2" by (rule riak_inv_settles [OF law(1) assms(14)])
  show "net_abs ` index_views (idx w2) = {?n1}" by (simp add: caught_up_views [OF assms(15)])
  note at = instances_at_put [OF assms(4,5) r, of ?n, folded law(2)]
  show "inst \<in> instances_at ?n1 (ci_Ip inst)" by (simp add: at)
  show "innermost_at ?n1 inst port" using assms(9) by (simp add: innermost_at_def at)
  show "distinct_pids (instances_at ?n1 (ci_Ip inst))"
    using assms(10) unfolding distinct_pids_def at by (rule inj_on_subset) auto
  note sub = ranges_at_put [of ?n ?b "ci_Lport inst" "ci_Rport inst" "ci_ID inst", folded law(2)]
  show "finite (ranges_at ?n1 ?b)" using finite_subset [OF sub] assms(11) by simp
  have "card (ranges_at ?n1 ?b) \<le> card (insert (ci_Lport inst, ci_Rport inst) (ranges_at ?n ?b))"
    using sub assms(11) by (intro card_mono) simp_all
  also have "\<dots> \<le> Suc (card (ranges_at ?n ?b))" using assms(11) by (simp add: card_insert_if)
  finally show "card (ranges_at ?n1 ?b) \<le> default_rows" using assms(12) by (simp add: default_rows_def)
qed (use assms(3,6,7,16,17) in simp_all)

theorem address_found_by_other_worker_witness:
  "\<exists>s1 s2. PutInstance list_tree (riakConn mem_riak) (as_CachedInstance (IPv4 10 0 0 1) 100 200 web_cred)
       \<lparr>cs_pmap = NewPmap, cs_world = ([], [])\<rparr> = (Ret StatusOK, s1) \<and>
     GetInstanceFromNetMap list_tree (riakConn mem_riak) (IPv4 10 0 0 1) 150
       \<lparr>cs_pmap = NewPmap, cs_world = mem_commit (cs_world s1)\<rparr> =
       (Ret (Some (as_CachedInstance (IPv4 10 0 0 1) 100 200 web_cred), StatusOK), s2)"
proof -
  let ?i = "as_CachedInstance (IPv4 10 0 0 1) 100 200 web_cred"
  let ?s = "\<lparr>cs_pmap = NewPmap, cs_world = ([], [])\<rparr> :: (elem list, mem \<times> mem) cstate"
  obtain cid where cid: "inst_cid ?i = Some cid" using inst_cid_v4 [of ?i] by auto
  obtain s1 where put: "PutInstance list_tree (riakConn mem_riak) ?i ?s = (Ret StatusOK, s1)"
    by (simp add: PutInstance_def go_bind_def on_pmap_def PutCachedInstance_Ret [OF cid] riakConn_def mem_put)
  have none: "instances_at (net_abs (\<lambda>x. None)) ip = {}" "ranges_at (net_abs (\<lambda>x. None)) b = {}" for ip b
    by (simp_all add: instances_at_def net_instance_def ranges_at_def net_abs_def)
  have range: "is_v4 (ci_Ip ?i)" "is_goint (ci_Lport ?i)" "is_port (ci_Rport ?i)" "(0 :: int) \<le> 150" "good_cred (ci_ID ?i)"
    by (simp_all add: is_goint_def is_port_def)
  have at: "innermost_at (net_abs (mem_objs ([], []))) ?i 150"
    "distinct_pids (insert ?i (instances_at (net_abs (mem_objs ([], []))) (ci_Ip ?i)))"
    "finite (ranges_at (net_abs (mem_objs ([], []))) (IP_String (ci_Ip ?i)))"
    "card (ranges_at (net_abs (mem_objs ([], []))) (IP_String (ci_Ip ?i))) < 10"
    by (simp_all add: innermost_at_def none distinct_pids_def mem_objs_def)
  have fresh: "pmap_wf list_tree (NewPmap :: elem list Pmap)" "pm_tree list_tree (NewPmap :: elem list Pmap) (IP_String (ci_Ip ?i)) = {}"
    by (simp_all add: pmap_wf_def)
  from address_found_by_other_worker [OF mem_documented mem_new_wf list_tree_ok range at put mem_commit_settles fresh] obtain st s2 where
    "GetInstanceFromNetMap list_tree (riakConn mem_riak) (ci_Ip ?i) 150 \<lparr>cs_pmap = NewPmap, cs_world = mem_commit (cs_world s1)\<rparr> =
      (Ret (if st = StatusOK then Some ?i else None, st), s2)" "st = StatusOK" using mem_up by blast
  with put show ?thesis by auto
qed

end
