(* ===== verification/Startup.thy ===== *)
theory Startup
  imports HandlerSafety AuthSafety
begin

text \<open>
  The start of the program (\<open>proxy/server.go\<close>: config, main) and its service: the proxy that
  main builds, and the states that requests and the outside world lead to from there.
\<close>

section \<open>Configuration\<close>

record conf =
  cf_RiakAddrs :: "string list"
  cf_Debug :: bool
  cf_SafeAddr :: string
  cf_ListenAddr :: string
  cf_Nworker :: int

text \<open>The configuration without flags.\<close>

definition default_conf :: conf where
  "default_conf = \<lparr>cf_RiakAddrs = [], cf_Debug = False, cf_SafeAddr = ''localhost:7777'',
     cf_ListenAddr = ''0.0.0.0:19851'', cf_Nworker = 64\<rparr>"

text \<open>The value of the flag addr; \<open>resolves\<close> says whether net.ResolveTCPAddr has no error.\<close>

definition Addresses_Set :: "(string \<Rightarrow> bool) \<Rightarrow> string list \<Rightarrow> string \<Rightarrow> bool \<times> string list" where
  "Addresses_Set resolves s val = (if \<not> resolves val then (False, s) else (True, s @ [val]))"

text \<open>The value of the flag as a text: fmt prints a slice in brackets, separated by blanks.\<close>

definition Addresses_String :: "string list \<Rightarrow> string" where
  "Addresses_String s = CHR ''['' # Join s '' '' @ '']''"

definition rootHandler :: http_response where
  "rootHandler = \<lparr>hr_status = StatusOK, hr_ContentType = [], hr_body = ''Metadata Service Proxy''\<rparr>"

section \<open>main\<close>

text \<open>
  main ends with exit status 1 when Riak cannot be reached, panics on a negative number of
  workers, and otherwise serves: with the proxy, the key-value system, the reference of its
  store, the routes, and the address to listen on.
\<close>

datatype endpoint = Kv kv_handler | Api handler

datatype ('t, 'w) started =
    Exits
  | Serves "('t, 'w) proxy" kv_sys nat "(string \<times> endpoint) list" string

definition riak_addrs :: "conf \<Rightarrow> string list" where
  "riak_addrs cf = (if cf_RiakAddrs cf = [] then [''localhost:8087''] else cf_RiakAddrs cf)"

definition new_proxy :: "conf \<Rightarrow> 'w \<Rightarrow> ('t, 'w) proxy" where
  "new_proxy cf w =
     \<lparr>px_addr = cf_SafeAddr cf, px_caches = replicate (nat (cf_Nworker cf)) (cs_pmap (NewCache w)),
      px_pods = Map.empty, px_world = w\<rparr>"

definition main_start :: "'w riak_library \<Rightarrow> conf \<Rightarrow> kv_sys \<Rightarrow> 'w \<Rightarrow> ('t, 'w) started outcome" where
  "main_start R cf k w0 =
     (case Connect R (riak_addrs cf) NewRiakConn w0 of
        (False, _, _) \<Rightarrow> Ret Exits
      | (True, _, w) \<Rightarrow>
          if cf_Nworker cf < 0 then Panic
          else (case NewKvStore k of
                  ((r, routes), k') \<Rightarrow>
                    Ret (Serves (new_proxy cf w) k' r
                      (map (\<lambda>(p, h). (p, Kv h)) routes @ map (\<lambda>(p, h). (p, Api h)) SetupNewAPIs)
                      (cf_ListenAddr cf))))"

section \<open>Service\<close>

text \<open>
  A step of the service: a request with any outcome, or a change of the outside world (Riak and
  SAFE serve other proxies too).
\<close>

datatype px_event = Request handler http_request | World

inductive px_step :: "('t, 'w) env \<Rightarrow> ('t, 'w) proxy \<Rightarrow> px_event \<Rightarrow> ('t, 'w) proxy \<Rightarrow> bool" for E where
  request: "run_handler E h r s = (out, s') \<Longrightarrow> px_step E s (Request h r) s'"
| world: "px_step E s World (s\<lparr>px_world := w\<rparr>)"

inductive px_run :: "('t, 'w) env \<Rightarrow> ('t, 'w) proxy \<Rightarrow> px_event list \<Rightarrow> ('t, 'w) proxy \<Rightarrow> bool" for E where
  none: "px_run E s [] s"
| more: "px_step E s e s' \<Longrightarrow> px_run E s' es s'' \<Longrightarrow> px_run E s (e # es) s''"

inductive_simps px_run_Nil [simp]: "px_run E s [] s'"
inductive_cases px_step_requestE: "px_step E s (Request h r) s'"
inductive_cases px_step_worldE: "px_step E s World s'"

definition no_deletion :: "px_event \<Rightarrow> bool" where
  "no_deletion e \<longleftrightarrow> (\<forall>h r. e = Request h r \<longrightarrow> h \<notin> deleting_handlers)"

lemma caches_sound_world [simp]: "caches_sound E (s\<lparr>px_world := w\<rparr>) = caches_sound E s"
  by (simp add: caches_sound_def)

definition service_inv :: "('t, 'w) env \<Rightarrow> conf \<Rightarrow> ('t, 'w) proxy \<Rightarrow> bool" where
  "service_inv E cf s \<longleftrightarrow>
     caches_sound E s \<and> px_addr s = cf_SafeAddr cf \<and> length (px_caches s) = nat (cf_Nworker cf)"

lemma px_step_inv:
  assumes "px_step E s e s'" and "itree_ok (en_tree E)" and "no_deletion e" and "service_inv E cf s"
  shows "service_inv E cf s'"
  using assms(1,3,4)
proof (induction rule: px_step.induct)
  case (request h r s out s')
  then have "caches_sound E s" "h \<notin> deleting_handlers" by (simp_all add: service_inv_def no_deletion_def)
  from sound_step [OF assms(2) this request(1)] frame_step [OF request(1)] request(3)
  show ?case by (simp add: service_inv_def)
qed (simp add: service_inv_def)

lemma px_run_inv:
  assumes "px_run E s es s'" and "itree_ok (en_tree E)" and "list_all no_deletion es" and "service_inv E cf s"
  shows "service_inv E cf s'"
  using assms(1,3,4) by (induction rule: px_run.induct) (auto intro: px_step_inv [OF _ assms(2)])

lemma new_proxy_inv: "service_inv E cf (new_proxy cf w)"
  by (simp add: service_inv_def new_proxy_def caches_sound_def NewCache_def)

lemma main_start_Serves:
  "main_start R cf k w0 = Ret (Serves s k' r routes a) \<Longrightarrow> \<exists>w. s = new_proxy cf w"
  by (auto simp: main_start_def split: prod.splits bool.splits if_splits)

lemma authenticateAddr_returns:
  assumes "itree_ok (en_tree E)" and "conn_v4 (en_conn E)" and "caches_sound E s" and "has_caches s"
  shows "fst (authenticateAddr E r s) \<noteq> Panic"
proof -
  let ?addr = "vars_get r ''instance_addr''"
  obtain addr port p2 st where p: "ParseIP2 ?addr = (addr, port, p2, st)" by (metis prod_cases4)
  let ?i = "cache_of s ''1''"
  have i: "?i < length (px_caches s)" by (rule cache_of_less [OF assms(4)])
  let ?c = "\<lparr>cs_pmap = px_caches s ! ?i, cs_world = px_world s\<rparr>"
  have inv: "cache_inv (en_tree E) ?c" using assms(3) i by (simp add: caches_sound_def cache_inv_def)
  show ?thesis
  proof (cases "st = StatusOK")
    case False
    then show ?thesis using p by (simp add: authenticateAddr_def getCache_eq [OF assms(4)] Let_def)
  next
    case True
    then have g: "is_goint (port + 1)" using ParseIP2_OK [of ?addr] p by (simp add: is_port_def)
    obtain res st1 c where run: "GetInstanceFromNetMap (en_tree E) (en_conn E) (ParseIP addr) port ?c = (Ret (res, st1), c)"
      and ok: "st1 = StatusOK \<Longrightarrow> \<exists>inst. res = Some inst"
      by (rule GetInstanceFromNetMap_spec [OF assms(1) inv g assms(2), of "ParseIP addr"]) blast
    have "\<exists>s'. with_cache ?i (GetInstanceFromNetMap (en_tree E) (en_conn E) (ParseIP addr) port) s = (Ret (res, st1), s')"
      using i run by (simp add: with_cache_def)
    then obtain s' where "with_cache ?i (GetInstanceFromNetMap (en_tree E) (en_conn E) (ParseIP addr) port) s = (Ret (res, st1), s')" ..
    then show ?thesis using p True ok
      by (cases "st1 = StatusOK") (auto simp: authenticateAddr_def getCache_eq [OF assms(4)] Let_def)
  qed
qed

text \<open>C5: from the start of the program on, whatever requests but deletions are served, with
  whatever outcome, and whatever Riak, SAFE and other proxies do in between: every index of every
  cache points to a range that has its instance, the number of caches is that of the workers, and
  the next lookup by address does not panic.\<close>

theorem service_sound:
  assumes "itree_ok (en_tree E)" and "conn_v4 (en_conn E)" and "0 < cf_Nworker cf" and "cf_Nworker cf < 2 ^ 32"
    and "main_start R cf k w0 = Ret (Serves s0 k' r routes a)"
    and "px_run E s0 es s" and "list_all no_deletion es"
  shows "caches_sound E s \<and> length (px_caches s) = nat (cf_Nworker cf) \<and>
    fst (run_handler E AuthenticateAddr req s) \<noteq> Panic"
proof -
  from main_start_Serves [OF assms(5)] have "service_inv E cf s0" using new_proxy_inv by auto
  from px_run_inv [OF assms(6,1,7) this] have inv: "caches_sound E s" "length (px_caches s) = nat (cf_Nworker cf)"
    by (simp_all add: service_inv_def)
  then have "has_caches s" using assms(3,4) by (simp add: has_caches_def nat_less_iff)
  from authenticateAddr_returns [OF assms(1,2) inv(1) this] inv show ?thesis by simp
qed

text \<open>A Riak library whose commands all succeed, and a service with one creation.\<close>

definition demo_library :: "demo_world riak_library" where
  "demo_library = \<lparr>rk_build = (\<lambda>c. True), rk_execute = (\<lambda>c w. (Some RespNone, w)),
     rk_new = (\<lambda>addrs w. (True, w)), rk_stop = (\<lambda>w. (True, w))\<rparr>"

lemma demo_start:
  "main_start demo_library default_conf (kv_init Map.empty) ([], 0) =
     Ret (Serves (new_proxy default_conf ([], 0)) (snd (NewKvStore (kv_init Map.empty))) 0
       (map (\<lambda>(p, h). (p, Kv h)) kv_routes @ map (\<lambda>(p, h). (p, Api h)) SetupNewAPIs) ''0.0.0.0:19851'')"
  by (simp add: main_start_def Connect_def checkIndex_def run_cmd_def demo_library_def NewRiakConn_def default_conf_def
      NewKvStore_def NewStore_def WrapName_def kv_init_def Let_def)

theorem service_sound_witness:
  "fst (run_handler demo_env AuthenticateAddr demo_create
     (snd (run_handler demo_env CreateInstance demo_create (new_proxy default_conf ([], 0))))) \<noteq> Panic"
proof -
  let ?s0 = "new_proxy default_conf ([], 0) :: (elem list, demo_world) proxy"
  obtain out s where run: "run_handler demo_env CreateInstance demo_create ?s0 = (out, s)" by fastforce
  then have steps: "px_run demo_env ?s0 [Request CreateInstance demo_create] s"
    by (auto intro!: px_run.more px_step.request)
  have "list_all no_deletion [Request CreateInstance demo_create]"
    by (simp add: no_deletion_def deleting_handlers_def)
  from service_sound [OF _ _ _ _ demo_start steps this, of demo_create] run show ?thesis
    by (simp add: default_conf_def del: run_handler.simps)
qed

end
