(* ===== verification/NoPanic.thy ===== *)
theory NoPanic
  imports Startup
begin

text \<open>
  When the handlers of the proxy panic. A request whose body reads and that has as many
  parameters as its handler indexes never makes the handler panic in a proxy with sound caches;
  one with fewer does, as soon as its speaker is let through; and the legacy creation does whatever
  the number is. The number of parameters is the type of a request here, and the result a type
  soundness of the handlers.
\<close>

section \<open>Programs that return\<close>

text \<open>From a state in I the program returns a value in V and a state in J.\<close>

definition returns :: "('s \<Rightarrow> bool) \<Rightarrow> ('s \<Rightarrow> bool) \<Rightarrow> ('s, 'a) go \<Rightarrow> ('a \<Rightarrow> bool) \<Rightarrow> bool" where
  "returns I J f V \<longleftrightarrow> (\<forall>s. I s \<longrightarrow> (\<exists>a s'. f s = (Ret a, s') \<and> J s' \<and> V a))"

lemma totalI: "(\<And>s. I s \<Longrightarrow> \<exists>a s'. f s = (Ret a, s') \<and> J s' \<and> V a) \<Longrightarrow> returns I J f V"
  by (simp add: returns_def)

lemma totalE:
  assumes "returns I J f V" and "I s"
  obtains a s' where "f s = (Ret a, s')" and "J s'" and "V a"
  using assms by (auto simp: returns_def)

lemma total_mono: "returns I J f V \<Longrightarrow> (\<And>a. V a \<Longrightarrow> W a) \<Longrightarrow> returns I J f W"
  by (fastforce simp: returns_def)

lemma total_return: "(\<And>s. I s \<Longrightarrow> J s) \<Longrightarrow> V a \<Longrightarrow> returns I J (go_return a) V"
  by (simp add: returns_def)

lemma total_return_same: "V a \<Longrightarrow> returns I I (go_return a) V"
  by (simp add: returns_def)

lemma total_bind:
  assumes "returns I I m V" and "\<And>a. V a \<Longrightarrow> returns I J (f a) W"
  shows "returns I J (go_bind m f) W"
proof (rule totalI)
  fix s assume "I s"
  with assms(1) obtain a s1 where "m s = (Ret a, s1)" "I s1" "V a" by (rule totalE)
  moreover from assms(2) [OF this(3)] this(2) obtain b s2 where "f a s1 = (Ret b, s2)" "J s2" "W b" by (rule totalE)
  ultimately show "\<exists>a s'. go_bind m f s = (Ret a, s') \<and> J s' \<and> W a" by simp
qed

lemma go_nth_in: "i < length xs \<Longrightarrow> go_bind (go_nth xs i) f = f (xs ! i)"
  by (rule ext) (simp add: go_nth_def go_bind_def)

lemma total_nth: "i < length xs \<Longrightarrow> returns I I (go_nth xs i) (\<lambda>x. x = xs ! i)"
  by (simp add: go_nth_def returns_def)

section \<open>Answers of lookups and of SAFE\<close>

definition http_code :: "int \<Rightarrow> bool" where
  "http_code st \<longleftrightarrow> 100 \<le> st \<and> st \<le> 999"

lemma http_codes [simp]:
  "http_code StatusOK" "http_code StatusBadRequest" "http_code StatusUnauthorized" "http_code StatusNotFound"
  "http_code StatusInternalServerError"
  by (simp_all add: http_code_def)

text \<open>A lookup answers 200 only with an instance.\<close>

definition lookup_answer :: "CachedInstance option \<times> int \<Rightarrow> bool" where
  "lookup_answer a \<longleftrightarrow> http_code (snd a) \<and> (snd a = StatusOK \<longrightarrow> fst a \<noteq> None)"

text \<open>The instance is an IPv4 one: ComputeID panics on any other.\<close>

definition v4_answer :: "CachedInstance option \<times> int \<Rightarrow> bool" where
  "v4_answer a \<longleftrightarrow> (\<forall>inst. fst a = Some inst \<longrightarrow> is_v4 (ci_Ip inst))"

text \<open>net/http reads status codes of three digits; those below 100 have no meaning.\<close>

definition code_result :: "do_result \<Rightarrow> bool" where
  "code_result res \<longleftrightarrow>
     (case res of DoError err resp \<Rightarrow> (case resp of None \<Rightarrow> True | Some code \<Rightarrow> http_code code)
      | DoResponse code body \<Rightarrow> http_code code)"

definition safe_codes :: "('t, 'w) env \<Rightarrow> bool" where
  "safe_codes E \<longleftrightarrow> (\<forall>req w. code_result (fst (en_do E req w)))"

text \<open>A request with a cache of its own and at least \<open>k\<close> parameters; an authenticated one.\<close>

definition typed :: "nat \<Rightarrow> nat \<Rightarrow> MetadataRequest \<Rightarrow> bool" where
  "typed n k mr \<longleftrightarrow> (\<exists>i < n. mr_cache mr = Some i) \<and> k \<le> length (mr_vals mr)"

definition identified :: "MetadataRequest \<Rightarrow> bool" where
  "identified mr \<longleftrightarrow> mr_Principal mr = IaaSProvider \<or> mr_instance mr \<noteq> None"

definition hook_answer :: "(MetadataRequest \<Rightarrow> bool) \<Rightarrow> MetadataRequest \<times> string \<times> int \<Rightarrow> bool" where
  "hook_answer R a \<longleftrightarrow> (case a of (mr, msg, st) \<Rightarrow> http_code st \<and> (st = StatusOK \<longrightarrow> R mr))"

lemma typed_vals: "typed n k mr \<Longrightarrow> i < k \<Longrightarrow> i < length (mr_vals mr)"
  by (simp add: typed_def)

lemma typed_set_val [simp]: "typed n k (set_val mr i v) = typed n k mr"
  by (simp add: typed_def set_val_def mr_vals_def)

section \<open>The interface\<close>

text \<open>
  What the handlers need of the caches to return: every operation of an existing cache returns,
  for the addresses the parsers give.
\<close>

locale total_cache =
  fixes E :: "('t, 'w) env" and I :: "('t, 'w) proxy \<Rightarrow> bool" and n :: nat
  assumes caches: "I s \<Longrightarrow> has_caches s \<and> length (px_caches s) = n"
    and net: "i < n \<Longrightarrow> is_goint (port + 1) \<Longrightarrow>
      returns I I (with_cache i (GetInstanceFromNetMap (en_tree E) (en_conn E) ip port)) lookup_answer"
    and uuid: "i < n \<Longrightarrow> returns I I (with_cache i (GetInstanceFromID (en_tree E) (en_conn E) pid))
      (\<lambda>a. lookup_answer a \<and> v4_answer a)"
    and put: "i < n \<Longrightarrow> is_v4 (ci_Ip inst) \<Longrightarrow>
      returns I I (with_cache i (PutInstance (en_tree E) (en_conn E) inst)) (\<lambda>_. True)"
    and del: "i < n \<Longrightarrow> is_v4 ip \<Longrightarrow>
      returns I (\<lambda>_. True) (with_cache i (DelInstance (en_tree E) (en_conn E) ip l r pid)) (\<lambda>_. True)"
    and safe: "I s \<Longrightarrow> en_do E req (px_world s) = (res, w) \<Longrightarrow> I (s\<lparr>px_world := w\<rparr>) \<and> code_result res"
begin

lemma authenticate_total:
  assumes "typed n k mr"
  shows "returns I I (authenticate E mr who) lookup_answer"
proof -
  obtain ip l r st where p: "ParseIPNew who = (ip, l, r, st)" by (cases "ParseIPNew who")
  from assms obtain i where i: "i < n" "mr_cache mr = Some i" by (auto simp: typed_def)
  have "is_goint (l + 1)" if "st = StatusOK" using ParseIPNew_OK [of who ip l r] p that by (simp add: is_goint_def)
  then have "returns I I (mr_with_cache mr (if st \<noteq> StatusOK then GetInstanceFromID (en_tree E) (en_conn E) who
      else GetInstanceFromNetMap (en_tree E) (en_conn E) ip l)) lookup_answer"
    using i total_mono [OF uuid, of i "\<lambda>a. lookup_answer a"] by (simp add: mr_with_cache_def net)
  then have "returns I I (go_bind (mr_with_cache mr (if st \<noteq> StatusOK then GetInstanceFromID (en_tree E) (en_conn E) who
      else GetInstanceFromNetMap (en_tree E) (en_conn E) ip l))
      (\<lambda>(inst, status). go_return (if status \<noteq> StatusOK then (None, status) else (inst, status)))) lookup_answer"
    by (rule total_bind) (auto simp: lookup_answer_def intro!: total_return_same split: prod.splits)
  then show ?thesis
    by (simp add: authenticate_def p total_return_same lookup_answer_def)
qed

text \<open>What newAuth answers to a request that reads.\<close>

definition auth_answer :: "MetadataRequest \<Rightarrow> bool \<Rightarrow> MetadataRequest option \<times> int \<Rightarrow> bool" where
  "auth_answer mr0 b a \<longleftrightarrow> http_code (snd a) \<and>
     (snd a = StatusOK \<longrightarrow> (\<exists>mr. fst a = Some mr \<and> typed n (length (mr_vals mr0)) mr \<and> mr_vals mr = mr_vals mr0 \<and>
        mr_targetAddrIndex mr = 0 \<and> (b \<longrightarrow> identified mr)))"

lemma newAuth_total:
  assumes rd: "ReadRequest r = (Some mr0, StatusOK)"
  shows "returns I I (newAuth E r b) (auth_answer mr0 b)"
proof (rule totalI)
  fix s assume I: "I s"
  with caches have hc: "has_caches s" and len: "length (px_caches s) = n" by auto
  let ?mr = "opened s r mr0"
  have idx: "mr_targetAddrIndex mr0 = 0"
    using rd by (cases rule: ReadRequest_cases [of r, case_names bad good]) auto
  have vals: "mr_vals ?mr = mr_vals mr0" by (simp add: mr_vals_def)
  have ty: "typed n (length (mr_vals mr0)) ?mr"
    using cache_of_less [OF hc, of "mr_Auth mr0"] len by (simp add: typed_def vals)
  show "\<exists>a s'. newAuth E r b s = (Ret a, s') \<and> I s' \<and> auth_answer mr0 b a"
  proof (cases "mr_Principal ?mr = IaaSProvider")
    case True
    then have "newAuth E r b s = (Ret (Some ?mr, StatusOK), s)"
      by (simp only: newAuth_opened [OF rd hc] Let_def if_True refl)
    moreover have "auth_answer mr0 b (Some ?mr, StatusOK)"
      using True idx vals ty by (simp add: auth_answer_def identified_def del: opened_simps(1))
    ultimately show ?thesis using I by blast
  next
    case False
    from totalE [OF authenticate_total [OF ty, of "mr_Principal ?mr"] I] obtain inst st s1 where
      au: "authenticate E ?mr (mr_Principal ?mr) s = (Ret (inst, st), s1)" "I s1" "lookup_answer (inst, st)"
      by (metis prod.collapse)
    obtain ip l q st2 where p: "ParseIPNew (rq_RemoteAddr r) = (ip, l, q, st2)" by (cases "ParseIPNew (rq_RemoteAddr r)")
    have st2: "st2 \<noteq> StatusOK \<Longrightarrow> st2 = StatusBadRequest" using ParseIPNew_error [OF p] .
    note run = newAuth_opened [OF rd hc, of E b, unfolded Let_def if_not_P [OF False]]
    consider (denied) "st \<noteq> StatusOK" "b" | (unknown) "st \<noteq> StatusOK" "\<not> b"
      | (remote) "st = StatusOK" "st2 \<noteq> StatusOK" | (known) i where "st = StatusOK" "st2 = StatusOK" "inst = Some i"
      using au(3) by (auto simp: lookup_answer_def)
    then show ?thesis
    proof cases
      case denied
      then have "newAuth E r b s = (Ret (None, st), s1)" using au(1) unfolding run by (simp del: opened_simps)
      with denied au show ?thesis by (auto simp: auth_answer_def lookup_answer_def)
    next
      case unknown
      then have "newAuth E r b s = (Ret (Some ?mr, StatusOK), s1)" using au(1) unfolding run by (simp del: opened_simps)
      with unknown au idx vals ty show ?thesis by (auto simp: auth_answer_def)
    next
      case remote
      then have "newAuth E r b s = (Ret (None, StatusBadRequest), s1)" using st2 au(1) unfolding run by (simp add: p del: opened_simps)
      with au show ?thesis by (auto simp: auth_answer_def)
    next
      case known
      let ?m = "as_instance ?mr i"
      have "newAuth E r b s = (Ret (Some ?m, StatusOK), s1)" using known au(1) unfolding run by (simp add: p del: opened_simps)
      moreover have "auth_answer mr0 b (Some ?m, StatusOK)"
        using ty idx vals by (simp add: auth_answer_def as_instance_def identified_def typed_def mr_vals_def)
      ultimately show ?thesis using au(2) by blast
    qed
  qed
qed

text \<open>The request after authorization for an address.\<close>

definition aimed :: "nat \<Rightarrow> MetadataRequest \<Rightarrow> bool" where
  "aimed k mr \<longleftrightarrow> typed n k mr \<and> is_v4 (mr_targetIp mr)"

lemma authz_target_total:
  assumes "typed n k mr" and "identified mr" and "is_v4 ip"
  shows "returns I I (authz_target (with_target mr ip l r)) (\<lambda>(mr', st). http_code st \<and> (st = StatusOK \<longrightarrow> aimed k mr'))"
proof -
  have "aimed k (with_target mr ip l r)" using assms(1,3) by (simp add: aimed_def typed_def)
  then show ?thesis using assms(2) by (simp add: returns_def authz_target_spec identified_def)
qed

lemma authzControl_total:
  assumes "typed n k mr" and "identified mr"
  shows "returns I I (authzControl E mr target u) (\<lambda>(mr', st). http_code st \<and> (st = StatusOK \<longrightarrow> aimed k mr'))"
proof -
  obtain ip l r st where p: "ParseIPNew target = (ip, l, r, st)" by (cases "ParseIPNew target")
  show ?thesis
  proof (cases "st = StatusOK")
    case True
    have "is_v4 ip" using ParseIPNew_OK [of target ip l r] p True by simp
    from authz_target_total [OF assms this] show ?thesis using True p by (simp add: authzControl_address)
  next
    case False
    with ParseIPNew_error [OF p] have st: "st = StatusBadRequest" by simp
    show ?thesis
    proof (cases u)
      case False
      with p st show ?thesis by (simp add: authzControl_def total_return_same)
    next
      case True
      let ?mr = "with_target mr ip l r"
      from assms(1) obtain i where i: "i < n" "mr_cache mr = Some i" by (auto simp: typed_def)
      have "authzControl E mr target True =
          go_bind (mr_with_cache ?mr (GetInstanceFromID (en_tree E) (en_conn E) target)) (\<lambda>(inst, status).
            if status \<noteq> StatusOK then go_return (?mr, status)
            else (case inst of None \<Rightarrow> go_panic
                  | Some inst \<Rightarrow> authz_target (with_target mr (ci_Ip inst) (ci_Lport inst) (ci_Rport inst))))"
        by (rule ext) (simp add: authzControl_def p st Let_def with_target_def cong: if_cong option.case_cong)
      moreover have "mr_with_cache ?mr f = with_cache i f" for f :: "(('t, 'w) cstate, CachedInstance option \<times> int) go"
        using i(2) by (simp add: mr_with_cache_def with_target_def)
      ultimately show ?thesis
        using True i(1) by (auto intro!: total_bind [OF uuid] authz_target_total [OF assms] total_return_same
            simp: lookup_answer_def v4_answer_def)
    qed
  qed
qed

section \<open>Hooks\<close>

lemma preInstanceCallHandler_total:
  assumes "typed n k mr" and "identified mr"
    and "(if mr_targetAddrIndex mr > 0 then nat (mr_targetAddrIndex mr) else 2) < k"
  shows "returns I I (preInstanceCallHandler E mr) (hook_answer (aimed k))"
  unfolding preInstanceCallHandler_def Let_def
  by (rule total_bind [OF total_nth [OF typed_vals [OF assms(1,3)]]])
     (auto simp: hook_answer_def intro!: total_bind [OF authzControl_total [OF assms(1,2)]] total_return_same)

lemma preVMInstanceCallHandler_total:
  assumes "typed n 5 mr" and "identified mr"
  shows "returns I I (preVMInstanceCallHandler E mr) (hook_answer (aimed 5))"
proof -
  have "returns I I (preInstanceCallHandler E
      (mr\<lparr>mr_targetCidr := Some cidr, mr_targetType := VM_INSTANCE_TYPE, mr_targetAddrIndex := 3\<rparr>)) (hook_answer (aimed 5))" for cidr
    using assms by (intro preInstanceCallHandler_total) (simp_all add: typed_def mr_vals_def identified_def)
  then show ?thesis
    unfolding preVMInstanceCallHandler_def
    by (auto simp: hook_answer_def intro!: total_return_same total_bind [OF total_nth [OF typed_vals [OF assms(1)]]]
        split: option.splits)
qed

lemma preLazyDelete_total:
  assumes "typed n 1 mr" and "identified mr"
  shows "returns I I (preLazyDelete E mr) (hook_answer (aimed 1))"
  unfolding preLazyDelete_def
  by (rule total_bind [OF total_nth [OF typed_vals [OF assms(1)]]])
     (auto simp: hook_answer_def aimed_def typed_def mr_vals_def
       intro!: total_bind [OF authzControl_total [OF assms]] total_return_same)

text \<open>A lookup of an instance, then a program that depends on its answer.\<close>

lemma lookup_total:
  assumes "typed n k mr"
    and "\<And>inst st. http_code st \<Longrightarrow> st \<noteq> StatusOK \<Longrightarrow> returns I I (f (inst, st)) V"
    and "\<And>inst. returns I I (f (Some inst, StatusOK)) V"
  shows "returns I I (go_bind (authenticate E mr who) f) V"
proof (rule total_bind [OF authenticate_total [OF assms(1)]])
  fix a assume "lookup_answer a"
  then show "returns I I (f a) V"
    using assms(2) [of "snd a" "fst a"] assms(3) by (cases "snd a = StatusOK"; cases a) (auto simp: lookup_answer_def)
qed

lemma preEndorsementLink_total:
  "typed n 1 mr \<Longrightarrow> returns I I (preEndorsementLink E mr) (hook_answer (typed n 0))"
  unfolding preEndorsementLink_def
  by (intro total_bind [OF total_nth] lookup_total) (auto simp: hook_answer_def typed_def set_val_def intro!: total_return_same)

lemma preMembership_total:
  "typed n 2 mr \<Longrightarrow> returns I I (preMembership E mr) (hook_answer (typed n 0))"
  unfolding preMembership_def
  by (intro total_bind [OF total_nth] lookup_total) (auto simp: hook_answer_def typed_def set_val_def intro!: total_return_same)

lemma preCheckInstance_total:
  "typed n 1 mr \<Longrightarrow> returns I I (preCheckInstance E mr) (hook_answer (typed n 0))"
  unfolding preCheckInstance_def
  by (intro total_bind [OF total_nth])
     (auto simp: hook_answer_def typed_def set_val_def intro!: total_return_same lookup_total)

lemma preEndorsement_total: "typed n 0 mr \<Longrightarrow> returns I I (preEndorsement mr) (hook_answer (typed n 0))"
  by (simp add: preEndorsement_def hook_answer_def typed_def total_return_same)

section \<open>Forwarding\<close>

text \<open>The final state is in J, which a request that changes nothing else keeps.\<close>

definition code_answer :: "string \<times> int \<Rightarrow> bool" where
  "code_answer a \<longleftrightarrow> http_code (snd a)"

definition post_total :: "(('t, 'w) proxy \<Rightarrow> bool) \<Rightarrow> (MetadataRequest \<Rightarrow> bool) \<Rightarrow> ('t, 'w) post_hook option \<Rightarrow> bool" where
  "post_total J R post \<longleftrightarrow>
     (\<forall>h mr dat st. post = Some h \<longrightarrow> R mr \<longrightarrow> http_code st \<longrightarrow> returns I J (h mr dat st) code_answer)"

lemma post_total_None [simp]: "post_total J R None"
  by (simp add: post_total_def)

lemma forward_total:
  assumes "post_total J R post" and "R mr" and IJ: "\<And>s. I s \<Longrightarrow> J s"
  shows "returns I J (forward E mr post) code_answer"
proof (rule totalI)
  fix s assume "I s"
  obtain res w where d: "en_do E \<lparr>or_Method = mr_method mr, or_Url = getUrl (px_addr s) (mr_url mr),
      or_Body = EncodingMetadataRequest mr\<rparr> (px_world s) = (res, w)" by fastforce
  from safe [OF \<open>I s\<close> d] have I': "I (s\<lparr>px_world := w\<rparr>)" and code: "code_result res" by simp_all
  have hook: "\<exists>a s'. h mr dat st (s\<lparr>px_world := w\<rparr>) = (Ret a, s') \<and> J s' \<and> code_answer a"
    if "post = Some h" "http_code st" for h dat st
    using assms(1,2) that I' unfolding post_total_def returns_def by blast
  show "\<exists>a s'. forward E mr post s = (Ret a, s') \<and> J s' \<and> code_answer a"
    using \<open>I s\<close> IJ I' code hook
    by (auto simp: forward_def d Let_def code_answer_def code_result_def split: option.splits do_result.splits sum.splits)
qed

lemma newHandler_total:
  assumes "returns I I (case pre of Some h \<Rightarrow> h mr | None \<Rightarrow> go_return (mr, [], StatusOK)) (hook_answer R)"
    and "post_total J R post" and "\<And>s. I s \<Longrightarrow> J s"
  shows "returns I J (newHandler E mr pre post) code_answer"
  unfolding newHandler_def
proof (rule total_bind [OF assms(1)])
  fix a assume "hook_answer R a"
  then show "returns I J (case a of (mr, msg, status) \<Rightarrow>
      if status \<noteq> StatusOK then go_return (msg, status) else forward E mr post) code_answer"
    by (cases a) (auto simp: hook_answer_def code_answer_def assms(3) intro!: total_return forward_total [OF assms(2)])
qed

lemma newHandler_plain: "returns I I (newHandler E mr None None) code_answer"
  by (rule newHandler_total [where R = "\<lambda>_. True"]) (simp_all add: hook_answer_def total_return_same)

lemma respond_total: "code_answer a \<Longrightarrow> returns J J (respond a) (\<lambda>_. True)"
  by (cases a) (simp add: code_answer_def http_code_def respond_def total_return_same)

lemma handler_total:
  assumes rd: "ReadRequest r = (Some mr0, StatusOK)" and k: "k \<le> length (mr_vals mr0)"
    and pre: "\<And>mr. typed n k mr \<Longrightarrow> mr_targetAddrIndex mr = 0 \<Longrightarrow> (b \<Longrightarrow> identified mr) \<Longrightarrow>
      returns I I (case pre of Some h \<Rightarrow> h mr | None \<Rightarrow> go_return (mr, [], StatusOK)) (hook_answer R)"
    and post: "post_total J R post" and IJ: "\<And>s. I s \<Longrightarrow> J s"
  shows "returns I J (go_bind (newHandlerUnwrapped E r pre post b) respond) (\<lambda>_. True)"
proof -
  have "returns I J (newHandlerUnwrapped E r pre post b) code_answer"
    unfolding newHandlerUnwrapped_def
  proof (rule total_bind [OF newAuth_total [OF rd, of b]])
    fix a assume a: "auth_answer mr0 b a"
    have ready: "typed n k mr" if "typed n (length (mr_vals mr0)) mr" for mr using that k by (simp add: typed_def)
    show "returns I J (case a of (metareq, status) \<Rightarrow>
        if status \<noteq> StatusOK then go_return (''can not authenticate request'' @ [CHR 10], status)
        else (case metareq of None \<Rightarrow> go_panic | Some mr \<Rightarrow> newHandler E mr pre post)) code_answer"
      using a IJ by (cases a)
        (auto simp: auth_answer_def code_answer_def intro!: total_return newHandler_total [OF pre post] dest: ready)
  qed
  then have "returns I (\<lambda>s. J s \<and> True) (newHandlerUnwrapped E r pre post b) code_answer" by simp
  then show ?thesis
    using respond_total unfolding returns_def by (metis go_bind_Ret)
qed

section \<open>Configurations\<close>

lemma post_chunks_total:
  "0 < current \<Longrightarrow> current + remain = length (mr_vals mr) \<Longrightarrow>
   returns I I (post_chunks E mr current remain) (\<lambda>res. case res of Inl a \<Rightarrow> code_answer a \<and> snd a \<noteq> StatusOK | Inr _ \<Rightarrow> True)"
proof (induction remain arbitrary: current rule: less_induct)
  case (less remain)
  show ?case
  proof (cases "remain > 10")
    case False
    then show ?thesis by (subst post_chunks.simps) (simp add: total_return_same)
  next
    case True
    with less.prems have len: "0 < length (mr_vals mr)" "current + 10 \<le> length (mr_vals mr)" by linarith+
    have IH: "returns I I (post_chunks E mr (current + 10) (remain - 10))
        (\<lambda>res. case res of Inl a \<Rightarrow> code_answer a \<and> snd a \<noteq> StatusOK | Inr _ \<Rightarrow> True)"
      using less.IH [of "remain - 10" "current + 10"] less.prems True by simp
    show ?thesis
      unfolding post_chunks.simps [of E mr current remain] if_P [OF True]
      by (rule total_bind [OF total_nth [OF len(1)]])
         (use len(2) IH in \<open>auto intro!: total_bind [OF newHandler_plain] total_return_same\<close>)
  qed
qed

lemma post_config_total:
  assumes "typed n 1 mr"
  shows "returns I I (post_config E base mr) (hook_answer (typed n 0))"
proof -
  have "1 + (length (mr_vals mr) - 1) = length (mr_vals mr)" using assms unfolding typed_def by linarith
  from post_chunks_total [OF _ this] show ?thesis
    unfolding post_config_def
    by (rule total_bind)
       (use assms in \<open>auto simp: hook_answer_def code_answer_def typed_def intro!: total_return_same split: sum.splits prod.splits\<close>)
qed

lemma preSelfConfig_total: "typed n 0 mr \<Longrightarrow> returns I I (preSelfConfig E mr) (hook_answer (typed n 0))"
  unfolding preSelfConfig_def by (rule post_config_total) (simp add: typed_def mr_vals_def)

lemma parent_only_total:
  assumes "typed n 1 mr" and "\<And>inst mr. typed n 1 mr \<Longrightarrow> returns I I (rest inst mr) (hook_answer (typed n 0))"
  shows "returns I I (parent_only E rest mr) (hook_answer (typed n 0))"
proof -
  have "0 < length (mr_vals mr)" using typed_vals [OF assms(1)] by blast
  note nth = total_nth [OF this]
  show ?thesis
    unfolding parent_only_def
    by (rule total_bind [OF nth], rule lookup_total [OF assms(1)])
       (use assms in \<open>auto simp: hook_answer_def intro!: total_return_same\<close>)
qed

lemma kv_pairs_even:
  "even (length vs - current) \<Longrightarrow> kv_pairs vs current \<noteq> None"
proof (induction vs current rule: kv_pairs.induct)
  case (1 vs current)
  show ?case
  proof (cases "current < length vs")
    case False
    then show ?thesis by (simp add: kv_pairs.simps)
  next
    case True
    have "current + 1 \<noteq> length vs"
    proof
      assume "current + 1 = length vs"
      then have "length vs - current = 1" by simp
      with 1(2) show False by simp
    qed
    with True have "current + 1 < length vs" by simp
    moreover from this 1(2) have "even (length vs - (current + 2))" by simp
    ultimately show ?thesis using 1(1) [OF True] True by (simp add: kv_pairs.simps [of vs current])
  qed
qed

lemma postKvConfig_total:
  assumes "typed n 1 mr"
  shows "returns I I (postKvConfig E inst mr) (hook_answer (typed n 0))"
proof (cases "(length (mr_vals mr) - 1) mod 2 = 0 \<or> length (mr_vals mr) - 1 < 2")
  case True
  then show ?thesis by (auto simp: postKvConfig_def Let_def hook_answer_def intro!: total_return_same)
next
  case False
  then have "even (length (mr_vals mr) - 2)" by presburger
  from kv_pairs_even [OF this] obtain texts where kv: "kv_pairs (mr_vals mr) 2 = Some texts" by blast
  have ty: "typed n 0 (set_val mr i v)" for i v using assms by (simp add: typed_def set_val_def)
  show ?thesis
    unfolding postKvConfig_def Let_def if_not_P [OF False] kv option.case
    by (rule total_bind [OF newHandler_plain])
       (use ty in \<open>auto simp: hook_answer_def code_answer_def intro!: total_return_same\<close>)
qed

lemma config_total:
  "typed n 1 mr \<Longrightarrow> returns I I (preInstanceConfig E mr) (hook_answer (typed n 0))"
  "typed n 1 mr \<Longrightarrow> returns I I (preInstanceKvConfig E mr) (hook_answer (typed n 0))"
  unfolding preInstanceConfig_def preInstanceKvConfig_def
  by (intro parent_only_total post_config_total postKvConfig_total; assumption)+

section \<open>Creations and deletions\<close>

lemma postInstanceCreationHandler_total:
  "0 < k \<Longrightarrow> post_total I (aimed k) (Some (postInstanceCreationHandler E))"
  unfolding post_total_def
  by (auto simp: postInstanceCreationHandler_def Let_def aimed_def typed_def mr_with_cache_def code_answer_def
      intro!: total_return_same total_bind [OF total_nth] total_bind [OF put])

lemma postInstanceDeletionHandler_total:
  assumes "0 < k"
  shows "post_total (\<lambda>_. True) (aimed k) (Some (postInstanceDeletionHandler E))"
proof -
  have "returns I (\<lambda>_. True) (postInstanceDeletionHandler E mr dat st) code_answer" if mr: "aimed k mr" and st: "http_code st" for mr dat st
  proof -
    from mr obtain i where i: "i < n" "mr_cache mr = Some i" and v4: "is_v4 (mr_targetIp mr)" and len: "0 < length (mr_vals mr)"
      using assms less_le_trans [of 0 k "length (mr_vals mr)"] unfolding aimed_def typed_def by blast
    have "returns I (\<lambda>_. True) (go_bind (mr_with_cache mr (DelInstance (en_tree E) (en_conn E) (mr_targetIp mr)
        (mr_targetLport mr) (mr_targetRport mr) pid)) (\<lambda>_. go_return (done_message pid, StatusOK))) code_answer" for pid
    proof (rule totalI)
      fix s assume "I s"
      with del [OF i(1) v4] obtain a s' where
        "with_cache i (DelInstance (en_tree E) (en_conn E) (mr_targetIp mr) (mr_targetLport mr) (mr_targetRport mr) pid) s =
          (Ret a, s')" by (rule totalE)
      with i(2) show "\<exists>a s'. go_bind (mr_with_cache mr (DelInstance (en_tree E) (en_conn E) (mr_targetIp mr)
          (mr_targetLport mr) (mr_targetRport mr) pid)) (\<lambda>_. go_return (done_message pid, StatusOK)) s = (Ret a, s') \<and>
          True \<and> code_answer a"
        by (simp add: mr_with_cache_def code_answer_def)
    qed
    then show ?thesis
      using st by (auto simp: postInstanceDeletionHandler_def code_answer_def intro!: total_return total_bind [OF total_nth [OF len]])
  qed
  then show ?thesis by (simp add: post_total_def)
qed

end

section \<open>The handlers by their hooks\<close>

definition vm_handlers :: "handler set" where
  "vm_handlers = {CreateVMInstance, DeleteVMInstance}"

text \<open>The handlers that never read the request as one for SAFE.\<close>

definition reads_request :: "handler \<Rightarrow> bool" where
  "reads_request h \<longleftrightarrow> h \<notin> {PostPodNew, AuthPodNew, AuthenticateAddr}"

text \<open>
  The parameters that a handler indexes; no number is enough for the legacy creation, which
  indexes past the two that it keeps.
\<close>

fun arity :: "handler \<Rightarrow> nat option" where
  "arity CreateInstance = Some 3"
| "arity DeleteInstance = Some 3"
| "arity CreateVMInstance = Some 5"
| "arity DeleteVMInstance = Some 5"
| "arity LazyDeleteInstance = Some 1"
| "arity CreateInstanceConfig = Some 1"
| "arity CreateInstanceKvConfig = Some 1"
| "arity CreateSelfConfig = Some 0"
| "arity CreateMembership = Some 2"
| "arity CreateEndorsementLink = Some 1"
| "arity CreateEndorsement = Some 0"
| "arity HandleOther = Some 0"
| "arity HandleOtherNoAuth = Some 0"
| "arity HandleCheckInstance = Some 1"
| "arity CreateInstanceLegacy = None"
| "arity PostPodNew = Some 0"
| "arity AuthPodNew = Some 0"
| "arity AuthenticateAddr = Some 0"

definition too_few :: "handler \<Rightarrow> string list \<Rightarrow> bool" where
  "too_few h vals \<longleftrightarrow> (case arity h of None \<Rightarrow> True | Some k \<Rightarrow> length vals < k)"

text \<open>The speakers whose request gets as far as its parameters.\<close>

definition let_through :: "handler \<Rightarrow> MetadataRequest \<Rightarrow> bool" where
  "let_through h mr \<longleftrightarrow> (h \<in> vm_handlers \<longrightarrow> mr_Principal mr = IaaSProvider) \<and>
     (h = CreateInstanceLegacy \<longrightarrow> mr_Principal mr \<noteq> IaaSProvider)"

definition needs_speaker :: "handler \<Rightarrow> bool" where
  "needs_speaker h \<longleftrightarrow> h \<notin> {CreateEndorsementLink, CreateEndorsement, HandleOtherNoAuth, HandleCheckInstance}"

fun pre_of :: "('t, 'w) env \<Rightarrow> handler \<Rightarrow> ('t, 'w) pre_hook option" where
  "pre_of E CreateInstance = Some (preInstanceCallHandler E)"
| "pre_of E DeleteInstance = Some (preInstanceCallHandler E)"
| "pre_of E CreateVMInstance = Some (preVMInstanceCallHandler E)"
| "pre_of E DeleteVMInstance = Some (preVMInstanceCallHandler E)"
| "pre_of E CreateInstanceLegacy = Some (preLegacyInstanceCallHandler E)"
| "pre_of E LazyDeleteInstance = Some (preLazyDelete E)"
| "pre_of E CreateInstanceConfig = Some (preInstanceConfig E)"
| "pre_of E CreateInstanceKvConfig = Some (preInstanceKvConfig E)"
| "pre_of E CreateSelfConfig = Some (preSelfConfig E)"
| "pre_of E CreateMembership = Some (preMembership E)"
| "pre_of E CreateEndorsementLink = Some (preEndorsementLink E)"
| "pre_of E CreateEndorsement = Some preEndorsement"
| "pre_of E HandleCheckInstance = Some (preCheckInstance E)"
| "pre_of E _ = None"

definition post_of :: "('t, 'w) env \<Rightarrow> handler \<Rightarrow> ('t, 'w) post_hook option" where
  "post_of E h =
     (if h \<in> creating_handlers then Some (postInstanceCreationHandler E)
      else if h \<in> deleting_handlers then Some (postInstanceDeletionHandler E) else None)"

lemma run_handler_hooks:
  assumes "reads_request h"
  shows "run_handler E h r = go_bind (newHandlerUnwrapped E r (pre_of E h) (post_of E h) (needs_speaker h)) respond"
  using assms
  by (cases h)
     (simp_all add: reads_request_def post_of_def creating_handlers_def deleting_handlers_def needs_speaker_def
        createInstance_def createVMInstance_def deleteInstance_def deleteVMInstance_def createInstanceLegacy_def
        lazyDeleteInstance_def createInstanceConfig_def createInstanceKvConfig_def createSelfConfig_def createMembership_def
        createEndorsementLink_def createEndorsement_def handleOther_def handleOtherNoAuth_def handleCheckInstance_def)

text \<open>With too few parameters the hook of a handler panics at an index.\<close>

lemma go_nth_out: "length xs \<le> i \<Longrightarrow> go_bind (go_nth xs i) f = go_panic"
  by (rule ext) (simp add: go_nth_def go_bind_def)

lemma preLegacy_panics:
  assumes "mr_Principal mr \<noteq> IaaSProvider" and "mr_targetAddrIndex mr = 0"
  shows "preLegacyInstanceCallHandler E mr = go_panic"
proof -
  consider "length (mr_vals mr) \<le> 0" | "0 < length (mr_vals mr)" "length (mr_vals mr) \<le> 1" | "1 < length (mr_vals mr)" "0 < length (mr_vals mr)"
    by linarith
  then show ?thesis
    by cases (use assms in \<open>simp_all add: go_panic_def [abs_def] preLegacyInstanceCallHandler_def go_nth_in go_nth_out preInstanceCallHandler_def mr_vals_def [of "mr_OtherValues_update _ _"]\<close>)
qed

lemma pre_of_panics:
  assumes "too_few h (mr_vals mr)" and "let_through h mr" and "mr_targetAddrIndex mr = 0"
  shows "\<exists>p. pre_of E h = Some p \<and> p mr = go_panic"
  using assms
  by (cases h)
     (auto simp: too_few_def let_through_def vm_handlers_def preInstanceCallHandler_def preVMInstanceCallHandler_def preInstanceConfig_def
        preInstanceKvConfig_def parent_only_def preMembership_def preEndorsementLink_def preCheckInstance_def preLazyDelete_def
        go_nth_out preLegacy_panics)

lemma pre_of_refused:
  assumes "\<not> let_through h mr"
  shows "\<exists>p msg st. pre_of E h = Some p \<and> p mr = go_return (mr, msg, st) \<and> st \<noteq> StatusOK \<and> http_code st"
proof -
  from assms consider "h \<in> vm_handlers" "mr_Principal mr \<noteq> IaaSProvider" | "h = CreateInstanceLegacy" "mr_Principal mr = IaaSProvider"
    by (auto simp: let_through_def)
  then show ?thesis
  proof cases
    case 1
    then show ?thesis
      by (intro exI [of _ "preVMInstanceCallHandler E"] exI [of _ "''only IaaS provider can create VM''"] exI [of _ StatusUnauthorized])
         (auto simp: vm_handlers_def preVMInstanceCallHandler_def)
  next
    case 2
    then show ?thesis
      by (intro exI [of _ "preLegacyInstanceCallHandler E"] exI [of _ "''Should not use legacy API to create VMs!''"] exI [of _ StatusBadRequest])
         (auto simp: preLegacyInstanceCallHandler_def)
  qed
qed

text \<open>The handlers of pods only read and write the map of pods.\<close>

lemma pods_return: "fst (postPodNew r s) \<noteq> Panic" "fst (authPodNew r s) \<noteq> Panic"
  by (auto simp: postPodNew_def authPodNew_def Let_def split: option.splits prod.splits)

context total_cache begin

lemma pre_of_total:
  assumes "arity h = Some k" and "reads_request h" and "typed n k mr" and "mr_targetAddrIndex mr = 0"
    and "needs_speaker h \<Longrightarrow> identified mr"
  shows "returns I I (case pre_of E h of Some p \<Rightarrow> p mr | None \<Rightarrow> go_return (mr, [], StatusOK))
    (hook_answer (if h \<in> creating_handlers \<union> deleting_handlers then aimed k else typed n 0))"
  using assms
  by (cases h)
     (auto simp: creating_handlers_def deleting_handlers_def needs_speaker_def reads_request_def
        intro: preInstanceCallHandler_total preVMInstanceCallHandler_total preLazyDelete_total [unfolded One_nat_def] config_total preSelfConfig_total
          preMembership_total preEndorsementLink_total preCheckInstance_total preEndorsement_total
        intro!: total_return_same simp: hook_answer_def [of "typed n 0" "(mr, [], StatusOK)"])

text \<open>The final state of a handler: sound unless it deletes.\<close>

lemma post_of_total:
  assumes "arity h = Some k"
  shows "post_total (\<lambda>s. h \<notin> deleting_handlers \<longrightarrow> I s)
    (if h \<in> creating_handlers \<union> deleting_handlers then aimed k else typed n 0) (post_of E h)"
proof -
  have "0 < k" if "h \<in> creating_handlers \<union> deleting_handlers"
    using that assms by (auto simp: creating_handlers_def deleting_handlers_def)
  then show ?thesis
    using postInstanceCreationHandler_total [of k] postInstanceDeletionHandler_total [of k]
    by (auto simp: post_of_def post_total_def creating_handlers_def deleting_handlers_def)
qed

lemma handler_returns:
  assumes "arity h = Some k" and "reads_request h" and "ReadRequest r = (Some mr0, StatusOK)" and "k \<le> length (mr_vals mr0)"
  shows "returns I (\<lambda>s. h \<notin> deleting_handlers \<longrightarrow> I s) (run_handler E h r) (\<lambda>_. True)"
  unfolding run_handler_hooks [OF assms(2)]
  by (rule handler_total [OF assms(3,4) pre_of_total [OF assms(1,2)] post_of_total [OF assms(1)]]) simp_all

text \<open>
  Exactly when a handler panics: its speaker is let through, and the request is short of parameters.
\<close>

lemma handler_panics_iff:
  assumes "I s" and reads: "reads_request h" and rd: "ReadRequest r = (Some mr0, StatusOK)"
  shows "fst (run_handler E h r s) = Panic \<longleftrightarrow>
    too_few h (mr_vals mr0) \<and> (\<exists>mr s'. newAuth E r (needs_speaker h) s = (Ret (Some mr, StatusOK), s') \<and> let_through h mr)"
proof (cases "too_few h (mr_vals mr0)")
  case False
  then obtain k where k: "arity h = Some k" "k \<le> length (mr_vals mr0)" by (auto simp: too_few_def split: option.splits)
  from handler_returns [OF k(1) reads rd k(2)] assms(1) obtain a s' where "run_handler E h r s = (Ret a, s')" by (rule totalE)
  with False show ?thesis by simp
next
  case True
  from totalE [OF newAuth_total [OF rd, of "needs_speaker h"] assms(1)] obtain a s1 where
    au: "newAuth E r (needs_speaker h) s = (Ret a, s1)" "I s1" "auth_answer mr0 (needs_speaker h) a" by metis
  have run: "run_handler E h r s = go_bind (\<lambda>s1. (case a of (metareq, status) \<Rightarrow>
      if status \<noteq> StatusOK then go_return (''can not authenticate request'' @ [CHR 10], status)
      else (case metareq of None \<Rightarrow> go_panic | Some mr \<Rightarrow> newHandler E mr (pre_of E h) (post_of E h))) s1) respond s1"
    unfolding run_handler_hooks [OF reads] newHandlerUnwrapped_def go_bind_assoc by (simp add: go_bind_def au(1))
  show ?thesis
  proof (cases "snd a = StatusOK")
    case no: False
    then have "http_code (snd a)" using au(3) by (simp add: auth_answer_def)
    with no have "fst (run_handler E h r s) \<noteq> Panic"
      by (cases a) (simp add: run go_bind_def respond_def http_code_def)
    with no au(1) show ?thesis by auto
  next
    case yes: True
    with au(3) obtain mr where mr: "a = (Some mr, StatusOK)" "mr_vals mr = mr_vals mr0" "mr_targetAddrIndex mr = 0"
      by (cases a) (auto simp: auth_answer_def)
    then have run: "run_handler E h r s = go_bind (newHandler E mr (pre_of E h) (post_of E h)) respond s1"
      by (simp add: run)
    show ?thesis
    proof (cases "let_through h mr")
      case False
      from pre_of_refused [OF this, of E] obtain p msg st where
        "pre_of E h = Some p" "p mr = go_return (mr, msg, st)" "st \<noteq> StatusOK" "http_code st" by auto
      then have "fst (run_handler E h r s) \<noteq> Panic" by (simp add: run newHandler_def go_bind_def respond_def http_code_def)
      with False au(1) mr(1) show ?thesis by auto
    next
      case ok: True
      from pre_of_panics [OF _ ok mr(3), of E] True mr(2) obtain p where "pre_of E h = Some p" "p mr = go_panic" by auto
      then have "fst (run_handler E h r s) = Panic" by (simp add: run newHandler_def go_bind_def)
      with True ok au(1) mr(1) show ?thesis by auto
    qed
  qed
qed

end

section \<open>Sound caches return\<close>

text \<open>
  The instances of a cache are IPv4 ones, and so are those that the backend finds by an id: what
  the parsers give and \<open>conn_v4\<close> says of reloads. No operation adds another one.
\<close>

definition pids_v4 :: "'t Pmap \<Rightarrow> bool" where
  "pids_v4 m \<longleftrightarrow> (\<forall>p j. pm_PidMap m p = Some j \<longrightarrow> is_v4 (ci_Ip j))"

definition caches_v4 :: "('t, 'w) proxy \<Rightarrow> bool" where
  "caches_v4 s \<longleftrightarrow> (\<forall>m \<in> set (px_caches s). pids_v4 m)"

definition ids_v4 :: "('w, 'y) RiakConn_scheme \<Rightarrow> bool" where
  "ids_v4 conn \<longleftrightarrow> (\<forall>pid w insts. fst (rc_SearchIDNet conn pid w) = Some insts \<longrightarrow>
     (\<forall>inst \<in> set insts. is_v4 (ci_Ip inst)))"

definition cache_ready :: "('t, 'z) itree_scheme \<Rightarrow> ('t, 'w) cstate \<Rightarrow> bool" where
  "cache_ready T c \<longleftrightarrow> cache_inv T c \<and> pids_v4 (cs_pmap c)"

lemma pids_v4_new [simp]: "pids_v4 (NewPmap :: 't Pmap)"
  by (simp add: pids_v4_def NewPmap_def)

lemma put_result_pids: "pids_v4 m \<Longrightarrow> is_v4 (ci_Ip inst) \<Longrightarrow> pids_v4 (put_result T inst cid m)"
  by (simp add: pids_v4_def)

lemma put_all_pids:
  "pids_v4 m \<Longrightarrow> \<forall>inst \<in> set insts. is_v4 (ci_Ip inst) \<Longrightarrow> pids_v4 (snd (put_all T insts m))"
proof (induction insts arbitrary: m)
  case (Cons inst insts)
  from Cons.prems obtain cid where "inst_cid inst = Some cid" using inst_cid_v4 [of inst] by auto
  with Cons put_result_pids [of m inst T cid] show ?case by (simp add: PutCachedInstance_Ret)
qed simp

lemma reloadCache_ready:
  assumes "itree_ok T" and "conn_v4 conn" and "cache_ready T c" and run: "reloadCache T conn ip c = (x, c')"
  shows "cache_ready T c'"
proof -
  obtain res w where q: "rc_GetAllNetID conn ip (cs_world c) = (res, w)" by fastforce
  have "pids_v4 (cs_pmap c')"
  proof (cases res)
    case None
    with q run assms(3) show ?thesis by (auto simp: reloadCache_def cache_ready_def)
  next
    case (Some insts)
    with q assms(2) have "\<forall>inst \<in> set insts. is_v4 (ci_Ip inst)" unfolding conn_v4_def by (metis fst_conv)
    with put_all_pids [of "cs_pmap c" insts T] Some q run assms(3) show ?thesis
      by (auto simp: reloadCache_def on_pmap_def go_bind_def cache_ready_def split: prod.splits outcome.splits)
  qed
  moreover have "cache_inv T c'" using reloadCache_inv [OF assms(1) _ run] assms(3) by (simp add: cache_ready_def)
  ultimately show ?thesis by (simp add: cache_ready_def)
qed

definition returning :: "('t, 'w) env \<Rightarrow> nat \<Rightarrow> ('t, 'w) proxy \<Rightarrow> bool" where
  "returning E n s \<longleftrightarrow> itree_ok (en_tree E) \<and> conn_v4 (en_conn E) \<and> ids_v4 (en_conn E) \<and> safe_codes E \<and>
     caches_sound E s \<and> caches_v4 s \<and> has_caches s \<and> length (px_caches s) = n"

lemma with_cache_returns:
  assumes i: "i < n"
    and f: "\<And>c. itree_ok (en_tree E) \<Longrightarrow> conn_v4 (en_conn E) \<Longrightarrow> ids_v4 (en_conn E) \<Longrightarrow> cache_ready (en_tree E) c \<Longrightarrow>
      \<exists>a c'. f c = (Ret a, c') \<and> cache_ready (en_tree E) c' \<and> V a"
  shows "returns (returning E n) (returning E n) (with_cache i f) V"
proof (rule totalI)
  fix s assume s: "returning E n s"
  then have len: "i < length (px_caches s)" using i by (simp add: returning_def)
  let ?c = "\<lparr>cs_pmap = px_caches s ! i, cs_world = px_world s\<rparr>"
  have "cache_ready (en_tree E) ?c"
    using s len by (simp add: returning_def caches_sound_def caches_v4_def cache_inv_def cache_ready_def)
  with f s obtain a c' where run: "f ?c = (Ret a, c')" "cache_ready (en_tree E) c'" "V a"
    unfolding returning_def by blast
  let ?s' = "s\<lparr>px_caches := (px_caches s)[i := cs_pmap c'], px_world := cs_world c'\<rparr>"
  have "with_cache i f s = (Ret a, ?s')" using len run(1) by (simp add: with_cache_def)
  moreover have "returning E n ?s'"
    using s run(2) by (auto simp: returning_def caches_sound_def caches_v4_def has_caches_def cache_inv_def cache_ready_def
        dest!: set_update_subset_insert [THEN subsetD])
  ultimately show "\<exists>a s'. with_cache i f s = (Ret a, s') \<and> returning E n s' \<and> V a" using run(3) by blast
qed

lemma GetInstanceFromID_returns:
  assumes "itree_ok T" and "conn_v4 conn" and "ids_v4 conn" and "cache_ready T c"
  shows "\<exists>a c'. GetInstanceFromID T conn pid c = (Ret a, c') \<and> cache_ready T c' \<and> lookup_answer a \<and> v4_answer a"
proof (cases "GetCachedInstance (cs_pmap c) pid")
  case (Some inst)
  then have "is_v4 (ci_Ip inst)" using assms(4) by (auto simp: GetCachedInstance_def cache_ready_def pids_v4_def)
  with Some assms(4) show ?thesis by (simp add: GetInstanceFromID_def lookup_answer_def v4_answer_def)
next
  case None
  obtain res w where q: "rc_SearchIDNet conn pid (cs_world c) = (res, w)" by fastforce
  have world: "cache_ready T (c\<lparr>cs_world := w\<rparr>)" using assms(4) by (simp add: cache_ready_def)
  show ?thesis
  proof (cases "\<exists>p ps. res = Some (p # ps)")
    case False
    then have "res = None \<or> res = Some []" by (metis list.exhaust option.exhaust)
    with q None world show ?thesis
      by (auto simp: GetInstanceFromID_def reloadUUID_def lookup_answer_def v4_answer_def)
  next
    case True
    then obtain p ps where res: "res = Some (p # ps)" by blast
    with q assms(3) have v4: "is_v4 (ci_Ip p)" unfolding ids_v4_def by (metis fst_conv list.set_intros(1))
    obtain st c' where re: "reloadCache T conn (ci_Ip p) (c\<lparr>cs_world := w\<rparr>) = (Ret st, c')"
      "st = StatusOK \<or> st = StatusInternalServerError"
      by (rule reloadCache_v4 [OF assms(2), of T "ci_Ip p" "c\<lparr>cs_world := w\<rparr>"])
    have "cache_ready T c'" using reloadCache_ready [OF assms(1,2) world re(1)] .
    with re q res None v4 show ?thesis
      by (auto simp: GetInstanceFromID_def reloadUUID_def lookup_answer_def v4_answer_def)
  qed
qed

lemma copy_indexed_same: "copy_indexed r s = (y, s') \<Longrightarrow> s' = s"
  by (auto simp: copy_indexed_def split: option.splits)

text \<open>A lookup by address leaves the map as it was or as a reload leaves it.\<close>

lemma GetInstanceFromNetMap_pmap:
  assumes "GetInstanceFromNetMap T conn ip port c = (x, c')"
  shows "cs_pmap c' = cs_pmap c \<or> (\<exists>y c1. reloadCache T conn ip c = (y, c1) \<and> cs_pmap c' = cs_pmap c1)"
proof -
  obtain y c1 where "reloadCache T conn ip c = (y, c1)" by fastforce
  with assms show ?thesis
    by (auto simp: GetInstanceFromNetMap_def Let_def go_bind_def dest: copy_indexed_same split: sum.splits option.splits outcome.splits if_splits)
qed

lemma GetInstanceFromNetMap_answers:
  assumes "itree_ok T" and "conn_v4 conn" and "cache_inv T c" and "is_goint (port + 1)"
  shows "\<exists>a c'. GetInstanceFromNetMap T conn ip port c = (Ret a, c') \<and> cache_inv T c' \<and> lookup_answer a"
proof (rule GetInstanceFromNetMap_spec [OF assms(1,3,4,2), of ip])
  fix res st c'
  assume run: "GetInstanceFromNetMap T conn ip port c = (Ret (res, st), c')" "cache_inv T c'"
    and ok: "st = StatusOK \<Longrightarrow> \<exists>inst. res = Some inst \<and> innermost_instance T (cs_pmap c') (IP_String ip) port inst"
  have "lookup_answer (res, st)"
    using GetInstanceFromNetMap_status [OF run(1)] ok by (auto simp: lookup_answer_def)
  with run show ?thesis by blast
qed

lemma GetInstanceFromNetMap_returns:
  assumes "itree_ok T" and "conn_v4 conn" and "cache_ready T c" and "is_goint (port + 1)"
  shows "\<exists>a c'. GetInstanceFromNetMap T conn ip port c = (Ret a, c') \<and> cache_ready T c' \<and> lookup_answer a"
proof -
  have "cache_inv T c" using assms(3) by (simp add: cache_ready_def)
  from GetInstanceFromNetMap_answers [OF assms(1,2) this assms(4), of ip] obtain a c' where
    run: "GetInstanceFromNetMap T conn ip port c = (Ret a, c')" "cache_inv T c'" "lookup_answer a" by blast
  have "pids_v4 (cs_pmap c')"
    using GetInstanceFromNetMap_pmap [OF run(1)] reloadCache_ready [OF assms(1-3)] assms(3) by (auto simp: cache_ready_def)
  with run show ?thesis by (auto simp: cache_ready_def)
qed

lemma PutInstance_returns:
  assumes "itree_ok T" and "cache_ready T c" and "is_v4 (ci_Ip inst)"
  shows "\<exists>a c'. PutInstance T conn inst c = (Ret a, c') \<and> cache_ready T c'"
proof -
  from inst_cid_v4 [OF assms(3)] obtain cid where "inst_cid inst = Some cid" ..
  from PutInstance_v4 [OF this, of T conn c] obtain st w where
    run: "PutInstance T conn inst c = (Ret st, c\<lparr>cs_pmap := put_result T inst cid (cs_pmap c), cs_world := w\<rparr>)" by blast
  have "cache_ready T (c\<lparr>cs_pmap := put_result T inst cid (cs_pmap c), cs_world := w\<rparr>)"
    using PutInstance_inv [OF assms(1) _ run] put_result_pids [of "cs_pmap c" inst] assms(2,3) by (simp add: cache_ready_def)
  with run show ?thesis by blast
qed

interpretation returning: total_cache E "returning E n" n for E n
proof
  fix s assume "returning E n s"
  then show "has_caches s \<and> length (px_caches s) = n" by (simp add: returning_def)
next
  fix i port ip assume "i < n" "is_goint (port + 1)"
  then show "returns (returning E n) (returning E n) (with_cache i (GetInstanceFromNetMap (en_tree E) (en_conn E) ip port)) lookup_answer"
    by (intro with_cache_returns GetInstanceFromNetMap_returns)
next
  fix i pid assume "i < n"
  then show "returns (returning E n) (returning E n) (with_cache i (GetInstanceFromID (en_tree E) (en_conn E) pid))
      (\<lambda>a. lookup_answer a \<and> v4_answer a)"
    by (intro with_cache_returns GetInstanceFromID_returns)
next
  fix i and inst :: CachedInstance assume "i < n" "is_v4 (ci_Ip inst)"
  then show "returns (returning E n) (returning E n) (with_cache i (PutInstance (en_tree E) (en_conn E) inst)) (\<lambda>_. True)"
    by (intro with_cache_returns) (simp_all add: PutInstance_returns)
next
  fix i ip l r pid assume i: "i < n" and v4: "is_v4 ip"
  show "returns (returning E n) (\<lambda>_. True) (with_cache i (DelInstance (en_tree E) (en_conn E) ip l r pid)) (\<lambda>_. True)"
  proof (rule totalI)
    fix s assume "returning E n s"
    then have "i < length (px_caches s)" using i by (simp add: returning_def)
    then show "\<exists>a s'. with_cache i (DelInstance (en_tree E) (en_conn E) ip l r pid) s = (Ret a, s') \<and> True \<and> True"
      by (rule_tac DelInstance_v4 [OF v4, of "en_tree E" "en_conn E" l r pid
            "\<lparr>cs_pmap = px_caches s ! i, cs_world = px_world s\<rparr>"]) (simp add: with_cache_def)
  qed
next
  fix s req res w assume "returning E n s" and "en_do E req (px_world s) = (res, w)"
  then show "returning E n (s\<lparr>px_world := w\<rparr>) \<and> code_result res"
    by (auto simp: returning_def safe_codes_def has_caches_def caches_sound_def caches_v4_def
        dest!: spec [where x = req] spec [where x = "px_world s"])
qed

section \<open>Properties\<close>

text \<open>C9: when a handler panics. In a proxy with sound caches of IPv4 instances, over a backend of IPv4
  instances and a SAFE that answers with codes of three digits, a handler panics on a request that
  reads exactly when its speaker is let through (for virtual machines: as the provider; for the
  legacy creation: not as the provider) and the request has fewer parameters than the handler
  indexes, where no number is enough for the legacy creation. So every other handler returns on
  every request with enough parameters, whatever they are and whatever SAFE and Riak answer. The
  handlers that read no such request (pods, authenticateAddr) never panic.\<close>

theorem panics_exactly:
  assumes "itree_ok (en_tree E)" and "conn_v4 (en_conn E)" and "ids_v4 (en_conn E)" and "safe_codes E"
    and "caches_sound E s" and "caches_v4 s" and "has_caches s"
    and "reads_request h \<Longrightarrow> ReadRequest r = (Some mr0, StatusOK)"
  shows "fst (run_handler E h r s) = Panic \<longleftrightarrow>
    reads_request h \<and> too_few h (mr_vals mr0) \<and>
    (\<exists>mr s'. newAuth E r (needs_speaker h) s = (Ret (Some mr, StatusOK), s') \<and> let_through h mr)"
proof (cases "reads_request h")
  case True
  have "returning E (length (px_caches s)) s" using assms(1-7) by (simp add: returning_def)
  from returning.handler_panics_iff [OF this True assms(8)] True show ?thesis by simp
next
  case False
  then have "fst (run_handler E h r s) \<noteq> Panic"
    using pods_return [of r s] authenticateAddr_returns [OF assms(1,2,5,7), of r] by (auto simp: reads_request_def)
  with False show ?thesis by simp
qed

theorem panics_exactly_witness:
  "fst (run_handler demo_env CreateInstance (demo_request ''web'' [''app'', ''x'']) demo_proxy) = Panic \<and>
   fst (run_handler demo_env CreateInstance (demo_request ''web'' [''app'', ''x'', ''y'']) demo_proxy) \<noteq> Panic \<and>
   fst (run_handler demo_env CreateInstanceLegacy (demo_request ''web'' [''app'', ''x'', ''y'']) demo_proxy) = Panic \<and>
   fst (run_handler demo_env LazyDeleteInstance (demo_request ''web'' [''web'']) demo_proxy) \<noteq> Panic"
proof -
  have codes: "safe_codes demo_env" by (simp add: safe_codes_def code_result_def)
  have asc: "ascii ''web''" "list_all ascii [''app'', ''x'']" "list_all ascii [''app'', ''x'', ''y'']" "list_all ascii [''web'']"
    by (simp_all add: ascii_def in_byte_def)
  have tree: "itree_ok (en_tree demo_env)" "conn_v4 (en_conn demo_env)" "ids_v4 (en_conn demo_env)" by (simp_all add: ids_v4_def)
  have v4: "caches_v4 demo_proxy" by (simp add: caches_v4_def pids_v4_def demo_known demo_instance_def)
  note iff = panics_exactly [OF tree codes demo_sound v4 demo_has_caches]
  have reads: "reads_request CreateInstance" "reads_request CreateInstanceLegacy" "reads_request LazyDeleteInstance"
    by (simp_all add: reads_request_def)
  have "fst (run_handler demo_env CreateInstance (demo_request ''web'' [''app'', ''x'']) demo_proxy) = Panic"
    using iff [OF ReadRequest_demo [OF asc(1,2)], of CreateInstance] newAuth_web [OF asc(2), of True] reads
    by (simp add: too_few_def let_through_def vm_handlers_def needs_speaker_def)
  moreover have "fst (run_handler demo_env CreateInstance (demo_request ''web'' [''app'', ''x'', ''y'']) demo_proxy) \<noteq> Panic"
    using iff [OF ReadRequest_demo [OF asc(1,3)], of CreateInstance] by (simp add: too_few_def)
  moreover have "fst (run_handler demo_env CreateInstanceLegacy (demo_request ''web'' [''app'', ''x'', ''y'']) demo_proxy) = Panic"
    using iff [OF ReadRequest_demo [OF asc(1,3)], of CreateInstanceLegacy] newAuth_web [OF asc(3), of True] reads
    by (simp add: too_few_def let_through_def vm_handlers_def needs_speaker_def as_instance_def IaaSProvider_def)
  moreover have "fst (run_handler demo_env LazyDeleteInstance (demo_request ''web'' [''web'']) demo_proxy) \<noteq> Panic"
    using iff [OF ReadRequest_demo [OF asc(1,4)], of LazyDeleteInstance] by (simp add: too_few_def)
  ultimately show ?thesis by blast
qed

end
