(* ===== verification/Interleave.thy ===== *)
theory Interleave
  imports Startup NoPanic
begin

text \<open>
  Concurrent requests. net/http runs every handler in a goroutine of its own, and handlers meet at
  the caches, whose operations hold a mutex, and at the outside world. So the handlers interleave
  at these operations: a run of the service is a sequence of operations, of any handlers in any
  order. Every handler is such a sequence by itself (\<open>handler_ops\<close>), since the operations are all it
  does to the state.
\<close>

section \<open>Operations\<close>

datatype px_op =
    OpLookup nat IP int
  | OpFind nat string
  | OpPut nat CachedInstance
  | OpDelete nat IP int int string
  | OpSafe out_request
  | OpWorld                                    \<comment> \<open>other proxies, Riak and SAFE on their own\<close>

inductive op_step :: "('t, 'w) env \<Rightarrow> ('t, 'w) proxy \<Rightarrow> px_op \<Rightarrow> ('t, 'w) proxy \<Rightarrow> bool" for E where
  lookup: "with_cache i (GetInstanceFromNetMap (en_tree E) (en_conn E) ip port) s = (x, s') \<Longrightarrow> op_step E s (OpLookup i ip port) s'"
| find: "with_cache i (GetInstanceFromID (en_tree E) (en_conn E) pid) s = (x, s') \<Longrightarrow> op_step E s (OpFind i pid) s'"
| put: "with_cache i (PutInstance (en_tree E) (en_conn E) inst) s = (y, s') \<Longrightarrow> op_step E s (OpPut i inst) s'"
| delete: "with_cache i (DelInstance (en_tree E) (en_conn E) ip l r pid) s = (y, s') \<Longrightarrow> op_step E s (OpDelete i ip l r pid) s'"
| safe: "en_do E req (px_world s) = (res, w) \<Longrightarrow> op_step E s (OpSafe req) (s\<lparr>px_world := w\<rparr>)"
| world: "op_step E s OpWorld (s\<lparr>px_world := w\<rparr>)"

inductive op_run :: "('t, 'w) env \<Rightarrow> ('t, 'w) proxy \<Rightarrow> px_op list \<Rightarrow> ('t, 'w) proxy \<Rightarrow> bool" for E where
  none: "op_run E s [] s"
| more: "op_step E s e s' \<Longrightarrow> op_run E s' es s'' \<Longrightarrow> op_run E s (e # es) s''"

inductive_simps op_run_Nil [simp]: "op_run E s [] s'"
inductive_simps op_run_Cons: "op_run E s (e # es) s'"

lemma op_run_append: "op_run E s es t \<Longrightarrow> op_run E t fs u \<Longrightarrow> op_run E s (es @ fs) u"
  by (induction rule: op_run.induct) (auto intro: op_run.more)

lemma op_run_snoc: "op_run E s es t \<Longrightarrow> op_step E t e u \<Longrightarrow> op_run E s (es @ [e]) u"
  by (rule op_run_append) (auto intro: op_run.intros)

fun is_deletion :: "px_op \<Rightarrow> bool" where
  "is_deletion (OpDelete i ip l r pid) = True"
| "is_deletion e = False"

text \<open>The states that operations lead to from a given one, without deletions or with them.\<close>

definition reaches :: "('t, 'w) env \<Rightarrow> bool \<Rightarrow> ('t, 'w) proxy \<Rightarrow> ('t, 'w) proxy \<Rightarrow> bool" where
  "reaches E deletions s t \<longleftrightarrow> (\<exists>es. op_run E s es t \<and> (deletions \<or> list_all (\<lambda>e. \<not> is_deletion e) es))"

lemma reaches_step:
  "reaches E b s t \<Longrightarrow> op_step E t e u \<Longrightarrow> b \<or> \<not> is_deletion e \<Longrightarrow> reaches E b s u"
  unfolding reaches_def by (fastforce dest: op_run_snoc)

lemma reaches_refl: "reaches E b s s"
  unfolding reaches_def by (intro exI [of _ "[]"]) simp

text \<open>Being reached is kept by every operation, and so by every handler.\<close>

interpretation ops: cache_creator E "reaches E b s0" for E b s0
proof
  fix i ip port
  show "keeps (reaches E b s0) (with_cache i (GetInstanceFromNetMap (en_tree E) (en_conn E) ip port))"
    by (rule keepsI) (auto intro: reaches_step op_step.lookup)
next
  fix i pid
  show "keeps (reaches E b s0) (with_cache i (GetInstanceFromID (en_tree E) (en_conn E) pid))"
    by (rule keepsI) (auto intro: reaches_step op_step.find)
next
  fix s req assume "reaches E b s0 s"
  then show "reaches E b s0 (s\<lparr>px_world := snd (en_do E req (px_world s))\<rparr>)"
    by (rule reaches_step [OF _ op_step.safe]) (auto intro: prod.collapse [symmetric])
next
  fix i inst
  show "keeps (reaches E b s0) (with_cache i (PutInstance (en_tree E) (en_conn E) inst))"
    by (rule keepsI) (auto intro: reaches_step op_step.put)
qed

interpretation ops_all: cache_deleter E "reaches E True s0" for E s0
  by unfold_locales (rule keepsI, auto intro: reaches_step op_step.delete)

lemma handler_ops:
  assumes "h \<notin> pod_handlers" and "run_handler E h r s = (out, t)"
  shows "reaches E (h \<in> deleting_handlers) s t"
proof (cases "h \<in> deleting_handlers")
  case True
  then show ?thesis using keepsD [OF ops_all.all_keep [OF assms(1)] reaches_refl assms(2)] by simp
next
  case False
  then show ?thesis using keepsD [OF ops.all_but_deleters_keep [OF assms(1) False] reaches_refl assms(2)] by simp
qed

section \<open>Soundness\<close>

lemma op_step_inv:
  assumes "op_step E s e s'" and T: "itree_ok (en_tree E)" and "\<not> is_deletion e" and "service_inv E cf s"
  shows "service_inv E cf s'"
proof -
  let ?I = "\<lambda>s. \<forall>m \<in> set (px_caches s). itree_ok (en_tree E) \<longrightarrow> pmap_wf (en_tree E) m \<and> pmap_covered (en_tree E) m"
  have frame: "same_frame s s" by (simp add: same_frame_def)
  have I: "?I s" using assms(4) by (simp add: service_inv_def caches_sound_def)
  have "?I s' \<and> same_frame s s'"
    using assms(1,3)
  proof cases
    case lookup
    then show ?thesis using keepsD [OF sound_caches.net I] keepsD [OF with_cache_frame frame] by blast
  next
    case find
    then show ?thesis using keepsD [OF sound_caches.uuid I] keepsD [OF with_cache_frame frame] by blast
  next
    case put
    then show ?thesis using keepsD [OF sound_caches.put I] keepsD [OF with_cache_frame frame] by blast
  qed (use I in \<open>simp_all add: same_frame_def\<close>)
  with T assms(4) show ?thesis by (simp add: service_inv_def caches_sound_def same_frame_def)
qed

lemma op_run_inv:
  assumes "op_run E s es s'" and "itree_ok (en_tree E)" and "list_all (\<lambda>e. \<not> is_deletion e) es" and "service_inv E cf s"
  shows "service_inv E cf s'"
  using assms(1,3,4) by (induction rule: op_run.induct) (auto intro: op_step_inv [OF _ assms(2)])

lemma lookup_returns:
  assumes "itree_ok (en_tree E)" and "conn_v4 (en_conn E)" and "caches_sound E s" and "i < length (px_caches s)"
    and "is_goint (port + 1)"
  shows "\<exists>a s'. with_cache i (GetInstanceFromNetMap (en_tree E) (en_conn E) ip port) s = (Ret a, s') \<and> lookup_answer a"
proof -
  have "cache_inv (en_tree E) \<lparr>cs_pmap = px_caches s ! i, cs_world = px_world s\<rparr>"
    using assms(3,4) by (simp add: caches_sound_def cache_inv_def)
  from GetInstanceFromNetMap_answers [OF assms(1,2) this assms(5), of ip] assms(4) show ?thesis
    by (auto simp: with_cache_def)
qed

text \<open>C6: concurrent requests keep the caches sound. From the start of the program on, after any
  interleaving of the operations of handlers (but deletions) and of whatever the outside world
  does, every cache is sound, and a lookup of any address and port in any cache returns, with an
  instance when its status is 200; and every handler but those of pods and deletions is itself a
  sequence of such operations.\<close>

theorem interleavings_sound:
  assumes "itree_ok (en_tree E)" and "conn_v4 (en_conn E)"
    and "main_start R cf k w0 = Ret (Serves s0 k' r routes a)"
    and "op_run E s0 es s" and "list_all (\<lambda>e. \<not> is_deletion e) es"
  shows "caches_sound E s \<and> length (px_caches s) = nat (cf_Nworker cf) \<and>
    (\<forall>i ip port. i < nat (cf_Nworker cf) \<and> is_goint (port + 1) \<longrightarrow>
       (\<exists>res st t. with_cache i (GetInstanceFromNetMap (en_tree E) (en_conn E) ip port) s = (Ret (res, st), t) \<and>
          (st = StatusOK \<longrightarrow> res \<noteq> None))) \<and>
    (\<forall>h req out t. h \<notin> pod_handlers \<union> deleting_handlers \<and> run_handler E h req s = (out, t) \<longrightarrow>
       (\<exists>more. op_run E s more t \<and> list_all (\<lambda>e. \<not> is_deletion e) more))"
proof -
  from main_start_Serves [OF assms(3)] have "service_inv E cf s0" using new_proxy_inv by auto
  from op_run_inv [OF assms(4,1,5) this] have inv: "caches_sound E s" "length (px_caches s) = nat (cf_Nworker cf)"
    by (simp_all add: service_inv_def)
  have "\<exists>res st t. with_cache i (GetInstanceFromNetMap (en_tree E) (en_conn E) ip port) s = (Ret (res, st), t) \<and>
      (st = StatusOK \<longrightarrow> res \<noteq> None)" if "i < nat (cf_Nworker cf)" "is_goint (port + 1)" for i ip port
    using lookup_returns [OF assms(1,2) inv(1) _ that(2), of i ip] that(1) inv(2) by (fastforce simp: lookup_answer_def)
  moreover have "\<exists>more. op_run E s more t \<and> list_all (\<lambda>e. \<not> is_deletion e) more"
    if "h \<notin> pod_handlers \<union> deleting_handlers" "run_handler E h req s = (out, t)" for h req out t
    using handler_ops [of h E req s out t] that by (simp add: reaches_def)
  ultimately show ?thesis using inv by blast
qed

text \<open>Two creations and a lookup of other handlers in between.\<close>

theorem interleavings_sound_witness:
  "\<exists>s. op_run demo_env (new_proxy default_conf ([], 0))
      [OpPut 0 (demo_instance 100 200 ''web''), OpLookup 1 (IPv4 10 0 0 1) 150, OpWorld, OpPut 0 (demo_instance 110 130 ''app'')] s \<and>
    caches_sound demo_env s \<and> length (px_caches s) = 64"
proof -
  let ?s0 = "new_proxy default_conf ([], 0) :: (elem list, demo_world) proxy"
  obtain y1 s1 where s1: "with_cache 0 (PutInstance (en_tree demo_env) (en_conn demo_env) (demo_instance 100 200 ''web'')) ?s0 = (y1, s1)"
    by fastforce
  obtain y2 s2 where s2: "with_cache 1 (GetInstanceFromNetMap (en_tree demo_env) (en_conn demo_env) (IPv4 10 0 0 1) 150) s1 = (y2, s2)"
    by fastforce
  let ?s3 = "s2\<lparr>px_world := ([], 7)\<rparr>"
  obtain y4 s4 where s4: "with_cache 0 (PutInstance (en_tree demo_env) (en_conn demo_env) (demo_instance 110 130 ''app'')) ?s3 = (y4, s4)"
    by fastforce
  have run: "op_run demo_env ?s0 [OpPut 0 (demo_instance 100 200 ''web''), OpLookup 1 (IPv4 10 0 0 1) 150, OpWorld,
      OpPut 0 (demo_instance 110 130 ''app'')] s4"
    by (rule op_run.more [OF op_step.put [OF s1]], rule op_run.more [OF op_step.lookup [OF s2]],
        rule op_run.more [OF op_step.world], rule op_run.more [OF op_step.put [OF s4]], rule op_run.none)
  from interleavings_sound [OF _ _ demo_start run] have "caches_sound demo_env s4 \<and> length (px_caches s4) = 64"
    by (simp add: default_conf_def)
  with run show ?thesis by blast
qed

end
