(* ===== verification/KvSpec.thy ===== *)
theory KvSpec
  imports KvServer JsonFuel
begin

text \<open>
  The key-value server: an upload with a bad body that erases an image, what an upload and a
  lookup over HTTP do, and what a restart of the server does to the store on disk.
\<close>

section \<open>Uploads\<close>

text \<open>C30: an upload whose body names an image but whose list of files cannot be read (of another type,
  say) is answered 400, and yet the image is overwritten with nothing: afterwards it has no
  files, and no hash leads to it; the other images keep their files.\<close>

theorem bad_upload_erases:
  assumes "indexed s" and "parseBody body = (img, False)" and "ci_Files img = None"
    and "ImageHasher_Put s body = (response, s')"
  shows "fst response = StatusBadRequest \<and> GetValues s' (ci_Image img) = [] \<and>
    (\<forall>hash. ci_Image img \<notin> set (GetKey s' hash)) \<and>
    (\<forall>other. other \<noteq> ci_Image img \<longrightarrow> GetValues s' other = GetValues s other)"
proof -
  have s': "s' = PutValues s (ci_Image img) []" "response = (StatusBadRequest, ErrorBody)"
    using assms(2-4) by (simp_all add: ImageHasher_Put_def)
  have vals: "GetValues s' k = (if k = ci_Image img then [] else GetValues s k)" for k
    by (simp add: s' GetValues_def PutValues_def)
  have "indexed s'" using assms(1) by (simp add: s' indexed_def PutValues_def putValues_locked_inv)
  then have "ci_Image img \<notin> set (GetKey s' hash)" for hash by (simp add: kv.get_key_iff vals)
  with s' vals show ?thesis by simp
qed

definition bad_body :: string where
  "bad_body = enc_struct [(''Image'', enc_string ''img''), (''Files'', enc_string ''a'')]"

lemma parse_bad_body: "parseBody (Some bad_body) = (\<lparr>ci_Image = ''img'', ci_Files = None\<rparr>, False)"
proof -
  have utf: "valid_utf8 ''Image''" "valid_utf8 ''Files''" "valid_utf8 ''img''" "valid_utf8 ''a''"
    by (rule valid_utf8_ascii; simp add: in_byte_def)+
  let ?ms = "[(''Image'', enc_string ''img'', JStr ''img''), (''Files'', enc_string ''a'', JStr ''a'')]"
  have "\<forall>(n, e, j) \<in> set ?ms. valid_utf8 n \<and> encodes e j" using utf by (simp add: encodes_string)
  from parse_json_enc_struct [OF _ this]
  have "parse_json bad_body = Some (JObj [(''Image'', JStr ''img''), (''Files'', JStr ''a'')])" by (simp add: bad_body_def)
  then show ?thesis
    by (simp add: parseBody_def dec_struct_def find_field_def upd_CreateImageRequest_def dec_strings_def dec_string_def Let_def)
qed

lemma indexed_demo: "indexed demo_store"
proof -
  have "store_inv demo_store" unfolding demo_store_def by (intro kv_inv)
  then show ?thesis by (simp add: indexed_def)
qed

theorem bad_upload_erases_witness:
  "GetValues demo_store ''img'' = [''a''] \<and> GetValues (snd (ImageHasher_Put demo_store (Some bad_body))) ''img'' = []"
proof -
  obtain response s' where run: "ImageHasher_Put demo_store (Some bad_body) = (response, s')" by fastforce
  from bad_upload_erases [OF indexed_demo parse_bad_body _ run] run show ?thesis by (simp add: GetValues_def)
qed

text \<open>The body of a well-formed upload.\<close>

definition upload_body :: "string \<Rightarrow> string list \<Rightarrow> string" where
  "upload_body img files = enc_struct [(''Image'', enc_string img), (''Files'', enc_strings (Some files))]"

lemma parse_upload_body:
  assumes "valid_utf8 img" and "list_all valid_utf8 files"
  shows "parseBody (Some (upload_body img files)) = (\<lparr>ci_Image = img, ci_Files = Some files\<rparr>, True)"
proof -
  have utf: "valid_utf8 ''Image''" "valid_utf8 ''Files''"
    by (rule valid_utf8_ascii; simp add: in_byte_def)+
  let ?ms = "[(''Image'', enc_string img, JStr img), (''Files'', enc_strings (Some files), JArr (map JStr files))]"
  have "\<forall>(n, e, j) \<in> set ?ms. valid_utf8 n \<and> encodes e j"
    using utf assms by (auto simp: encodes_string list_all_iff intro: encodes_array)
  from parse_json_enc_struct [OF _ this]
  have "parse_json (upload_body img files) = Some (JObj [(''Image'', JStr img), (''Files'', JArr (map JStr files))])"
    by (simp add: upload_body_def)
  moreover obtain arr where "dec_strings (JArr (map JStr files)) (None, []) = ((Some files, arr), True)"
    using dec_strings_array by blast
  ultimately show ?thesis
    by (simp add: parseBody_def dec_struct_def find_field_def upd_CreateImageRequest_def dec_string_def Let_def)
qed

text \<open>C22: an upload over HTTP is served: it is answered 200, a lookup of the image then returns exactly
  its files in their order, and a lookup of a hash returns the image exactly when the hash is one of
  its files; the files of every other image, and what a hash finds of the others, are as before.\<close>

theorem upload_served:
  assumes "indexed s" and "valid_utf8 img" and "list_all valid_utf8 files"
    and "ImageHasher_Put s (Some (upload_body img files)) = (response, s')"
  shows "response = (StatusOK, NoBody) \<and> indexed s' \<and>
    ImageHasher_Get s' [''image'' \<mapsto> img] = (StatusOK, ContentBody \<lparr>im_Files = files\<rparr>) \<and>
    (\<forall>other. other \<noteq> img \<longrightarrow> ImageHasher_Get s' [''image'' \<mapsto> other] = ImageHasher_Get s [''image'' \<mapsto> other]) \<and>
    (\<forall>hash. \<exists>found before. ImageHasher_GetIndex s' [''hash'' \<mapsto> hash] = (StatusOK, IndexBody \<lparr>ii_Image = found\<rparr>) \<and>
       ImageHasher_GetIndex s [''hash'' \<mapsto> hash] = (StatusOK, IndexBody \<lparr>ii_Image = before\<rparr>) \<and>
       set found = set before - {img} \<union> (if hash \<in> set files then {img} else {}))"
proof -
  have s': "s' = PutValues s img files" "response = (StatusOK, NoBody)"
    using assms(4) by (simp_all add: ImageHasher_Put_def parse_upload_body [OF assms(2,3)])
  have vals: "GetValues s' k = (if k = img then files else GetValues s k)" for k
    by (simp add: s' GetValues_def PutValues_def)
  have ix: "indexed s'" using assms(1) by (simp add: s' indexed_def PutValues_def putValues_locked_inv)
  have "set (GetKey s' hash) = set (GetKey s hash) - {img} \<union> (if hash \<in> set files then {img} else {})" for hash
    using kv.get_key_iff [OF ix] kv.get_key_iff [OF assms(1)] vals by (auto split: if_splits)
  with s' ix vals show ?thesis by (simp add: ImageHasher_Get_def ImageHasher_GetIndex_def)
qed

theorem upload_served_witness:
  "ImageHasher_Get (snd (ImageHasher_Put demo_store (Some (upload_body ''web'' [''a'', ''b''])))) [''image'' \<mapsto> ''web''] =
     (StatusOK, ContentBody \<lparr>im_Files = [''a'', ''b'']\<rparr>)"
proof -
  obtain response s' where run: "ImageHasher_Put demo_store (Some (upload_body ''web'' [''a'', ''b''])) = (response, s')" by fastforce
  have "valid_utf8 ''web''" "valid_utf8 ''a''" "valid_utf8 ''b''" by (rule valid_utf8_ascii; simp add: in_byte_def)+
  then have "valid_utf8 ''web''" "list_all valid_utf8 [''a'', ''b'']" by simp_all
  from upload_served [OF indexed_demo this run] run show ?thesis by simp
qed

section \<open>Restarts\<close>

text \<open>C31: the server never reads its file back. Whatever files a former run left, the store behind a
  fresh server is empty for every image and hash, and is marked as changed; so the first round of
  the watcher overwrites the file, and what it then holds restores to the empty store.\<close>

theorem restart_loses_store:
  assumes "NewKvStore (kv_init fs) = ((r, routes), k0)"
  shows "(\<forall>x. GetValues (k_heap k0 ! r) x = [] \<and> GetKey (k_heap k0 ! r) x = []) \<and>
    (\<exists>k1 k2 bytes. kv_step k0 (ESave ''kvstore'' []) k1 \<and> kv_step k1 (EWrite WriteOk) k2 \<and>
       k_files k2 ''kvstore'' = Some bytes \<and> s_data (Restore_bytes bytes True) = Map.empty)"
proof -
  let ?k0 = "\<lparr>k_heap = [new_store True], k_stores = [''kvstore'' \<mapsto> 0], k_files = fs, k_pending = None\<rparr>"
  have k0: "r = 0" "k0 = ?k0"
    using assms by (auto simp: NewKvStore_def NewStore_def WrapName_def kv_init_def Let_def)
  let ?k1 = "?k0\<lparr>k_heap := [(new_store True)\<lparr>s_changed := False\<rparr>], k_pending := Some (''kvstore'', [])\<rparr>"
  have "kv_step ?k0 (ESave ''kvstore'' []) ?k1"
    using kv_step.save [of ?k0 "''kvstore''" 0 "[]"]
    by (simp add: Changed_def new_store_def map_order_def Save_locked_def Save_bytes_def upd_store_def)
  moreover have "kv_step ?k1 (EWrite WriteOk) (?k1\<lparr>k_files := fs(''kvstore'' \<mapsto> []), k_pending := None\<rparr>)"
    using kv_step.flush [of ?k1 "''kvstore''" "[]" WriteOk] by simp
  moreover have "s_data (Restore_bytes [] True) = Map.empty" by (simp add: Restore_bytes_def empty_store_def)
  moreover have "GetValues (new_store True) x = []" "GetKey (new_store True) x = []" for x
    by (simp_all add: GetValues_def GetKey_def new_store_def)
  ultimately show ?thesis unfolding k0 by (fastforce simp del: kv_sys.update_convs)
qed

theorem restart_loses_store_witness:
  "\<exists>k1 k2 bytes. kv_step (snd (NewKvStore (kv_init [''kvstore'' \<mapsto> ''img;a'' @ [newline]]))) (ESave ''kvstore'' []) k1 \<and>
     kv_step k1 (EWrite WriteOk) k2 \<and> k_files k2 ''kvstore'' = Some bytes \<and> s_data (Restore_bytes bytes True) = Map.empty"
proof -
  obtain r routes k0 where new: "NewKvStore (kv_init [''kvstore'' \<mapsto> ''img;a'' @ [newline]]) = ((r, routes), k0)"
    by (metis surj_pair)
  from restart_loses_store [OF new] new show ?thesis by simp
qed

section \<open>RestartStore\<close>

lemma RestartStore_keeps:
  "RestartStore reads k names = (True, k') \<Longrightarrow> n \<notin> set names \<Longrightarrow> k_stores k n = Some r \<Longrightarrow> r < length (k_heap k) \<Longrightarrow>
   k_stores k' n = Some r \<and> k_heap k' ! r = k_heap k ! r"
  by (induction reads k names rule: RestartStore.induct)
     (auto simp: Let_def nth_append split: prod.splits bool.splits)

lemma RestartStore_restores:
  assumes "RestartStore reads k names = (True, k')" and "distinct names" and "n \<in> set names"
  shows "\<exists>r bytes. reads n = Some bytes \<and> k_stores k' n = Some r \<and> k_heap k' ! r = Restore_bytes bytes (IndexedStore n)"
  using assms
proof (induction reads k names rule: RestartStore.induct)
  case (2 reads k m ms)
  from 2(2) obtain s where s: "Restore (empty_store False) (reads m) (IndexedStore m) = (True, s)"
    and more: "RestartStore reads (k\<lparr>k_heap := k_heap k @ [s], k_stores := (k_stores k)(m \<mapsto> length (k_heap k))\<rparr>) ms = (True, k')"
    by (auto simp: Let_def split: prod.splits bool.splits)
  show ?case
  proof (cases "n = m")
    case True
    with 2(3) have "n \<notin> set ms" by simp
    from RestartStore_keeps [OF more this, of "length (k_heap k)"] True
    have "k_stores k' n = Some (length (k_heap k))" "k_heap k' ! length (k_heap k) = s" by simp_all
    moreover from s obtain bytes where "reads n = Some bytes" "s = Restore_bytes bytes (IndexedStore n)"
      unfolding True by (auto simp: Restore_def split: option.splits)
    ultimately show ?thesis by blast
  next
    case False
    from 2(1) [OF s [symmetric] refl refl] more 2(3,4) False show ?thesis by auto
  qed
qed simp

text \<open>RestartStore, if it were called before the server is made, would bring the data back: after
  it has read the files of a former run without an error, NewStore of a name with a file returns
  the store registered under it, and its data is what the file restores to.\<close>

theorem restarted_store_found:
  assumes "RestartStore reads (kv_init fs) names = (True, k)" and "distinct names"
    and "name \<in> set names" and "NewStore k name True = (r, k')"
  shows "k' = k \<and> (\<exists>bytes. reads name = Some bytes \<and> s_data (k_heap k ! r) = s_data (Restore_bytes bytes (IndexedStore name)))"
proof -
  from RestartStore_restores [OF assms(1-3)] obtain r' bytes where
    "reads name = Some bytes" "k_stores k name = Some r'" "k_heap k ! r' = Restore_bytes bytes (IndexedStore name)" by blast
  with assms(4) show ?thesis by (auto simp: NewStore_def WrapName_def)
qed

theorem restarted_store_found_witness:
  "\<exists>r. snd (NewStore (snd (RestartStore [''kvstore'' \<mapsto> ''img;a'' @ [newline]] (kv_init Map.empty) [''kvstore''])) ''kvstore'' True) =
       snd (RestartStore [''kvstore'' \<mapsto> ''img;a'' @ [newline]] (kv_init Map.empty) [''kvstore'']) \<and>
     s_data (k_heap (snd (RestartStore [''kvstore'' \<mapsto> ''img;a'' @ [newline]] (kv_init Map.empty) [''kvstore''])) ! r) =
       s_data (Restore_bytes (''img;a'' @ [newline]) (IndexedStore ''kvstore''))"
proof -
  let ?files = "[''kvstore'' \<mapsto> ''img;a'' @ [newline]]"
  obtain ok k where run: "RestartStore ?files (kv_init Map.empty) [''kvstore''] = (ok, k)" by fastforce
  then have ok: "ok" by (auto simp: Restore_def Let_def)
  obtain r k' where new: "NewStore k ''kvstore'' True = (r, k')" by fastforce
  have "RestartStore ?files (kv_init Map.empty) [''kvstore''] = (True, k)" using run ok by simp
  from restarted_store_found [OF this _ _ new] new run show ?thesis by auto
qed

end
