(* ===== verification/KvBoot.thy ===== *)
theory KvBoot
  imports KvWatcher
begin

text \<open>
  The initialization of the key-value package (\<open>proxy/internal/pkg/kvstore/store.go\<close>: InitStore,
  doInitStore and the calls of it) and the end of the watcher (GracefulShutdown).
\<close>

record kv_boot =
  kb_once :: bool            \<comment> \<open>initFlag has fired\<close>
  kb_initialized :: bool     \<comment> \<open>storeInitialized\<close>
  kb_dir :: string           \<comment> \<open>storeDir\<close>
  kb_made :: "string list"   \<comment> \<open>the directories made\<close>
  kb_watching :: bool        \<comment> \<open>the goroutine of startWatcher runs\<close>

definition boot_state :: kv_boot where
  "boot_state = \<lparr>kb_once = False, kb_initialized = False, kb_dir = ''/var/lib/store'', kb_made = [], kb_watching = False\<rparr>"

text \<open>\<open>mkdir\<close> says whether os.MkdirAll has no error; None is the end of the process (logrus.Fatal).\<close>

definition doInitStore :: "(string \<Rightarrow> bool) \<Rightarrow> kv_boot \<Rightarrow> kv_boot option" where
  "doInitStore mkdir b =
     (if kb_initialized b then Some b
      else if \<not> mkdir (kb_dir b) then None
      else Some (b\<lparr>kb_made := kb_made b @ [kb_dir b], kb_watching := True, kb_initialized := True\<rparr>))"

text \<open>sync.Once: the first call only.\<close>

definition once_init :: "(string \<Rightarrow> bool) \<Rightarrow> kv_boot \<Rightarrow> kv_boot option" where
  "once_init mkdir b = (if kb_once b then Some b else doInitStore mkdir (b\<lparr>kb_once := True\<rparr>))"

definition InitStore :: "(string \<Rightarrow> bool) \<Rightarrow> string \<Rightarrow> kv_boot \<Rightarrow> kv_boot option" where
  "InitStore mkdir path b = once_init mkdir (b\<lparr>kb_dir := path\<rparr>)"

text \<open>
  GracefulShutdown sends on the channel of the watcher: None when no goroutine receives, which
  blocks for ever. The watcher does one more round and ends.
\<close>

definition GracefulShutdown :: "kv_boot \<Rightarrow> kv_boot option" where
  "GracefulShutdown b = (if kb_watching b then Some (b\<lparr>kb_watching := False\<rparr>) else None)"

text \<open>The watcher starts once and in a directory that was made; a later path is not made.\<close>

lemma InitStore_first:
  "mkdir path \<Longrightarrow> InitStore mkdir path boot_state =
     Some \<lparr>kb_once = True, kb_initialized = True, kb_dir = path, kb_made = [path], kb_watching = True\<rparr>"
  by (simp add: InitStore_def once_init_def doInitStore_def boot_state_def)

lemma InitStore_again:
  "kb_once b \<Longrightarrow> InitStore mkdir path b = Some (b\<lparr>kb_dir := path\<rparr>)"
  by (simp add: InitStore_def once_init_def)

lemma shutdown_before_start: "GracefulShutdown boot_state = None"
  by (simp add: GracefulShutdown_def boot_state_def)

end
