(* ===== verification/SafeUtils.thy ===== *)
theory SafeUtils
  imports Address Json
begin

text \<open>
  The parser of the answers of SAFE (\<open>proxy/safeutils.go\<close>: GetPrincipalID), which the proxy no
  longer calls, and the expression it searches for: an id in quotes and brackets.
\<close>

record PrincipalResponse =
  ps_Message :: string

definition upd_PrincipalResponse :: "string \<Rightarrow> json \<Rightarrow> PrincipalResponse \<Rightarrow> PrincipalResponse \<times> bool" where
  "upd_PrincipalResponse f v p = (let (x, ok) = dec_string v (ps_Message p) in (p\<lparr>ps_Message := x\<rparr>, ok))"

definition pid_char :: "char \<Rightarrow> bool" where
  "pid_char c \<longleftrightarrow> is_digit c \<or> in_byte 65 90 c \<or> in_byte 97 122 c \<or> c = CHR ''_'' \<or> c = CHR ''-''"

text \<open>pidMatch at the front of the input: the run of the class is followed by a quote, which it cannot hold.\<close>

definition match_pid :: "string \<Rightarrow> string option" where
  "match_pid s =
     Option.bind (match_char (CHR ''['') s) (\<lambda>s1.
     Option.bind (match_char (CHR 39) s1) (\<lambda>s2.
       (let pid = takeWhile pid_char s2; s3 = dropWhile pid_char s2
        in if pid = [] then None
           else Option.bind (match_char (CHR 39) s3) (\<lambda>s4.
                Option.bind (match_char (CHR '']'') s4) (\<lambda>_. Some pid)))))"

text \<open>The status and the body of the response (no body: reading fails); None is the error.\<close>

definition GetPrincipalID :: "int \<Rightarrow> string option \<Rightarrow> string option" where
  "GetPrincipalID status body =
     (if status \<noteq> StatusOK then None
      else (case body of
              None \<Rightarrow> None
            | Some dat \<Rightarrow>
                (let (pr, ok) = dec_struct [''Message''] upd_PrincipalResponse \<lparr>ps_Message = []\<rparr> dat
                 in if \<not> ok then None else find_match match_pid (ps_Message pr))))"

text \<open>An id in the form of the messages is found, whatever follows.\<close>

lemma match_pid_text:
  assumes "pid \<noteq> []" and "list_all pid_char pid"
  shows "match_pid (CHR ''['' # CHR 39 # pid @ CHR 39 # CHR '']'' # r) = Some pid"
proof -
  have q: "\<not> pid_char (CHR 39)" by (simp add: pid_char_def is_digit_def in_byte_def)
  from assms(2) q have "takeWhile pid_char (pid @ CHR 39 # CHR '']'' # r) = pid"
    "dropWhile pid_char (pid @ CHR 39 # CHR '']'' # r) = CHR 39 # CHR '']'' # r"
    by (auto simp: list_all_iff takeWhile_append2 dropWhile_append2)
  with assms(1) show ?thesis by (simp add: match_pid_def)
qed

lemma GetPrincipalID_answer:
  assumes "pid \<noteq> []" and "list_all pid_char pid"
  shows "GetPrincipalID StatusOK (Some (enc_struct [(''Message'', enc_string (CHR ''['' # CHR 39 # pid @ [CHR 39, CHR '']'']))])) =
    Some pid"
proof -
  let ?m = "CHR ''['' # CHR 39 # pid @ [CHR 39, CHR '']'']"
  have "list_all (in_byte 0 127) ?m"
    using assms(2) by (auto simp: list_all_iff pid_char_def is_digit_def in_byte_def)
  then have "valid_utf8 ?m" by (rule valid_utf8_ascii)
  moreover have "valid_utf8 ''Message''" by (rule valid_utf8_ascii) (simp add: in_byte_def)
  ultimately have "\<forall>(n, e, j) \<in> set [(''Message'', enc_string ?m, JStr ?m)]. valid_utf8 n \<and> encodes e j"
    by (simp add: encodes_string)
  from parse_json_enc_struct [OF _ this]
  have "parse_json (enc_struct [(''Message'', enc_string ?m)]) = Some (JObj [(''Message'', JStr ?m)])" by simp
  moreover have "find_match match_pid ?m = Some pid"
    using match_pid_text [OF assms, of "[]"] by (intro find_match_front) simp
  ultimately show ?thesis
    by (simp add: GetPrincipalID_def dec_struct_def find_field_def upd_PrincipalResponse_def dec_string_def)
qed

end
