(* ===== verification/VmNet.thy ===== *)
theory VmNet
  imports AuthSafety
begin

unbundle bit_operations_syntax

text \<open>
  The network of a virtual machine. net.ParseCIDR builds a mask byte by byte, and
  net.IPNet.Contains masks and compares byte by byte; both are the same as comparing the leading
  bits of the addresses as 32-bit words, so authzControl lets a virtual machine speak for exactly
  the addresses that share the prefix of its network.
\<close>

section \<open>Masks\<close>

lemma bit_mask_byte:
  assumes "j \<le> 8"
  shows "bit (of_nat (256 - 2 ^ j) :: byte) k \<longleftrightarrow> j \<le> k \<and> k < 8"
proof -
  have "(2::nat) ^ j \<le> 2 ^ 8" using assms by (intro power_increasing) auto
  then have "(of_nat (256 - 2 ^ j) :: byte) = of_nat 256 - of_nat (2 ^ j)" by (intro of_nat_diff) simp
  also have "\<dots> = - (2 ^ j)" by simp
  also have "\<dots> = NOT (mask j)" by (simp add: minus_exp_eq_not_mask)
  finally show ?thesis by (auto simp: bit_simps)
qed

lemma bit_CIDRMask:
  assumes "i < 4" and "p \<le> 32"
  shows "bit (CIDRMask p 32 ! i) k \<longleftrightarrow> k < 8 \<and> 8 * (i + 1) \<le> p + k"
proof -
  have eq: "CIDRMask p 32 ! i = (if 8 * (i + 1) \<le> p then 255 else if p \<le> 8 * i then 0
      else of_nat (256 - 2 ^ (8 - (p - 8 * i))))"
    using assms(1) by (simp add: CIDRMask_def)
  have ff: "bit (255 :: byte) k \<longleftrightarrow> k < 8"
  proof -
    have "(of_nat (256 - 2 ^ 0) :: byte) = 255" by simp
    with bit_mask_byte [of 0 k] show ?thesis by simp
  qed
  consider "8 * (i + 1) \<le> p" | "p \<le> 8 * i" | "8 * i < p" "p < 8 * (i + 1)" by linarith
  then show ?thesis
  proof cases
    case 1
    then show ?thesis unfolding eq if_P [OF 1] ff by auto
  next
    case 3
    then have "bit (CIDRMask p 32 ! i) k \<longleftrightarrow> 8 - (p - 8 * i) \<le> k \<and> k < 8"
      unfolding eq by (simp add: bit_mask_byte)
    with 3 show ?thesis by auto
  qed (auto simp: eq)
qed

lemma length_CIDRMask [simp]: "length (CIDRMask p 32) = 4"
  by (simp add: CIDRMask_def)

lemma length_and_bytes [simp]: "length (and_bytes xs ys) = min (length xs) (length ys)"
  by (simp add: and_bytes_def)

lemma nth_and_bytes [simp]: "i < length xs \<Longrightarrow> i < length ys \<Longrightarrow> and_bytes xs ys ! i = xs ! i AND ys ! i"
  by (simp add: and_bytes_def)

lemma and_bytes_idem: "length xs = length m \<Longrightarrow> and_bytes (and_bytes xs m) m = and_bytes xs m"
  by (rule nth_equalityI) (simp_all add: ac_simps)

section \<open>Prefixes\<close>

definition v4_word :: "byte list \<Rightarrow> 32 word" where
  "v4_word bs = word_rcat bs"

definition same_prefix :: "nat \<Rightarrow> byte list \<Rightarrow> byte list \<Rightarrow> bool" where
  "same_prefix p xs ys \<longleftrightarrow> drop_bit (32 - p) (v4_word xs) = drop_bit (32 - p) (v4_word ys)"

lemma bit_v4_word:
  assumes "length bs = 4"
  shows "bit (v4_word bs) q \<longleftrightarrow> q < 32 \<and> bit (bs ! (3 - q div 8)) (q mod 8)"
proof -
  have "rev bs ! (q div 8) = bs ! (3 - q div 8)" if "q < 32"
    using assms that by (subst rev_nth) auto
  with assms bit_horner_sum_uint_exp_iff [of "rev bs" q] show ?thesis
    by (auto simp: v4_word_def word_rcat_def bit_word_of_int_iff)
qed

lemma same_prefix_bits:
  assumes "length xs = 4" "length ys = 4" "p \<le> 32"
  shows "same_prefix p xs ys \<longleftrightarrow>
    (\<forall>q < 32. 32 - p \<le> q \<longrightarrow> bit (xs ! (3 - q div 8)) (q mod 8) = bit (ys ! (3 - q div 8)) (q mod 8))"
proof
  assume s: "same_prefix p xs ys"
  show "\<forall>q < 32. 32 - p \<le> q \<longrightarrow> bit (xs ! (3 - q div 8)) (q mod 8) = bit (ys ! (3 - q div 8)) (q mod 8)"
  proof (intro allI impI)
    fix q :: nat assume q: "q < 32" "32 - p \<le> q"
    from s have "bit (drop_bit (32 - p) (v4_word xs)) (q - (32 - p)) = bit (drop_bit (32 - p) (v4_word ys)) (q - (32 - p))"
      by (simp add: same_prefix_def)
    with q have "bit (v4_word xs) q = bit (v4_word ys) q" by (simp add: bit_drop_bit_eq)
    with q assms show "bit (xs ! (3 - q div 8)) (q mod 8) = bit (ys ! (3 - q div 8)) (q mod 8)"
      by (simp add: bit_v4_word)
  qed
next
  assume "\<forall>q < 32. 32 - p \<le> q \<longrightarrow> bit (xs ! (3 - q div 8)) (q mod 8) = bit (ys ! (3 - q div 8)) (q mod 8)"
  with assms show "same_prefix p xs ys"
    unfolding same_prefix_def by (intro bit_eqI) (auto simp: bit_drop_bit_eq bit_v4_word)
qed

lemma masked_eq_prefix:
  assumes "length xs = 4" "length ys = 4" "p \<le> 32"
  shows "and_bytes xs (CIDRMask p 32) = and_bytes ys (CIDRMask p 32) \<longleftrightarrow> same_prefix p xs ys"
proof -
  have byte: "xs ! i AND CIDRMask p 32 ! i = ys ! i AND CIDRMask p 32 ! i \<longleftrightarrow>
      (\<forall>k < 8. 8 * (i + 1) \<le> p + k \<longrightarrow> bit (xs ! i) k = bit (ys ! i) k)" if "i < 4" for i
    using bit_CIDRMask [OF that assms(3)] by (auto simp: bit_eq_iff bit_and_iff)
  have "and_bytes xs (CIDRMask p 32) = and_bytes ys (CIDRMask p 32) \<longleftrightarrow>
      (\<forall>i < 4. \<forall>k < 8. 8 * (i + 1) \<le> p + k \<longrightarrow> bit (xs ! i) k = bit (ys ! i) k)"
    using assms(1,2) byte by (simp add: list_eq_iff_nth_eq)
  also have "\<dots> \<longleftrightarrow> (\<forall>q < 32. 32 - p \<le> q \<longrightarrow> bit (xs ! (3 - q div 8)) (q mod 8) = bit (ys ! (3 - q div 8)) (q mod 8))"
  proof (rule iffI; intro allI impI)
    fix q :: nat
    assume all: "\<forall>i < 4. \<forall>k < 8. 8 * (i + 1) \<le> p + k \<longrightarrow> bit (xs ! i) k = bit (ys ! i) k" and q: "q < 32" "32 - p \<le> q"
    have "8 * (3 - q div 8 + 1) \<le> p + q mod 8" 
    proof -
      have "q div 8 \<le> 3" using q(1) by simp
      then have "8 * (3 - q div 8 + 1) = 32 - 8 * (q div 8)" by simp
      moreover have "q = 8 * (q div 8) + q mod 8" by simp
      ultimately show ?thesis using q by linarith
    qed
    with all q show "bit (xs ! (3 - q div 8)) (q mod 8) = bit (ys ! (3 - q div 8)) (q mod 8)" by simp
  next
    fix i k :: nat
    assume all: "\<forall>q < 32. 32 - p \<le> q \<longrightarrow> bit (xs ! (3 - q div 8)) (q mod 8) = bit (ys ! (3 - q div 8)) (q mod 8)"
      and i: "i < 4" "k < 8" "8 * (i + 1) \<le> p + k"
    let ?q = "8 * (3 - i) + k"
    have q: "?q div 8 = 3 - i" "?q mod 8 = k" using i(2) by simp_all
    from i(1) have "i \<le> 3" by simp
    then obtain j where j: "3 = i + j" by (auto simp: le_iff_add)
    then have "3 - i = j" by simp
    moreover have "8 * j + k < 32" "32 - p \<le> 8 * j + k" using i j by presburger+
    ultimately have "?q < 32" "32 - p \<le> ?q" by simp_all
    with all have "bit (xs ! (3 - ?q div 8)) (?q mod 8) = bit (ys ! (3 - ?q div 8)) (?q mod 8)" by blast
    then show "bit (xs ! i) k = bit (ys ! i) k" using i(1,2) by (simp add: q)
  qed
  also have "\<dots> \<longleftrightarrow> same_prefix p xs ys" by (rule same_prefix_bits [OF assms, symmetric])
  finally show ?thesis .
qed

section \<open>Networks\<close>

definition v4_net :: "byte \<Rightarrow> byte \<Rightarrow> byte \<Rightarrow> byte \<Rightarrow> nat \<Rightarrow> IPNet" where
  "v4_net a b c d p = \<lparr>net_ip = and_bytes [a, b, c, d] (CIDRMask p 32), net_mask = CIDRMask p 32\<rparr>"

lemma Contains_v4_net:
  assumes "p \<le> 32"
  shows "IPNet_Contains (v4_net a b c d p) (IPv4 e f g h) \<longleftrightarrow> same_prefix p [e, f, g, h] [a, b, c, d]"
proof -
  have "To4 (and_bytes [a, b, c, d] (CIDRMask p 32)) = and_bytes [a, b, c, d] (CIDRMask p 32)" by (simp add: To4_def)
  moreover have "and_bytes [a, b, c, d] (CIDRMask p 32) \<noteq> nil_IP" by (simp add: nil_IP_def and_bytes_def CIDRMask_def)
  ultimately have nn: "networkNumberAndMask (v4_net a b c d p) = (and_bytes [a, b, c, d] (CIDRMask p 32), CIDRMask p 32)"
    by (simp add: networkNumberAndMask_def v4_net_def Let_def)
  have "[e, f, g, h] \<noteq> nil_IP" by (simp add: nil_IP_def)
  then show ?thesis
    using masked_eq_prefix [of "[a, b, c, d]" "[e, f, g, h]" p] assms
    by (auto simp: IPNet_Contains_def nn and_bytes_idem same_prefix_def)
qed

lemma ParseCIDR_v4:
  assumes "p \<le> 32"
  shows "ParseCIDR (dotted a b c d @ CHR ''/'' # nat_dec p) = Some (v4_net a b c d p)"
proof -
  have no: "CHR ''/'' \<notin> set (dotted a b c d)" by (auto simp: dotted_def dest: set_nat_dec)
  let ?t = "dotted a b c d @ CHR ''/'' # nat_dec p"
  have tw: "takeWhile (\<lambda>c. c \<noteq> CHR ''/'') ?t = dotted a b c d" "dropWhile (\<lambda>c. c \<noteq> CHR ''/'') ?t = CHR ''/'' # nat_dec p"
  proof -
    have "\<forall>x \<in> set (dotted a b c d). x \<noteq> CHR ''/''" using no by blast
    then show "takeWhile (\<lambda>c. c \<noteq> CHR ''/'') ?t = dotted a b c d" "dropWhile (\<lambda>c. c \<noteq> CHR ''/'') ?t = CHR ''/'' # nat_dec p"
      by simp_all
  qed
  have mask: "dtoi (nat_dec p) = Some (p, length (nat_dec p), [])" using dtoi_nat_dec [of "[]" p] assms by simp
  have "IP_Mask (IPv4 a b c d) (CIDRMask p 32) = and_bytes [a, b, c, d] (CIDRMask p 32)"
    by (simp add: IP_Mask_def Let_def)
  then show ?thesis
    using assms by (simp add: ParseCIDR_def tw mask Let_def v4_net_def)
qed

section \<open>Property\<close>

text \<open>C18: a virtual machine of the network \<open>a.b.c.d/p\<close> that asks for an address that is not its own is
  authorized exactly when the leading p bits of the two addresses, as 32-bit words, are the same;
  the ports are not looked at. So the masks of ParseCIDR and the comparison of Contains byte by
  byte are equivalent to a comparison of prefixes.\<close>

theorem vm_delegation_prefix:
  assumes "p \<le> 32" and "mr_instance mr = Some inst" and "ic_Type (ci_ID inst) = VM_INSTANCE_TYPE"
    and "ic_Cidr (ci_ID inst) = ParseCIDR (dotted a b c d @ CHR ''/'' # nat_dec p)"
    and "mr_Principal mr \<noteq> IaaSProvider" and "ParseIPNew target = (IPv4 e f g h, l, r, StatusOK)"
    and "\<not> IP_Equal (mr_ip mr) (IPv4 e f g h)"
  shows "authzControl E mr target u s =
    (Ret (with_target mr (IPv4 e f g h) l r,
       if drop_bit (32 - p) (word_rcat [e, f, g, h] :: 32 word) = drop_bit (32 - p) (word_rcat [a, b, c, d])
       then StatusOK else StatusUnauthorized), s)"
proof -
  have "in_charge mr (IPv4 e f g h) l r \<longleftrightarrow> same_prefix p [e, f, g, h] [a, b, c, d]"
    using assms(2-5,7) Contains_v4_net [OF assms(1)] by (simp add: in_charge_def ParseCIDR_v4 [OF assms(1)])
  then show ?thesis
    by (simp add: authzControl_address [OF assms(6)] authz_target_spec assms(2) same_prefix_def v4_word_def)
qed

text \<open>A virtual machine of 10.0.0.0/24 is in charge of 10.0.0.1, and not of 10.0.1.1.\<close>

definition demo_vm :: CachedInstance where
  "demo_vm = \<lparr>ci_Ip = IPv4 10 9 9 9, ci_Lport = 0, ci_Rport = 65535,
     ci_ID = \<lparr>ic_Pid = ''vm'', ic_PPid = ''cloud'', ic_Cidr = ParseCIDR (dotted 10 0 0 0 @ CHR ''/'' # nat_dec 24),
       ic_Type = VM_INSTANCE_TYPE\<rparr>\<rparr>"

theorem vm_delegation_prefix_witness:
  "(\<exists>mr. authzControl demo_env mr (addr_port_text (IPv4 10 0 0 1) 80) False demo_proxy =
      (Ret (with_target mr (IPv4 10 0 0 1) 80 (- 1), StatusOK), demo_proxy)) \<and>
   (\<exists>mr. authzControl demo_env mr (addr_port_text (IPv4 10 0 1 1) 80) False demo_proxy =
      (Ret (with_target mr (IPv4 10 0 1 1) 80 (- 1), StatusUnauthorized), demo_proxy))"
proof -
  let ?mr = "as_instance (demo_mr ''vm'' []) demo_vm"
  have mr: "mr_instance ?mr = Some demo_vm" "mr_Principal ?mr \<noteq> IaaSProvider" "mr_ip ?mr = IPv4 10 9 9 9"
    "ic_Type (ci_ID demo_vm) = VM_INSTANCE_TYPE" "ic_Cidr (ci_ID demo_vm) = ParseCIDR (dotted 10 0 0 0 @ CHR ''/'' # nat_dec 24)"
    by (simp_all add: as_instance_def demo_vm_def IaaSProvider_def)
  have p: "ParseIPNew (addr_port_text (IPv4 10 0 x 1) 80) = (IPv4 10 0 x 1, 80, - 1, StatusOK)" for x
    by (rule ParseIPNew_port_text) simp_all
  have ne: "\<not> IP_Equal (mr_ip ?mr) (IPv4 10 0 x 1)" for x by (simp add: mr(3))
  have bits: "drop_bit (32 - 24) (word_rcat [10, 0, 0, 1 :: byte] :: 32 word) = drop_bit (32 - 24) (word_rcat [10, 0, 0, 0 :: byte])"
    "drop_bit (32 - 24) (word_rcat [10, 0, 1, 1 :: byte] :: 32 word) \<noteq> drop_bit (32 - 24) (word_rcat [10, 0, 0, 0 :: byte])"
    by (simp_all add: word_rcat_def)
  show ?thesis
    using vm_delegation_prefix [OF _ mr(1,4,5,2) p [of 0] ne, of demo_env False demo_proxy]
      vm_delegation_prefix [OF _ mr(1,4,5,2) p [of 1] ne, of demo_env False demo_proxy] bits
    by auto
qed

end
